(* ===== verification/Prelude.thy ===== *)
theory Prelude
  imports Main "HOL-Library.AList" "HOL-Library.List_Lexorder" "HOL-Library.Char_ord"
    "HOL-Library.Sublist"
begin

text \<open>
  What every component shares: the exceptions and the result type of fallible code, the operations of
  Python's \<open>str\<close>, \<open>bytes\<close> and \<open>dict\<close> that the sources use, and the lemma collections of the
  development.

  A Python \<open>str\<close> is represented by its UTF-8 encoding, a \<open>char list\<close> with one \<open>char\<close> per byte, and
  \<open>bytes\<close> by the same type: \<open>s.encode("utf-8")\<close> is then the identity, comparing two strings byte by
  byte orders them as Python does (UTF-8 keeps the order of code points), and \<open>len(s)\<close> of a
  \<open>str\<close> is \<open>py_len\<close>, which counts the bytes that start a code point.  Strings with a lone surrogate,
  which have no UTF-8 encoding, are outside the model.

  An exception is a value of \<open>exn\<close>; a call that may raise returns \<open>exn + 'a\<close>.  The text of a message
  keeps the fixed part of the source's f-string only: no code of the program branches on the values
  that are interpolated.
\<close>

named_theorems res_simps "rewrite rules for results and their binds"
named_theorems store_laws "lookup laws of the stores and of the file system"
named_theorems verify_dests "what an accepting verifier has checked"

section \<open>Exceptions and results\<close>

datatype exn =
    ValueError string | JSONDecodeError | BinasciiError | UnicodeDecodeError
  | KeyError string | TypeError | AttributeError | OverflowError
  | OSError string | PermissionError | StructError
  | RuntimeError string | InvalidSignature | Timeout | EOFError | AssertionError | IndexError

type_synonym 'a res = "exn + 'a"

text \<open>The subclasses of \<open>ValueError\<close> and of \<open>OSError\<close> that an \<open>except\<close> clause also catches.\<close>

fun is_value_error :: "exn \<Rightarrow> bool" where
  "is_value_error (ValueError m) = True"
| "is_value_error JSONDecodeError = True"
| "is_value_error BinasciiError = True"
| "is_value_error UnicodeDecodeError = True"
| "is_value_error e = False"

fun is_os_error :: "exn \<Rightarrow> bool" where
  "is_os_error (OSError m) = True"
| "is_os_error PermissionError = True"
| "is_os_error e = False"

fun bindE :: "'a res \<Rightarrow> ('a \<Rightarrow> 'b res) \<Rightarrow> 'b res" where
  "bindE (Inl e) f = Inl e"
| "bindE (Inr x) f = f x"

definition raise_if :: "bool \<Rightarrow> exn \<Rightarrow> unit res" where
  "raise_if c e = (if c then Inl e else Inr ())"

lemma bindE_Inr_iff [res_simps]:
  "bindE m f = Inr y \<longleftrightarrow> (\<exists>x. m = Inr x \<and> f x = Inr y)"
  by (cases m) auto

lemma bindE_Inl_iff [res_simps]:
  "bindE m f = Inl e \<longleftrightarrow> m = Inl e \<or> (\<exists>x. m = Inr x \<and> f x = Inl e)"
  by (cases m) auto

lemma raise_if_Inr [simp]: "raise_if c e = Inr u \<longleftrightarrow> \<not> c"
  by (simp add: raise_if_def)

lemma raise_if_Inl [simp]: "raise_if c e = Inl e' \<longleftrightarrow> c \<and> e' = e"
  by (auto simp: raise_if_def)

lemma bindE_raise_if [simp]: "bindE (raise_if c e) f = (if c then Inl e else f ())"
  by (simp add: raise_if_def)

lemma bindE_cong [fundef_cong]:
  assumes "m = m'" and "\<And>x. m' = Inr x \<Longrightarrow> f x = f' x"
  shows "bindE m f = bindE m' f'"
  using assms by (cases m') auto

text \<open>A \<open>for\<close> loop that collects one result per element and stops at the first exception.\<close>

fun mapE :: "('a \<Rightarrow> 'b res) \<Rightarrow> 'a list \<Rightarrow> 'b list res" where
  "mapE f [] = Inr []"
| "mapE f (x # xs) = bindE (f x) (\<lambda>y. bindE (mapE f xs) (\<lambda>ys. Inr (y # ys)))"

lemma mapE_Inr_iff: "mapE f xs = Inr ys \<longleftrightarrow> list_all2 (\<lambda>x y. f x = Inr y) xs ys"
  by (induction xs arbitrary: ys) (auto simp: res_simps list_all2_Cons1)

section \<open>Dictionaries\<close>

text \<open>
  A Python \<open>dict\<close> keeps insertion order: an association list with distinct keys.  \<open>d.get(k)\<close> is
  \<open>map_of d k\<close>, \<open>d[k] = v\<close> is \<open>AList.update k v d\<close> (in place when the key is present, at the end
  when it is new), \<open>del d[k]\<close> is \<open>AList.delete k d\<close>.
\<close>

type_synonym ('k, 'v) dict = "('k \<times> 'v) list"

definition dict_ok :: "('k, 'v) dict \<Rightarrow> bool" where
  "dict_ok d \<longleftrightarrow> distinct (map fst d)"

lemma dict_ok_Nil [simp]: "dict_ok []"
  by (simp add: dict_ok_def)

lemma dict_ok_update [simp]: "dict_ok d \<Longrightarrow> dict_ok (AList.update k v d)"
  by (simp add: dict_ok_def AList.distinct_update)

lemma dict_ok_delete [simp]: "dict_ok d \<Longrightarrow> dict_ok (AList.delete k d)"
  by (simp add: dict_ok_def AList.distinct_delete)

lemma map_of_update [simp, store_laws]:
  "map_of (AList.update k v d) k' = (if k' = k then Some v else map_of d k')"
  by (simp add: AList.update_conv)

lemma set_update_dict: "set (AList.update k v d) \<subseteq> insert (k, v) (set d)"
  by (induction d) auto

lemma update_new: "k \<notin> fst ` set d \<Longrightarrow> AList.update k v d = d @ [(k, v)]"
  by (induction d) auto

lemma map_of_filter_key:
  "map_of (filter (\<lambda>p. P (fst p)) d) k = (if P k then map_of d k else None)"
  by (induction d) auto

text \<open>The mapping interface the stores use, with the laws their lemmas rest on.\<close>

locale mapping_store =
  fixes look :: "'d \<Rightarrow> 'k \<Rightarrow> 'v option"
    and upd :: "'k \<Rightarrow> 'v \<Rightarrow> 'd \<Rightarrow> 'd"
    and del :: "'k \<Rightarrow> 'd \<Rightarrow> 'd"
  assumes look_upd: "look (upd k v d) k' = (if k' = k then Some v else look d k')"
    and look_del: "look (del k d) k' = (if k' = k then None else look d k')"
begin

lemma upd_present: "look (upd k v d) k \<noteq> None"
  by (simp add: look_upd)

lemma look_upds:
  "look (fold (\<lambda>k. upd k (f k)) ks d) k = (if k \<in> set ks then Some (f k) else look d k)"
  by (induction ks arbitrary: d) (auto simp: look_upd)

lemma upd_del_same: "look (del k (upd k v d)) = look (del k d)"
  by (rule ext) (simp add: look_del look_upd)

end

interpretation pydict: mapping_store map_of AList.update AList.delete
  by unfold_locales (simp_all add: AList.delete_conv')

end
