(* ===== verification/PyStr.thy ===== *)
theory PyStr
  imports Prelude
begin

text \<open>
  The string and bytes operations of the Python standard library that the sources call:
  \<open>len\<close>, \<open>split\<close>, \<open>join\<close>, \<open>replace\<close>, \<open>strip\<close>, \<open>lower\<close>, prefix and substring tests, decimal
  rendering and parsing of integers, and the UTF-8 codec (\<open>str.encode\<close> / \<open>bytes.decode\<close>), which on this
  representation is a validity check.
\<close>

section \<open>UTF-8\<close>

text \<open>
  \<open>u8_decode s\<close> is the list of code points of \<open>s\<close>, or \<open>None\<close> when \<open>s\<close> is not well-formed UTF-8
  (overlong forms, surrogates and values above 0x10FFFF are rejected, as \<open>bytes.decode\<close> does).
\<close>

definition is_cont :: "nat \<Rightarrow> bool" where
  "is_cont b \<longleftrightarrow> 128 \<le> b \<and> b < 192"

definition scalar :: "nat \<Rightarrow> bool" where
  "scalar c \<longleftrightarrow> c < 0xD800 \<or> (0xE000 \<le> c \<and> c < 0x110000)"

definition u8_enc :: "nat \<Rightarrow> nat list" where
  "u8_enc c =
     (if c < 0x80 then [c]
      else if c < 0x800 then [192 + c div 64, 128 + c mod 64]
      else if c < 0x10000 then [224 + c div 4096, 128 + (c div 64) mod 64, 128 + c mod 64]
      else [240 + c div 262144, 128 + (c div 4096) mod 64, 128 + (c div 64) mod 64, 128 + c mod 64])"

definition u8_encode :: "nat list \<Rightarrow> string" where
  "u8_encode cs = map char_of (concat (map u8_enc cs))"

fun u8_dec :: "nat list \<Rightarrow> nat list option" where
  "u8_dec [] = Some []"
| "u8_dec (a # xs) =
     (if a < 128 then map_option (Cons a) (u8_dec xs)
      else if 192 \<le> a \<and> a < 224 then
        (case xs of
           b # ys \<Rightarrow>
             (let c = (a - 192) * 64 + (b - 128)
              in if is_cont b \<and> 0x80 \<le> c then map_option (Cons c) (u8_dec ys) else None)
         | _ \<Rightarrow> None)
      else if 224 \<le> a \<and> a < 240 then
        (case xs of
           b # b' # ys \<Rightarrow>
             (let c = (a - 224) * 4096 + (b - 128) * 64 + (b' - 128)
              in if is_cont b \<and> is_cont b' \<and> 0x800 \<le> c \<and> scalar c
                 then map_option (Cons c) (u8_dec ys) else None)
         | _ \<Rightarrow> None)
      else if 240 \<le> a \<and> a < 248 then
        (case xs of
           b # b' # b'' # ys \<Rightarrow>
             (let c = (a - 240) * 262144 + (b - 128) * 4096 + (b' - 128) * 64 + (b'' - 128)
              in if is_cont b \<and> is_cont b' \<and> is_cont b'' \<and> 0x10000 \<le> c \<and> scalar c
                 then map_option (Cons c) (u8_dec ys) else None)
         | _ \<Rightarrow> None)
      else None)"

definition u8_decode :: "string \<Rightarrow> nat list option" where
  "u8_decode s = u8_dec (map of_char s)"

definition utf8 :: "string \<Rightarrow> bool" where
  "utf8 s \<longleftrightarrow> u8_decode s \<noteq> None"

text \<open>\<open>bytes.decode("utf-8")\<close>.\<close>

definition decode_utf8 :: "string \<Rightarrow> string res" where
  "decode_utf8 b = (if utf8 b then Inr b else Inl UnicodeDecodeError)"

declare u8_dec.simps(2) [simp del]

lemma u8_dec_ascii [simp]: "a < 128 \<Longrightarrow> u8_dec (a # xs) = map_option (Cons a) (u8_dec xs)"
  by (simp add: u8_dec.simps(2))

lemma base64_digits:
  fixes c :: nat
  shows "c div 4096 * 4096 + c div 64 mod 64 * 64 + c mod 64 = c"
    and "c div 262144 * 262144 + c div 4096 mod 64 * 4096 + c div 64 mod 64 * 64 + c mod 64 = c"
proof -
  have d: "c div 4096 = c div 64 div 64" "c div 262144 = c div 64 div 64 div 64"
    by (simp_all add: div_mult2_eq [symmetric])
  have a: "x div 64 * 64 + x mod 64 = x" for x :: nat
    by simp
  show "c div 4096 * 4096 + c div 64 mod 64 * 64 + c mod 64 = c"
    unfolding d using a [of c] a [of "c div 64"] by linarith
  show "c div 262144 * 262144 + c div 4096 mod 64 * 4096 + c div 64 mod 64 * 64 + c mod 64 = c"
    unfolding d using a [of c] a [of "c div 64"] a [of "c div 64 div 64"] by linarith
qed

lemma is_contE:
  assumes "is_cont b"
  obtains r where "b = 128 + r" and "r < 64"
  using assms by (auto simp: is_cont_def dest: le_Suc_ex)

lemma u8_dec_enc [simp]:
  assumes "scalar c"
  shows "u8_dec (u8_enc c @ xs) = map_option (Cons c) (u8_dec xs)"
proof -
  consider "c < 0x80" | "0x80 \<le> c" "c < 0x800" | "0x800 \<le> c" "c < 0x10000"
    | "0x10000 \<le> c" "c < 0x110000"
    using assms by (force simp: scalar_def)
  then show ?thesis
  proof cases
    case 1
    then show ?thesis by (simp add: u8_enc_def)
  next
    case 2
    then have "c div 64 * 64 + c mod 64 = c" and "2 \<le> c div 64" and "c div 64 < 32"
      by auto
    with 2 show ?thesis
      by (simp add: u8_enc_def u8_dec.simps(2) is_cont_def Let_def)
  next
    case 3
    have "c div 4096 < 16" using 3 by auto
    with 3 assms base64_digits(1) [of c] show ?thesis
      by (simp add: u8_enc_def u8_dec.simps(2) is_cont_def Let_def)
  next
    case 4
    have "c div 262144 < 8" using 4 by auto
    with 4 assms base64_digits(2) [of c] show ?thesis
      by (simp add: u8_enc_def u8_dec.simps(2) is_cont_def Let_def)
  qed
qed

lemma u8_dec_concat [simp]:
  "(\<forall>c \<in> set cs. scalar c) \<Longrightarrow> u8_dec (concat (map u8_enc cs)) = Some cs"
  by (induction cs) auto

lemma u8_enc_byte: "scalar c \<Longrightarrow> b \<in> set (u8_enc c) \<Longrightarrow> b < 256"
  by (auto simp: u8_enc_def scalar_def split: if_splits)

lemma of_char_u8_encode:
  "\<forall>c \<in> set cs. scalar c \<Longrightarrow> map of_char (u8_encode cs) = concat (map u8_enc cs)"
proof -
  assume "\<forall>c \<in> set cs. scalar c"
  then have "\<forall>b \<in> set (concat (map u8_enc cs)). b < 256"
    using u8_enc_byte by auto
  then show ?thesis
    unfolding u8_encode_def map_map by (intro map_idI) (auto simp del: set_concat)
qed

lemma u8_decode_encode [simp]:
  "\<forall>c \<in> set cs. scalar c \<Longrightarrow> u8_decode (u8_encode cs) = Some cs"
  by (simp add: u8_decode_def of_char_u8_encode)

lemma sextet: "(r::nat) < 64 \<Longrightarrow> (64 * x + r) mod 64 = r \<and> (64 * x + r) div 64 = x"
  by auto

lemma u8_enc_two:
  assumes "192 \<le> a" and "a < 224" and "is_cont b" and "0x80 \<le> (a - 192) * 64 + (b - 128)"
  shows "u8_enc ((a - 192) * 64 + (b - 128)) = [a, b]"
proof -
  obtain q r where "a = 192 + q" "q < 32" "b = 128 + r" "r < 64"
    using assms by (auto elim!: is_contE dest: le_Suc_ex)
  then show ?thesis using assms(4) by (auto simp: u8_enc_def)
qed

lemma u8_enc_three:
  assumes "224 \<le> a" and "a < 240" and "is_cont b" and "is_cont b'"
    and "0x800 \<le> (a - 224) * 4096 + (b - 128) * 64 + (b' - 128)"
  shows "u8_enc ((a - 224) * 4096 + (b - 128) * 64 + (b' - 128)) = [a, b, b']"
proof -
  obtain q r r' where eq: "a = 224 + q" "b = 128 + r" "b' = 128 + r'"
    and lt: "q < 16" "r < 64" "r' < 64"
    using assms by (auto elim!: is_contE dest: le_Suc_ex)
  let ?c = "q * 4096 + r * 64 + r'"
  have "?c = 64 * (r + 64 * q) + r'" by simp
  then have m: "?c mod 64 = r'" "?c div 64 = r + 64 * q"
    using lt sextet [of r' "r + 64 * q"] by metis+
  moreover have "?c div 4096 = q" using lt by simp
  ultimately show ?thesis using assms(5) eq lt by (simp add: u8_enc_def)
qed

lemma u8_enc_four:
  assumes "240 \<le> a" and "a < 248" and "is_cont b" and "is_cont b'" and "is_cont b''"
    and "0x10000 \<le> (a - 240) * 262144 + (b - 128) * 4096 + (b' - 128) * 64 + (b'' - 128)"
  shows "u8_enc ((a - 240) * 262144 + (b - 128) * 4096 + (b' - 128) * 64 + (b'' - 128)) = [a, b, b', b'']"
proof -
  obtain q r r' r'' where eq: "a = 240 + q" "b = 128 + r" "b' = 128 + r'" "b'' = 128 + r''"
    and lt: "q < 8" "r < 64" "r' < 64" "r'' < 64"
    using assms by (auto elim!: is_contE dest: le_Suc_ex)
  define c where "c = q * 262144 + r * 4096 + r' * 64 + r''"
  have c64: "c = 64 * (r' + 64 * (r + 64 * q)) + r''" by (simp add: c_def)
  have "c div 4096 = r + 64 * q" and d: "c div 262144 = q"
    unfolding c_def using lt by simp_all
  then have m: "c div 4096 mod 64 = r" using lt sextet [of r q] by (simp add: add.commute)
  have "c div 64 = r' + 64 * (r + 64 * q)" and m0: "c mod 64 = r''"
    unfolding c64 using lt sextet [of r'' "r' + 64 * (r + 64 * q)"] by blast+
  then have m1: "c div 64 mod 64 = r'"
    using lt sextet [of r' "r + 64 * q"] by (metis add.commute)
  have "65536 \<le> c" using assms(6) eq by (simp add: c_def)
  then have "u8_enc c = [240 + q, 128 + r, 128 + r', 128 + r'']"
    by (simp add: u8_enc_def m m0 m1 d)
  then show ?thesis using eq by (simp add: c_def)
qed

lemma u8_dec_Some_step:
  assumes "u8_dec (a # xs) = Some cs"
  shows "\<exists>c cs' k. scalar c \<and> cs = c # cs' \<and> u8_enc c @ drop k xs = a # xs \<and>
    u8_dec (drop k xs) = Some cs'"
proof -
  consider (one) "a < 128" | (two) "192 \<le> a" "a < 224" | (three) "224 \<le> a" "a < 240"
    | (four) "240 \<le> a" "a < 248" | (none) "128 \<le> a \<and> a < 192 \<or> 248 \<le> a"
    by linarith
  then show ?thesis
  proof cases
    case one
    with assms show ?thesis
      by (intro exI [of _ a] exI [of _ "tl cs"] exI [of _ 0]) (auto simp: u8_enc_def scalar_def)
  next
    case two
    then obtain b ys where x: "xs = b # ys" "is_cont b" "0x80 \<le> (a - 192) * 64 + (b - 128)"
        "map_option (Cons ((a - 192) * 64 + (b - 128))) (u8_dec ys) = Some cs"
      using assms by (simp add: u8_dec.simps(2) Let_def split: list.split_asm if_split_asm)
    have "scalar ((a - 192) * 64 + (b - 128))"
      using two x(2) by (auto simp: scalar_def is_cont_def)
    then show ?thesis
      using u8_enc_two [OF two x(2,3)] x(1,4)
      by (intro exI [of _ "(a - 192) * 64 + (b - 128)"] exI [of _ "tl cs"] exI [of _ 1]) auto
  next
    case three
    then obtain b b' ys where x: "xs = b # b' # ys" "is_cont b" "is_cont b'"
        "0x800 \<le> (a - 224) * 4096 + (b - 128) * 64 + (b' - 128)"
        "scalar ((a - 224) * 4096 + (b - 128) * 64 + (b' - 128))"
        "map_option (Cons ((a - 224) * 4096 + (b - 128) * 64 + (b' - 128))) (u8_dec ys) = Some cs"
      using assms by (simp add: u8_dec.simps(2) Let_def split: list.split_asm if_split_asm)
    then show ?thesis
      using u8_enc_three [OF three x(2-4)]
      by (intro exI [of _ "(a - 224) * 4096 + (b - 128) * 64 + (b' - 128)"] exI [of _ "tl cs"]
          exI [of _ 2]) auto
  next
    case four
    then obtain b b' b'' ys where x: "xs = b # b' # b'' # ys" "is_cont b" "is_cont b'" "is_cont b''"
        "0x10000 \<le> (a - 240) * 262144 + (b - 128) * 4096 + (b' - 128) * 64 + (b'' - 128)"
        "scalar ((a - 240) * 262144 + (b - 128) * 4096 + (b' - 128) * 64 + (b'' - 128))"
        "map_option (Cons ((a - 240) * 262144 + (b - 128) * 4096 + (b' - 128) * 64 + (b'' - 128)))
          (u8_dec ys) = Some cs"
      using assms by (simp add: u8_dec.simps(2) Let_def split: list.split_asm if_split_asm)
    then show ?thesis
      using u8_enc_four [OF four x(2-5)]
      by (intro exI [of _ "(a - 240) * 262144 + (b - 128) * 4096 + (b' - 128) * 64 + (b'' - 128)"]
          exI [of _ "tl cs"] exI [of _ 3]) auto
  next
    case none
    with assms show ?thesis by (auto simp: u8_dec.simps(2))
  qed
qed

lemma u8_dec_Some:
  "u8_dec bs = Some cs \<Longrightarrow> concat (map u8_enc cs) = bs \<and> (\<forall>c \<in> set cs. scalar c)"
proof (induction bs arbitrary: cs rule: length_induct)
  case (1 bs)
  have IH: "u8_dec ys = Some cs' \<Longrightarrow> concat (map u8_enc cs') = ys \<and> (\<forall>c \<in> set cs'. scalar c)"
    if "length ys < length bs" for ys cs'
    using "1.IH" that by blast
  show ?case
  proof (cases bs)
    case Nil
    with "1.prems" show ?thesis by simp
  next
    case (Cons a xs)
    with "1.prems" obtain c cs' k where c: "scalar c" "cs = c # cs'" "u8_enc c @ drop k xs = a # xs"
        "u8_dec (drop k xs) = Some cs'"
      using u8_dec_Some_step by blast
    moreover have "concat (map u8_enc cs') = drop k xs \<and> (\<forall>c \<in> set cs'. scalar c)"
      using IH [of "drop k xs" cs'] c(4) Cons by simp
    ultimately show ?thesis using Cons by simp
  qed
qed
lemma u8_decode_Some:
  assumes "u8_decode s = Some cs"
  shows "u8_encode cs = s" and "\<forall>c \<in> set cs. scalar c"
proof -
  have c: "concat (map u8_enc cs) = map of_char s" and "\<forall>c \<in> set cs. scalar c"
    using assms u8_dec_Some unfolding u8_decode_def by blast+
  then show "\<forall>c \<in> set cs. scalar c" by simp
  show "u8_encode cs = s"
    unfolding u8_encode_def c map_map by (intro map_idI) simp
qed

lemma utf8_ascii: "\<forall>c \<in> set s. of_char c < (128::nat) \<Longrightarrow> utf8 s"
proof -
  assume "\<forall>c \<in> set s. of_char c < (128::nat)"
  then have "u8_dec (map of_char s) = Some (map of_char s)"
    by (induction s) auto
  then show ?thesis by (simp add: utf8_def u8_decode_def)
qed

section \<open>Lengths, splitting, joining\<close>

definition py_len :: "string \<Rightarrow> nat" where
  "py_len s = length (filter (\<lambda>c. \<not> is_cont (of_char c)) s)"

lemma py_len_le: "py_len s \<le> length s"
  by (simp add: py_len_def)

text \<open>\<open>s.split(sep)\<close> for a one-character separator: never the empty list.\<close>

fun split_on :: "char \<Rightarrow> string \<Rightarrow> string list" where
  "split_on sep [] = [[]]"
| "split_on sep (c # s) =
     (if c = sep then [] # split_on sep s
      else case split_on sep s of [] \<Rightarrow> [[c]] | w # ws \<Rightarrow> (c # w) # ws)"

fun join :: "string \<Rightarrow> string list \<Rightarrow> string" where
  "join sep [] = []"
| "join sep [w] = w"
| "join sep (w # ws) = w @ sep @ join sep ws"

lemma split_on_ne [simp]: "split_on sep s \<noteq> []"
  by (cases s) (auto split: list.splits)

lemma join_Cons_head: "join sep ((c # w) # ws) = c # join sep (w # ws)"
  by (cases ws) auto

lemma join_split [simp]: "join [sep] (split_on sep s) = s"
proof (induction s)
  case Nil
  then show ?case by simp
next
  case (Cons c s)
  obtain w ws where "split_on sep s = w # ws"
    using split_on_ne [of sep s] by (metis list.exhaust)
  with Cons show ?case
    by (cases ws) (auto simp: join_Cons_head)
qed

lemma split_on_no_sep: "w \<in> set (split_on sep s) \<Longrightarrow> sep \<notin> set w"
  by (induction s arbitrary: w) (auto split: if_splits list.splits)

lemma split_on_inj: "split_on sep s = split_on sep t \<Longrightarrow> s = t"
  using join_split by metis

text \<open>\<open>sub in s\<close>, \<open>s.replace(old, new)\<close> (for a non-empty \<open>old\<close>).\<close>

definition contains_sub :: "string \<Rightarrow> string \<Rightarrow> bool" where
  "contains_sub sub s = list_ex (prefix sub) (suffixes s)"

fun replace_all :: "string \<Rightarrow> string \<Rightarrow> string \<Rightarrow> string" where
  "replace_all old new [] = []"
| "replace_all old new (c # s) =
     (if old \<noteq> [] \<and> prefix old (c # s) then new @ replace_all old new (drop (length old - 1) s)
      else c # replace_all old new s)"

text \<open>
  White space, lower case (on ASCII), decimal digits.  \<open>str.strip()\<close> removes every Unicode white space:
  \<open>space_units\<close> are the UTF-8 forms of the ones beyond ASCII.
\<close>

definition is_space :: "char \<Rightarrow> bool" where
  "is_space c \<longleftrightarrow> (let n = of_char c :: nat in 9 \<le> n \<and> n \<le> 13 \<or> 28 \<le> n \<and> n \<le> 32)"

definition space_units :: "string list" where
  "space_units =
     [[CHR 0xC2, CHR 0x85], [CHR 0xC2, CHR 0xA0], [CHR 0xE1, CHR 0x9A, CHR 0x80], [CHR 0xE2, CHR 0x81, CHR 0x9F],
      [CHR 0xE3, CHR 0x80, CHR 0x80]] @
     map (\<lambda>n. [CHR 0xE2, CHR 0x80, char_of n]) [128, 129, 130, 131, 132, 133, 134, 135, 136, 137, 138, 168, 169, 175 :: nat]"

fun strip_front :: "string list \<Rightarrow> string \<Rightarrow> string" where
  "strip_front units [] = []"
| "strip_front units (c # s) =
     (if is_space c then strip_front units s
      else (case List.find (\<lambda>u. prefix u (c # s)) units of
          None \<Rightarrow> c # s
        | Some u \<Rightarrow> strip_front units (drop (length u - 1) s)))"

definition strip :: "string \<Rightarrow> string" where
  "strip s = rev (strip_front (map rev space_units) (rev (strip_front space_units s)))"

text \<open>On ASCII text only the ASCII ones matter.\<close>

lemma strip_front_ascii:
  assumes "\<forall>c \<in> set s. of_char c < (128::nat)" and "\<forall>u \<in> set units. \<exists>c r. u = c # r \<and> 128 \<le> (of_char c :: nat)"
  shows "strip_front units s = dropWhile is_space s"
  using assms(1)
proof (induction s)
  case (Cons c s)
  have "List.find (\<lambda>u. prefix u (c # s)) units = None"
    using assms(2) Cons.prems by (fastforce simp: find_None_iff)
  then show ?case using Cons by simp
qed simp

lemma strip_ascii:
  assumes "\<forall>c \<in> set s. of_char c < (128::nat)"
  shows "strip s = rev (dropWhile is_space (rev (dropWhile is_space s)))"
proof -
  have u: "\<forall>u \<in> set space_units. \<exists>c r. u = c # r \<and> 128 \<le> (of_char c :: nat)"
    by (simp add: space_units_def)
  have u': "\<forall>u \<in> set (map rev space_units). \<exists>c r. u = c # r \<and> 128 \<le> (of_char c :: nat)"
    by (simp add: space_units_def)
  have d: "\<forall>c \<in> set (rev (dropWhile is_space s)). of_char c < (128::nat)"
    using assms set_dropWhileD by fastforce
  show ?thesis by (simp add: strip_def strip_front_ascii [OF assms u] strip_front_ascii [OF d u'])
qed

definition lower_char :: "char \<Rightarrow> char" where
  "lower_char c = (let n = of_char c :: nat in if 65 \<le> n \<and> n \<le> 90 then char_of (n + 32) else c)"

definition lower :: "string \<Rightarrow> string" where
  "lower s = map lower_char s"

definition is_digit :: "char \<Rightarrow> bool" where
  "is_digit c \<longleftrightarrow> (let n = of_char c :: nat in 48 \<le> n \<and> n \<le> 57)"

definition is_alnum :: "char \<Rightarrow> bool" where
  "is_alnum c \<longleftrightarrow> (let n = of_char c :: nat in
     48 \<le> n \<and> n \<le> 57 \<or> 65 \<le> n \<and> n \<le> 90 \<or> 97 \<le> n \<and> n \<le> 122)"

section \<open>Decimal integers\<close>

definition digit_val :: "char \<Rightarrow> nat" where
  "digit_val c = of_char c - 48"

definition digit_char :: "nat \<Rightarrow> char" where
  "digit_char d = char_of (48 + d)"

fun str_of_nat :: "nat \<Rightarrow> string" where
  "str_of_nat n = (if n < 10 then [digit_char n] else str_of_nat (n div 10) @ [digit_char (n mod 10)])"

declare str_of_nat.simps [simp del]

definition str_of_int :: "int \<Rightarrow> string" where
  "str_of_int i = (if i < 0 then CHR ''-'' # str_of_nat (nat (- i)) else str_of_nat (nat i))"

definition digits_val :: "string \<Rightarrow> nat" where
  "digits_val s = foldl (\<lambda>a c. 10 * a + digit_val c) 0 s"

text \<open>
  \<open>int(s)\<close> on a string: surrounding white space, a sign, and decimal digits with single underscores
  between them.
\<close>

fun read_digits :: "bool \<Rightarrow> nat \<Rightarrow> string \<Rightarrow> nat option" where
  "read_digits p acc [] = (if p then Some acc else None)"
| "read_digits p acc (c # s) =
     (if is_digit c then read_digits True (10 * acc + digit_val c) s
      else if c = CHR ''_'' \<and> p then read_digits False acc s
      else None)"

definition int_of_str :: "string \<Rightarrow> int option" where
  "int_of_str s =
     (case strip s of
        [] \<Rightarrow> None
      | c # r \<Rightarrow>
          if c = CHR ''-'' then map_option (\<lambda>n. - int n) (read_digits False 0 r)
          else if c = CHR ''+'' then map_option int (read_digits False 0 r)
          else map_option int (read_digits False 0 (c # r)))"

lemma digit_char [simp]:
  assumes "d < 10"
  shows "is_digit (digit_char d)" "digit_val (digit_char d) = d" "\<not> is_space (digit_char d)"
    "digit_char d \<noteq> CHR ''-''" "digit_char d \<noteq> CHR ''+''" "digit_char d = CHR ''0'' \<longleftrightarrow> d = 0"
proof -
  have o: "of_char (digit_char d) = 48 + d" using assms by (simp add: digit_char_def)
  have neq: "digit_char d = c \<longleftrightarrow> of_char c = 48 + d" for c
    using o by (metis of_char_eq_iff)
  show "is_digit (digit_char d)" "digit_val (digit_char d) = d" "\<not> is_space (digit_char d)"
    using assms o by (simp_all add: is_digit_def digit_val_def is_space_def Let_def)
  show "digit_char d \<noteq> CHR ''-''" "digit_char d \<noteq> CHR ''+''" "digit_char d = CHR ''0'' \<longleftrightarrow> d = 0"
    unfolding neq by simp_all
qed

lemma str_of_nat_digits: "\<forall>c \<in> set (str_of_nat n). is_digit c \<and> \<not> is_space c"
  by (induction n rule: str_of_nat.induct) (subst str_of_nat.simps, auto)

lemma str_of_nat_ne [simp]: "str_of_nat n \<noteq> []"
  by (subst str_of_nat.simps) auto

lemma hd_str_of_nat: "is_digit (hd (str_of_nat n))" "hd (str_of_nat n) = CHR ''0'' \<Longrightarrow> n = 0"
proof -
  show "is_digit (hd (str_of_nat n))"
    using str_of_nat_digits [of n] by (metis hd_in_set str_of_nat_ne)
  show "hd (str_of_nat n) = CHR ''0'' \<Longrightarrow> n = 0"
  proof (induction n rule: str_of_nat.induct)
    case (1 n)
    then show ?case
      by (cases "n < 10") (simp_all add: str_of_nat.simps [of n])
  qed
qed

lemma str_of_nat_0: "n = 0 \<Longrightarrow> str_of_nat n = ''0''"
  using digit_char(6) [of 0] by (subst str_of_nat.simps) simp

lemma digits_val_str [simp]: "digits_val (str_of_nat n) = n"
proof (induction n rule: str_of_nat.induct)
  case (1 n)
  then show ?case
    by (cases "n < 10") (simp_all add: str_of_nat.simps [of n] digits_val_def)
qed

lemma read_digits_all:
  "\<forall>c \<in> set s. is_digit c \<Longrightarrow> s \<noteq> [] \<or> p \<Longrightarrow>
    read_digits p acc s = Some (foldl (\<lambda>a c. 10 * a + digit_val c) acc s)"
  by (induction s arbitrary: p acc) auto

lemma read_digits_str [simp]: "read_digits False 0 (str_of_nat n) = Some n"
  using read_digits_all [of "str_of_nat n" False 0] str_of_nat_digits [of n] digits_val_str [of n]
  by (simp add: digits_val_def)

lemma strip_id:
  assumes "\<forall>c \<in> set s. \<not> is_space c \<and> of_char c < (128::nat)"
  shows "strip s = s"
proof -
  have "dropWhile is_space t = t" if "\<forall>c \<in> set t. \<not> is_space c" for t
    using that by (cases t) auto
  from this [of s] this [of "rev s"] show ?thesis using assms by (simp add: strip_ascii)
qed

lemma int_of_str_str [simp]: "int_of_str (str_of_int i) = Some i"
proof -
  have s: "strip (str_of_int i) = str_of_int i"
  proof (rule strip_id, rule ballI)
    fix c assume "c \<in> set (str_of_int i)"
    then have "c = CHR ''-'' \<or> is_digit c" using str_of_nat_digits by (auto simp: str_of_int_def split: if_split_asm)
    then show "\<not> is_space c \<and> of_char c < (128::nat)" by (auto simp: is_space_def is_digit_def Let_def)
  qed
  note u = int_of_str_def s
  show ?thesis
  proof (cases "i < 0")
    case True
    then have "str_of_int i = CHR ''-'' # str_of_nat (nat (- i))" by (simp add: str_of_int_def)
    then have "int_of_str (str_of_int i) = map_option (\<lambda>n. - int n) (read_digits False 0 (str_of_nat (nat (- i))))"
      unfolding u by (simp del: read_digits_str)
    with True show ?thesis by simp
  next
    case False
    obtain c r where cr: "str_of_nat (nat i) = c # r"
      by (metis str_of_nat_ne list.exhaust)
    then have "is_digit c" using hd_str_of_nat(1) [of "nat i"] by simp
    then have c: "c \<noteq> CHR ''-''" "c \<noteq> CHR ''+''" by (auto simp: is_digit_def)
    have "str_of_int i = c # r" using False by (simp add: str_of_int_def cr)
    with c have "int_of_str (str_of_int i) = map_option int (read_digits False 0 (str_of_nat (nat i)))"
      unfolding u cr by (simp del: read_digits.simps)
    with False show ?thesis by simp
  qed
qed

lemma str_of_int_inj: "str_of_int i = str_of_int j \<Longrightarrow> i = j"
  by (metis int_of_str_str option.inject)

end
