(* ===== verification/PyValue.thy ===== *)
theory PyValue
  imports Complex_Main PyStr
begin

text \<open>
  JSON values as Python sees them after \<open>json.loads\<close>, and the dynamically typed operations the sources
  apply to them: \<open>x.get(k, d)\<close>, \<open>x[k]\<close>, \<open>k in x\<close>, \<open>int(x)\<close>, \<open>float(x)\<close>, \<open>x or d\<close>, \<open>==\<close>,
  \<open>isinstance\<close>.  Records, manifests and messages travel as such values, so an operation on a value of
  the wrong type raises here exactly where it raises in the source.

  The record \<open>env\<close> holds what is not code of this repository: the Ed25519 primitives of the
  \<open>cryptography\<close> package, and the C-coded primitives of the interpreter whose values no claim depends
  on (SHA-256, the shortest decimal form of a float and its inverse, \<open>str\<close> of a container).  A public
  or private key object is represented by its raw bytes.
\<close>

datatype pyfloat = Fin real | PosInf | NegInf | NaN

datatype json =
    JNull | JBool bool | JInt int | JFloat pyfloat | JStr string
  | JList "json list" | JDict "(string \<times> json) list"

type_synonym jdict = "(string, json) dict"

record env =
  sha256 :: "string \<Rightarrow> string"          \<comment> \<open>hashlib.sha256(b).digest()\<close>
  pub_of :: "string \<Rightarrow> string"           \<comment> \<open>private_key.public_key()\<close>
  ed_sign :: "string \<Rightarrow> string \<Rightarrow> string"   \<comment> \<open>private_key.sign(message)\<close>
  ed_verify :: "string \<Rightarrow> string \<Rightarrow> string \<Rightarrow> bool"  \<comment> \<open>public_key.verify(signature, message) does not raise\<close>
  pk_accepts :: "string \<Rightarrow> bool"         \<comment> \<open>from_public_bytes(raw) does not raise\<close>
  float_repr :: "pyfloat \<Rightarrow> string"
  float_parse :: "string \<Rightarrow> pyfloat option"
  str_of_other :: "json \<Rightarrow> string"      \<comment> \<open>str(x) for a float, a list or a dict\<close>

section \<open>Types and truth\<close>

fun is_str :: "json \<Rightarrow> bool" where
  "is_str (JStr s) = True" | "is_str v = False"

fun is_list :: "json \<Rightarrow> bool" where
  "is_list (JList xs) = True" | "is_list v = False"

fun is_dict :: "json \<Rightarrow> bool" where
  "is_dict (JDict d) = True" | "is_dict v = False"

text \<open>\<open>isinstance(x, int)\<close>: a \<open>bool\<close> is an \<open>int\<close>.\<close>

fun is_int :: "json \<Rightarrow> bool" where
  "is_int (JInt n) = True" | "is_int (JBool b) = True" | "is_int v = False"

fun truthy :: "json \<Rightarrow> bool" where
  "truthy JNull = False"
| "truthy (JBool b) = b"
| "truthy (JInt n) = (n \<noteq> 0)"
| "truthy (JFloat (Fin x)) = (x \<noteq> 0)"
| "truthy (JFloat f) = True"
| "truthy (JStr s) = (s \<noteq> [])"
| "truthy (JList xs) = (xs \<noteq> [])"
| "truthy (JDict d) = (d \<noteq> [])"

definition json_or :: "json \<Rightarrow> json \<Rightarrow> json" where
  "json_or v d = (if truthy v then v else d)"

section \<open>Access\<close>

definition get_or :: "jdict \<Rightarrow> string \<Rightarrow> json \<Rightarrow> json" where
  "get_or d k v = (case map_of d k of None \<Rightarrow> v | Some w \<Rightarrow> w)"

fun py_get :: "json \<Rightarrow> string \<Rightarrow> json \<Rightarrow> json res" where
  "py_get (JDict d) k v = Inr (get_or d k v)"
| "py_get x k v = Inl AttributeError"

fun py_item :: "json \<Rightarrow> string \<Rightarrow> json res" where
  "py_item (JDict d) k = (case map_of d k of None \<Rightarrow> Inl (KeyError k) | Some w \<Rightarrow> Inr w)"
| "py_item x k = Inl TypeError"

fun py_in :: "string \<Rightarrow> json \<Rightarrow> bool res" where
  "py_in k (JDict d) = Inr (map_of d k \<noteq> None)"
| "py_in k (JList xs) = Inr (JStr k \<in> set xs)"
| "py_in k (JStr s) = Inr (contains_sub k s)"
| "py_in k x = Inl TypeError"

section \<open>Numbers and equality\<close>

definition trunc :: "real \<Rightarrow> int" where
  "trunc x = (if 0 \<le> x then \<lfloor>x\<rfloor> else \<lceil>x\<rceil>)"

fun py_int :: "json \<Rightarrow> int res" where
  "py_int (JInt n) = Inr n"
| "py_int (JBool b) = Inr (if b then 1 else 0)"
| "py_int (JFloat (Fin x)) = Inr (trunc x)"
| "py_int (JFloat NaN) = Inl (ValueError ''cannot convert float NaN to integer'')"
| "py_int (JFloat f) = Inl OverflowError"
| "py_int (JStr s) = (case int_of_str s of None \<Rightarrow> Inl (ValueError ''invalid literal for int()'') | Some n \<Rightarrow> Inr n)"
| "py_int v = Inl TypeError"

fun py_float :: "env \<Rightarrow> json \<Rightarrow> pyfloat res" where
  "py_float E (JInt n) = Inr (Fin (of_int n))"
| "py_float E (JBool b) = Inr (Fin (if b then 1 else 0))"
| "py_float E (JFloat f) = Inr f"
| "py_float E (JStr s) = (case float_parse E s of None \<Rightarrow> Inl (ValueError ''could not convert string to float'') | Some f \<Rightarrow> Inr f)"
| "py_float E v = Inl TypeError"

fun num :: "json \<Rightarrow> pyfloat option" where
  "num (JInt n) = Some (Fin (of_int n))"
| "num (JBool b) = Some (Fin (if b then 1 else 0))"
| "num (JFloat f) = Some f"
| "num v = None"

fun py_eq :: "json \<Rightarrow> json \<Rightarrow> bool"
  and py_eq_list :: "json list \<Rightarrow> json list \<Rightarrow> bool"
  and py_eq_items :: "(string \<times> json) list \<Rightarrow> (string \<times> json) list \<Rightarrow> bool" where
  "py_eq JNull b = (b = JNull)"
| "py_eq (JStr s) b = (b = JStr s)"
| "py_eq (JList xs) b = (case b of JList ys \<Rightarrow> py_eq_list xs ys | _ \<Rightarrow> False)"
| "py_eq (JDict d) b = (case b of JDict e \<Rightarrow> length d = length e \<and> py_eq_items d e | _ \<Rightarrow> False)"
| "py_eq (JBool x) b = (num (JBool x) = num b)"
| "py_eq (JInt n) b = (num (JInt n) = num b)"
| "py_eq (JFloat f) b = (num (JFloat f) = num b \<and> f \<noteq> NaN)"
| "py_eq_list [] ys = (ys = [])"
| "py_eq_list (x # xs) ys = (case ys of [] \<Rightarrow> False | y # ys' \<Rightarrow> py_eq x y \<and> py_eq_list xs ys')"
| "py_eq_items [] e = True"
| "py_eq_items ((k, v) # d) e =
     ((case map_of e k of None \<Rightarrow> False | Some w \<Rightarrow> py_eq v w) \<and> py_eq_items d e)"

text \<open>\<open>a < b\<close> and \<open>a > b\<close> between an integer and a value: a \<open>TypeError\<close> unless both are numbers.\<close>

fun int_greater :: "int \<Rightarrow> json \<Rightarrow> bool res" where
  "int_greater n (JInt m) = Inr (n > m)"
| "int_greater n (JBool b) = Inr (n > (if b then 1 else 0))"
| "int_greater n (JFloat (Fin x)) = Inr (of_int n > x)"
| "int_greater n (JFloat NegInf) = Inr True"
| "int_greater n (JFloat f) = Inr False"
| "int_greater n v = Inl TypeError"

text \<open>\<open>str(x)\<close>, as an f-string applies it.\<close>

fun py_str :: "env \<Rightarrow> json \<Rightarrow> string" where
  "py_str E (JStr s) = s"
| "py_str E (JInt n) = str_of_int n"
| "py_str E (JBool b) = (if b then ''True'' else ''False'')"
| "py_str E JNull = ''None''"
| "py_str E v = str_of_other E v"

lemma py_get_Inr_iff: "py_get x k v = Inr w \<longleftrightarrow> (\<exists>d. x = JDict d \<and> w = get_or d k v)"
  by (cases x) auto

lemma py_item_Inr_iff: "py_item x k = Inr w \<longleftrightarrow> (\<exists>d. x = JDict d \<and> map_of d k = Some w)"
  by (cases x) (auto split: option.splits)

lemma get_or_Some [simp]: "map_of d k = Some w \<Longrightarrow> get_or d k v = w"
  by (simp add: get_or_def)

lemma get_or_None [simp]: "map_of d k = None \<Longrightarrow> get_or d k v = v"
  by (simp add: get_or_def)

lemma py_eq_refl_str [simp]: "py_eq v (JStr s) \<longleftrightarrow> v = JStr s"
  by (cases v) auto

text \<open>A value built from Python objects: well-formed strings, distinct keys.\<close>

fun jwf :: "json \<Rightarrow> bool" and jwf_list :: "json list \<Rightarrow> bool"
  and jwf_items :: "(string \<times> json) list \<Rightarrow> bool" where
  "jwf JNull = True"
| "jwf (JBool b) = True"
| "jwf (JInt n) = True"
| "jwf (JFloat f) = True"
| "jwf (JStr s) = utf8 s"
| "jwf (JList xs) = jwf_list xs"
| "jwf (JDict d) = (distinct (map fst d) \<and> jwf_items d)"
| "jwf_list [] = True"
| "jwf_list (x # xs) = (jwf x \<and> jwf_list xs)"
| "jwf_items [] = True"
| "jwf_items ((k, v) # d) = (utf8 k \<and> jwf v \<and> jwf_items d)"

fun no_float :: "json \<Rightarrow> bool" and no_float_list :: "json list \<Rightarrow> bool"
  and no_float_items :: "(string \<times> json) list \<Rightarrow> bool" where
  "no_float (JFloat f) = False"
| "no_float (JList xs) = no_float_list xs"
| "no_float (JDict d) = no_float_items d"
| "no_float JNull = True"
| "no_float (JBool b) = True"
| "no_float (JInt n) = True"
| "no_float (JStr s) = True"
| "no_float_list [] = True"
| "no_float_list (x # xs) = (no_float x \<and> no_float_list xs)"
| "no_float_items [] = True"
| "no_float_items ((k, v) # d) = (no_float v \<and> no_float_items d)"

lemma jwf_items_iff: "jwf_items d \<longleftrightarrow> (\<forall>(k, v) \<in> set d. utf8 k \<and> jwf v)"
  by (induction d) auto

lemma jwf_list_iff: "jwf_list xs \<longleftrightarrow> (\<forall>x \<in> set xs. jwf x)"
  by (induction xs) auto

lemma no_float_items_iff: "no_float_items d \<longleftrightarrow> (\<forall>(k, v) \<in> set d. no_float v)"
  by (induction d) auto

lemma no_float_list_iff: "no_float_list xs \<longleftrightarrow> (\<forall>x \<in> set xs. no_float x)"
  by (induction xs) auto

section \<open>Iteration and sizes\<close>

text \<open>\<open>for x in v\<close>, \<open>len(v)\<close>, \<open>v.items()\<close> and \<open>v > n\<close>.\<close>

fun py_iter :: "json \<Rightarrow> json list res" where
  "py_iter (JList xs) = Inr xs"
| "py_iter (JDict d) = Inr (map (\<lambda>x. JStr (fst x)) d)"
| "py_iter (JStr s) =
     Inr (case u8_decode s of Some cs \<Rightarrow> map (\<lambda>c. JStr (u8_encode [c])) cs | None \<Rightarrow> map (\<lambda>c. JStr [c]) s)"
| "py_iter v = Inl TypeError"

fun py_size :: "json \<Rightarrow> nat res" where
  "py_size (JList xs) = Inr (length xs)"
| "py_size (JDict d) = Inr (length d)"
| "py_size (JStr s) = Inr (py_len s)"
| "py_size v = Inl TypeError"

fun py_items :: "json \<Rightarrow> (string \<times> json) list res" where
  "py_items (JDict d) = Inr d"
| "py_items v = Inl AttributeError"

fun num_gt :: "json \<Rightarrow> int \<Rightarrow> bool res" where
  "num_gt (JInt m) n = Inr (m > n)"
| "num_gt (JBool b) n = Inr ((if b then 1 else 0) > n)"
| "num_gt (JFloat (Fin x)) n = Inr (x > of_int n)"
| "num_gt (JFloat PosInf) n = Inr True"
| "num_gt (JFloat f) n = Inr False"
| "num_gt v n = Inl TypeError"

text \<open>A list or a dictionary is not a key of a \<open>dict\<close> or an element of a \<open>set\<close>.\<close>

fun hashable :: "json \<Rightarrow> unit res" where
  "hashable (JList xs) = Inl TypeError"
| "hashable (JDict d) = Inl TypeError"
| "hashable v = Inr ()"

lemma py_items_Inr_iff: "py_items v = Inr d \<longleftrightarrow> v = JDict d"
  by (cases v) auto

end
