(* ===== verification/JsonText.thy ===== *)
theory JsonText
  imports PyValue "HOL-Library.Multiset"
begin

text \<open>
  JSON text: \<open>json.dumps\<close> in the two styles the sources use (compact, and \<open>indent=2\<close>; always with the
  default \<open>ensure_ascii\<close>) and \<open>json.loads\<close>.  \<open>canonical_json\<close> is \<open>_canonical_json\<close> of
  bundle/_canonical.py: compact, keys sorted at every level.

  The main result is that reading back what was written gives the value again (\<open>loads_dumps\<close>), in
  either style and for every value built from well-formed strings, integers, booleans, \<open>null\<close>, lists
  and dictionaries; hence the canonical text determines the value up to the order of keys
  (\<open>canonical_json_eq\<close>).  Floats print through a parameter of the model and are left out of that
  statement.  The parser is fuelled; \<open>loads\<close> gives it twice the length of the text, which is always
  enough (\<open>parse_fuel_enough\<close>).
\<close>

section \<open>Printing\<close>

definition hex_char :: "nat \<Rightarrow> char" where
  "hex_char d = (if d < 10 then char_of (48 + d) else char_of (87 + d))"

definition hex4 :: "nat \<Rightarrow> string" where
  "hex4 v = [hex_char (v div 4096 mod 16), hex_char (v div 256 mod 16), hex_char (v div 16 mod 16), hex_char (v mod 16)]"

definition esc :: "nat \<Rightarrow> string" where
  "esc c =
     (if c = 34 then [CHR 0x5C, CHR 0x22]
      else if c = 92 then [CHR 0x5C, CHR 0x5C]
      else if c = 10 then CHR 0x5C # ''n''
      else if c = 13 then CHR 0x5C # ''r''
      else if c = 9 then CHR 0x5C # ''t''
      else if c = 12 then CHR 0x5C # ''f''
      else if c = 8 then CHR 0x5C # ''b''
      else if 32 \<le> c \<and> c < 127 then [char_of c]
      else if c < 0x10000 then CHR 0x5C # CHR ''u'' # hex4 c
      else CHR 0x5C # CHR ''u'' # hex4 (0xD800 + (c - 0x10000) div 1024) @
           CHR 0x5C # CHR ''u'' # hex4 (0xDC00 + (c - 0x10000) mod 1024))"

definition quote :: "string \<Rightarrow> string" where
  "quote s = CHR 0x22 # concat (map esc (case u8_decode s of Some cs \<Rightarrow> cs | None \<Rightarrow> map of_char s)) @ [CHR 0x22]"

text \<open>The style is \<open>None\<close> for \<open>separators=(",", ":")\<close> and \<open>Some k\<close> for \<open>indent=k\<close>.\<close>

definition newline :: "nat option \<Rightarrow> nat \<Rightarrow> string" where
  "newline st l = (case st of None \<Rightarrow> [] | Some k \<Rightarrow> CHR 0x0A # replicate (k * l) (CHR 0x20))"

definition colon :: "nat option \<Rightarrow> string" where
  "colon st = (case st of None \<Rightarrow> '':'' | Some k \<Rightarrow> '': '')"

fun dumps :: "env \<Rightarrow> nat option \<Rightarrow> nat \<Rightarrow> json \<Rightarrow> string"
  and dumps_list :: "env \<Rightarrow> nat option \<Rightarrow> nat \<Rightarrow> json list \<Rightarrow> string"
  and dumps_items :: "env \<Rightarrow> nat option \<Rightarrow> nat \<Rightarrow> (string \<times> json) list \<Rightarrow> string" where
  "dumps E st l JNull = ''null''"
| "dumps E st l (JBool b) = (if b then ''true'' else ''false'')"
| "dumps E st l (JInt n) = str_of_int n"
| "dumps E st l (JFloat f) = float_repr E f"
| "dumps E st l (JStr s) = quote s"
| "dumps E st l (JList xs) =
     (if xs = [] then ''[]''
      else ''['' @ newline st (Suc l) @ dumps_list E st (Suc l) xs @ newline st l @ '']'')"
| "dumps E st l (JDict d) =
     (if d = [] then ''{}''
      else ''{'' @ newline st (Suc l) @ dumps_items E st (Suc l) d @ newline st l @ ''}'')"
| "dumps_list E st l [] = []"
| "dumps_list E st l (x # xs) =
     dumps E st l x @ (if xs = [] then [] else '','' @ newline st l @ dumps_list E st l xs)"
| "dumps_items E st l [] = []"
| "dumps_items E st l ((k, v) # d) =
     quote k @ colon st @ dumps E st l v @
     (if d = [] then [] else '','' @ newline st l @ dumps_items E st l d)"

text \<open>\<open>sort_keys=True\<close>.\<close>

fun sort_keys :: "json \<Rightarrow> json" and sort_keys_list :: "json list \<Rightarrow> json list"
  and sort_keys_items :: "(string \<times> json) list \<Rightarrow> (string \<times> json) list" where
  "sort_keys (JList xs) = JList (sort_keys_list xs)"
| "sort_keys (JDict d) = JDict (sort_key fst (sort_keys_items d))"
| "sort_keys JNull = JNull"
| "sort_keys (JBool b) = JBool b"
| "sort_keys (JInt n) = JInt n"
| "sort_keys (JFloat f) = JFloat f"
| "sort_keys (JStr s) = JStr s"
| "sort_keys_list [] = []"
| "sort_keys_list (x # xs) = sort_keys x # sort_keys_list xs"
| "sort_keys_items [] = []"
| "sort_keys_items ((k, v) # d) = (k, sort_keys v) # sort_keys_items d"

definition canonical_json :: "env \<Rightarrow> json \<Rightarrow> string" where
  "canonical_json E obj = dumps E None 0 (sort_keys obj)"

definition dumps_indent :: "env \<Rightarrow> json \<Rightarrow> string" where
  "dumps_indent E obj = dumps E (Some 2) 0 obj"

definition dumps_indent_sorted :: "env \<Rightarrow> json \<Rightarrow> string" where
  "dumps_indent_sorted E obj = dumps E (Some 2) 0 (sort_keys obj)"

section \<open>Parsing\<close>

definition is_ws :: "char \<Rightarrow> bool" where
  "is_ws c \<longleftrightarrow> c = CHR 0x20 \<or> c = CHR 0x09 \<or> c = CHR 0x0A \<or> c = CHR 0x0D"

definition skip :: "string \<Rightarrow> string" where
  "skip s = dropWhile is_ws s"

definition hex_val :: "char \<Rightarrow> nat option" where
  "hex_val c = (let n = of_char c :: nat in
     if 48 \<le> n \<and> n \<le> 57 then Some (n - 48)
     else if 97 \<le> n \<and> n \<le> 102 then Some (n - 87)
     else if 65 \<le> n \<and> n \<le> 70 then Some (n - 55) else None)"

definition hex4_val :: "char \<Rightarrow> char \<Rightarrow> char \<Rightarrow> char \<Rightarrow> nat option" where
  "hex4_val a b c d =
     (case (hex_val a, hex_val b, hex_val c, hex_val d) of
        (Some w, Some x, Some y, Some z) \<Rightarrow> Some (4096 * w + 256 * x + 16 * y + z)
      | _ \<Rightarrow> None)"

definition unesc :: "char \<Rightarrow> char option" where
  "unesc e =
     (if e = CHR 0x22 then Some (CHR 0x22) else if e = CHR 0x5C then Some (CHR 0x5C)
      else if e = CHR ''/'' then Some (CHR ''/'') else if e = CHR ''n'' then Some (CHR 0x0A)
      else if e = CHR ''r'' then Some (CHR 0x0D) else if e = CHR ''t'' then Some (CHR 0x09)
      else if e = CHR ''f'' then Some (CHR 0x0C) else if e = CHR ''b'' then Some (CHR 0x08) else None)"

definition expect :: "char \<Rightarrow> string \<Rightarrow> string option" where
  "expect c s = (case s of [] \<Rightarrow> None | x # r \<Rightarrow> if x = c then Some r else None)"

lemma expect_Cons [simp]: "expect c (x # r) = (if x = c then Some r else None)"
  by (simp add: expect_def)

lemma expect_Nil [simp]: "expect c [] = None"
  by (simp add: expect_def)

definition high_surrogate :: "nat \<Rightarrow> bool" where
  "high_surrogate v \<longleftrightarrow> 0xD800 \<le> v \<and> v < 0xDC00"

definition low_surrogate :: "nat \<Rightarrow> bool" where
  "low_surrogate v \<longleftrightarrow> 0xDC00 \<le> v \<and> v < 0xE000"

definition prepend :: "string \<Rightarrow> (string \<times> string) option \<Rightarrow> (string \<times> string) option" where
  "prepend t r = map_option (\<lambda>(u, rest). (t @ u, rest)) r"

text \<open>
  One escape, after its backslash: the bytes it stands for and what follows it.  A \<open>\u\<close> escape of a
  high surrogate must be followed by the escape of a low one; a lone surrogate has no place in the
  model's strings and is rejected.
\<close>

definition unicode_escape :: "string \<Rightarrow> (nat \<times> string) option" where
  "unicode_escape s =
     (case s of
        h1 # h2 # h3 # h4 # r \<Rightarrow> map_option (\<lambda>v. (v, r)) (hex4_val h1 h2 h3 h4)
      | _ \<Rightarrow> None)"

definition esc_step :: "string \<Rightarrow> (string \<times> string) option" where
  "esc_step s =
     (case s of
        [] \<Rightarrow> None
      | e # s1 \<Rightarrow>
          if e = CHR ''u'' then
            (case unicode_escape s1 of
               None \<Rightarrow> None
             | Some (v, s2) \<Rightarrow>
                 if high_surrogate v then
                   (case Option.bind (expect (CHR 0x5C) s2) (\<lambda>s3. Option.bind (expect (CHR ''u'') s3) unicode_escape) of
                      None \<Rightarrow> None
                    | Some (w, s4) \<Rightarrow>
                        if low_surrogate w
                        then Some (u8_encode [0x10000 + (v - 0xD800) * 1024 + (w - 0xDC00)], s4)
                        else None)
                 else if low_surrogate v then None
                 else Some (u8_encode [v], s2))
          else map_option (\<lambda>ch. ([ch], s1)) (unesc e))"

lemma expect_length: "expect c s = Some r \<Longrightarrow> length s = Suc (length r)"
  by (auto simp: expect_def split: list.splits if_splits)

lemma unicode_escape_length: "unicode_escape s = Some (v, r) \<Longrightarrow> length r < length s"
  by (auto simp: unicode_escape_def split: list.split_asm)

lemma esc_step_length: "esc_step s = Some (b, r) \<Longrightarrow> length r < length s"
  by (auto simp: esc_step_def bind_eq_Some_conv split: list.split_asm if_split_asm option.split_asm
      dest!: unicode_escape_length expect_length)

text \<open>The characters of a string, after its opening quote.\<close>

function parse_str :: "string \<Rightarrow> (string \<times> string) option" where
  "parse_str [] = None"
| "parse_str (c # s) =
     (if c = CHR 0x22 then Some ([], s)
      else if c = CHR 0x5C then
        (case esc_step s of None \<Rightarrow> None | Some (b, r) \<Rightarrow> prepend b (parse_str r))
      else if of_char c < (32::nat) then None
      else prepend [c] (parse_str s))"
  by pat_completeness auto
termination
  by (relation "measure length") (auto dest: esc_step_length)

declare parse_str.simps(2) [simp del]

text \<open>
  A number: an optional sign, an integer part without leading zeros, an optional fraction and an
  optional exponent.  With neither it is an \<open>int\<close>, else \<open>float(text)\<close>.
\<close>

definition int_part :: "string \<Rightarrow> string" where
  "int_part s = (case s of [] \<Rightarrow> [] | c # r \<Rightarrow> if c = CHR ''0'' then ''0'' else takeWhile is_digit s)"

definition frac_part :: "string \<Rightarrow> string" where
  "frac_part s = (case expect (CHR ''.'') s of None \<Rightarrow> [] | Some r \<Rightarrow>
     if takeWhile is_digit r = [] then [] else CHR ''.'' # takeWhile is_digit r)"

definition exp_part :: "string \<Rightarrow> string" where
  "exp_part s =
     (case s of
        [] \<Rightarrow> []
      | e # r \<Rightarrow>
          if e = CHR ''e'' \<or> e = CHR ''E'' then
            (let sg = (case r of x # y \<Rightarrow> if x = CHR ''+'' \<or> x = CHR ''-'' then [x] else [] | [] \<Rightarrow> []);
                 ds = takeWhile is_digit (drop (length sg) r)
             in if ds = [] then [] else e # sg @ ds)
          else [])"

definition parse_num :: "env \<Rightarrow> string \<Rightarrow> (json \<times> string) option" where
  "parse_num E s =
     (let sg = (if prefix ''-'' s then ''-'' else []);
          s1 = drop (length sg) s;
          ip = int_part s1; s2 = drop (length ip) s1;
          fp = frac_part s2; s3 = drop (length fp) s2;
          ep = exp_part s3; s4 = drop (length ep) s3
      in if ip = [] then None
         else if fp = [] \<and> ep = []
         then Some (JInt (if sg = [] then int (digits_val ip) else - int (digits_val ip)), s2)
         else map_option (\<lambda>f. (JFloat f, s4)) (float_parse E (sg @ ip @ fp @ ep)))"

definition parse_atom :: "env \<Rightarrow> string \<Rightarrow> (json \<times> string) option" where
  "parse_atom E s =
     (if prefix ''null'' s then Some (JNull, drop 4 s)
      else if prefix ''true'' s then Some (JBool True, drop 4 s)
      else if prefix ''false'' s then Some (JBool False, drop 5 s)
      else if prefix ''NaN'' s then Some (JFloat NaN, drop 3 s)
      else if prefix ''Infinity'' s then Some (JFloat PosInf, drop 8 s)
      else if prefix ''-Infinity'' s then Some (JFloat NegInf, drop 9 s)
      else parse_num E s)"

fun parse_val :: "env \<Rightarrow> nat \<Rightarrow> string \<Rightarrow> (json \<times> string) option"
  and parse_elems :: "env \<Rightarrow> nat \<Rightarrow> string \<Rightarrow> (json list \<times> string) option"
  and parse_members :: "env \<Rightarrow> nat \<Rightarrow> jdict \<Rightarrow> string \<Rightarrow> (jdict \<times> string) option" where
  "parse_val E 0 s = None"
| "parse_val E (Suc n) s =
     (case expect (CHR 0x22) s of
        Some r \<Rightarrow> map_option (\<lambda>(t, r'). (JStr t, r')) (parse_str r)
      | None \<Rightarrow>
     (case expect (CHR ''{'') s of
        Some r \<Rightarrow>
          (case expect (CHR ''}'') (skip r) of
             Some r' \<Rightarrow> Some (JDict [], r')
           | None \<Rightarrow> map_option (\<lambda>(d, r'). (JDict d, r')) (parse_members E n [] (skip r)))
      | None \<Rightarrow>
     (case expect (CHR ''['') s of
        Some r \<Rightarrow>
          (case expect (CHR '']'') (skip r) of
             Some r' \<Rightarrow> Some (JList [], r')
           | None \<Rightarrow> map_option (\<lambda>(xs, r'). (JList xs, r')) (parse_elems E n (skip r)))
      | None \<Rightarrow> parse_atom E s)))"
| "parse_elems E 0 s = None"
| "parse_elems E (Suc n) s =
     (case parse_val E n s of
        None \<Rightarrow> None
      | Some (v, r) \<Rightarrow>
          (case expect (CHR '','') (skip r) of
             Some r' \<Rightarrow> map_option (\<lambda>(vs, t). (v # vs, t)) (parse_elems E n (skip r'))
           | None \<Rightarrow>
               (case expect (CHR '']'') (skip r) of Some r' \<Rightarrow> Some ([v], r') | None \<Rightarrow> None)))"
| "parse_members E 0 d s = None"
| "parse_members E (Suc n) d s =
     (case expect (CHR 0x22) s of
        None \<Rightarrow> None
      | Some r \<Rightarrow>
     (case parse_str r of
        None \<Rightarrow> None
      | Some (k, r1) \<Rightarrow>
     (case expect (CHR '':'') (skip r1) of
        None \<Rightarrow> None
      | Some r2 \<Rightarrow>
     (case parse_val E n (skip r2) of
        None \<Rightarrow> None
      | Some (v, r3) \<Rightarrow>
          (case expect (CHR '','') (skip r3) of
             Some r4 \<Rightarrow> parse_members E n (AList.update k v d) (skip r4)
           | None \<Rightarrow>
               (case expect (CHR ''}'') (skip r3) of
                  Some r4 \<Rightarrow> Some (AList.update k v d, r4)
                | None \<Rightarrow> None))))))"

definition loads :: "env \<Rightarrow> string \<Rightarrow> json res" where
  "loads E s =
     (case parse_val E (2 * length s + 2) (skip s) of
        Some (v, r) \<Rightarrow> if skip r = [] then Inr v else Inl JSONDecodeError
      | None \<Rightarrow> Inl JSONDecodeError)"

section \<open>Reading back a string\<close>

lemma hex_val_char: "d < 16 \<Longrightarrow> hex_val (hex_char d) = Some d"
  by (auto simp: hex_val_def hex_char_def Let_def)

lemma hex4_digits:
  assumes "v < 65536"
  shows "\<exists>a b c d. hex4 v = [a, b, c, d] \<and> hex4_val a b c d = Some v"
proof -
  have d: "v div 256 = v div 16 div 16" "v div 4096 = v div 16 div 16 div 16"
    by (simp_all add: div_mult2_eq [symmetric])
  have a: "x = 16 * (x div 16) + x mod 16" for x :: nat by simp
  have "v div 16 div 16 div 16 < 16" using assms by (simp add: div_mult2_eq [symmetric])
  then have "4096 * (v div 4096 mod 16) + 256 * (v div 256 mod 16) + 16 * (v div 16 mod 16) + v mod 16 = v"
    unfolding d using a [of v] a [of "v div 16"] a [of "v div 16 div 16"] by (simp; linarith)
  moreover have "hex_val (hex_char (x mod 16)) = Some (x mod 16)" for x
    by (simp add: hex_val_char)
  ultimately have "hex4_val (hex_char (v div 4096 mod 16)) (hex_char (v div 256 mod 16))
      (hex_char (v div 16 mod 16)) (hex_char (v mod 16)) = Some v"
    by (simp only: hex4_val_def prod.case option.case)
  then show ?thesis unfolding hex4_def by blast
qed

lemma prepend_Some [simp]: "prepend t (Some (u, r)) = Some (t @ u, r)"
  by (simp add: prepend_def)

lemma u8_encode_Cons: "u8_encode (c # cs) = u8_encode [c] @ u8_encode cs"
  by (simp add: u8_encode_def)

lemma u8_encode_Nil [simp]: "u8_encode [] = []"
  by (simp add: u8_encode_def)

lemma u8_encode_ascii: "c < 128 \<Longrightarrow> u8_encode [c] = [char_of c]"
  by (simp add: u8_encode_def u8_enc_def)

lemma parse_str_u:
  assumes "v < 65536" and "\<not> high_surrogate v" and "\<not> low_surrogate v"
  shows "parse_str (CHR 0x5C # CHR ''u'' # hex4 v @ t) = prepend (u8_encode [v]) (parse_str t)"
  using hex4_digits [OF assms(1)] assms(2,3)
  by (auto simp: parse_str.simps(2) esc_step_def unicode_escape_def)

lemma parse_str_uu:
  assumes "v < 65536" and "w < 65536" and "high_surrogate v" and "low_surrogate w"
  shows "parse_str (CHR 0x5C # CHR ''u'' # hex4 v @ CHR 0x5C # CHR ''u'' # hex4 w @ t) =
    prepend (u8_encode [0x10000 + (v - 0xD800) * 1024 + (w - 0xDC00)]) (parse_str t)"
  using hex4_digits [OF assms(1)] hex4_digits [OF assms(2)] assms(3,4)
  by (auto simp: parse_str.simps(2) esc_step_def unicode_escape_def)

lemma char_of_iff: "(n::nat) < 256 \<Longrightarrow> char_of n = c \<longleftrightarrow> n = of_char c"
  by auto

lemma char_of_iff': "(n::nat) < 256 \<Longrightarrow> c = char_of n \<longleftrightarrow> n = of_char c"
  by auto

lemma parse_str_plain:
  assumes "32 \<le> (of_char c :: nat)" and "c \<noteq> CHR 0x22" and "c \<noteq> CHR 0x5C"
  shows "parse_str (c # t) = prepend [c] (parse_str t)"
  using assms by (simp add: parse_str.simps(2))

lemma parse_str_unesc:
  assumes "unesc e = Some c" and "e \<noteq> CHR ''u''"
  shows "parse_str (CHR 0x5C # e # t) = prepend [c] (parse_str t)"
  using assms by (simp add: parse_str.simps(2) esc_step_def)

lemma esc_unesc:
  assumes "c \<in> {34, 92, 10, 13, 9, 12, 8}"
  shows "\<exists>e. esc c = [CHR 0x5C, e] \<and> unesc e = Some (char_of c) \<and> e \<noteq> CHR ''u''"
  using assms by (auto simp: esc_def unesc_def char_of_iff')

lemma parse_str_esc:
  assumes "scalar c"
  shows "parse_str (esc c @ t) = prepend (u8_encode [c]) (parse_str t)"
proof -
  consider (e) "c \<in> {34, 92, 10, 13, 9, 12, 8}"
    | (p) "c \<notin> {34, 92, 10, 13, 9, 12, 8}" "32 \<le> c" "c < 127"
    | (u) "c \<notin> {34, 92, 10, 13, 9, 12, 8}" "\<not> (32 \<le> c \<and> c < 127)" "c < 0x10000"
    | (uu) "0x10000 \<le> c"
    by linarith
  then show ?thesis
  proof cases
    case e
    then have "c < 128" by auto
    with esc_unesc [OF e] show ?thesis by (auto simp: parse_str_unesc u8_encode_ascii)
  next
    case p
    then have "esc c = [char_of c]" by (simp add: esc_def)
    with p show ?thesis by (simp add: parse_str_plain u8_encode_ascii char_of_iff)
  next
    case u
    then have "esc c = CHR 0x5C # CHR ''u'' # hex4 c" by (auto simp: esc_def)
    moreover have "\<not> high_surrogate c" "\<not> low_surrogate c"
      using assms by (auto simp: high_surrogate_def low_surrogate_def scalar_def)
    ultimately show ?thesis using parse_str_u [OF u(3)] by simp
  next
    case uu
    let ?v = "0xD800 + (c - 0x10000) div 1024" and ?w = "0xDC00 + (c - 0x10000) mod 1024"
    have c: "c < 0x110000" using assms by (auto simp: scalar_def)
    have "(c - 0x10000) div 1024 < 1024" using c by auto
    then have "?v < 65536" "?w < 65536" "high_surrogate ?v" "low_surrogate ?w"
      by (simp_all add: high_surrogate_def low_surrogate_def)
    moreover have "esc c = CHR 0x5C # CHR ''u'' # hex4 ?v @ CHR 0x5C # CHR ''u'' # hex4 ?w"
      using uu by (simp add: esc_def)
    moreover have "0x10000 + (?v - 0xD800) * 1024 + (?w - 0xDC00) = c" using uu by simp
    ultimately show ?thesis using parse_str_uu [of ?v ?w t] by simp
  qed
qed

lemma parse_str_quote:
  "\<forall>c \<in> set cs. scalar c \<Longrightarrow>
    parse_str (concat (map esc cs) @ CHR 0x22 # rest) = Some (u8_encode cs, rest)"
proof (induction cs)
  case Nil
  show ?case by (simp add: parse_str.simps(2))
next
  case (Cons c cs)
  then show ?case by (simp add: parse_str_esc u8_encode_Cons [of c cs])
qed

lemma quote_read:
  assumes "utf8 s"
  shows "\<exists>q. quote s = CHR 0x22 # q \<and> (\<forall>rest. parse_str (q @ rest) = Some (s, rest))"
proof -
  obtain cs where cs: "u8_decode s = Some cs" using assms by (auto simp: utf8_def)
  show ?thesis
    using u8_decode_Some [OF cs] parse_str_quote [of cs] by (auto simp: quote_def cs)
qed

section \<open>Reading back a value\<close>

text \<open>What may follow an integer without becoming part of it.\<close>

definition delim :: "string \<Rightarrow> bool" where
  "delim rest \<longleftrightarrow> (case rest of [] \<Rightarrow> True | c # r \<Rightarrow>
     \<not> is_digit c \<and> c \<noteq> CHR ''.'' \<and> c \<noteq> CHR ''e'' \<and> c \<noteq> CHR ''E'')"

lemma delim_no_frac: "delim rest \<Longrightarrow> frac_part rest = [] \<and> exp_part rest = []"
  by (auto simp: delim_def frac_part_def exp_part_def expect_def split: list.splits)

lemma int_part_str: "delim rest \<Longrightarrow> int_part (str_of_nat n @ rest) = str_of_nat n"
proof -
  assume d: "delim rest"
  obtain c r where cr: "str_of_nat n = c # r" by (metis str_of_nat_ne list.exhaust)
  have all: "\<forall>x \<in> set (str_of_nat n). is_digit x" using str_of_nat_digits by blast
  have "takeWhile is_digit rest = []"
    using d by (auto simp: delim_def split: list.splits)
  then have t: "takeWhile is_digit (str_of_nat n @ rest) = str_of_nat n"
    using all by simp
  show ?thesis
  proof (cases "c = CHR ''0''")
    case True
    then have "n = 0" using hd_str_of_nat(2) [of n] cr by simp
    then show ?thesis by (simp add: int_part_def str_of_nat_0)
  next
    case False
    with t cr show ?thesis by (simp add: int_part_def)
  qed
qed

lemma digit_not_letter:
  "is_digit c \<Longrightarrow> c \<noteq> CHR ''n'' \<and> c \<noteq> CHR ''t'' \<and> c \<noteq> CHR ''f'' \<and> c \<noteq> CHR ''N'' \<and> c \<noteq> CHR ''I''
    \<and> c \<noteq> CHR ''-'' \<and> c \<noteq> CHR 0x22 \<and> c \<noteq> CHR ''{'' \<and> c \<noteq> CHR ''['' \<and> \<not> is_ws c"
  by (auto simp: is_digit_def is_ws_def)

lemma str_of_int_shape:
  "\<exists>sg n. str_of_int i = sg @ str_of_nat n \<and> (sg = [] \<and> i = int n \<or> sg = ''-'' \<and> i = - int n)"
proof (cases "i < 0")
  case True
  then show ?thesis
    by (intro exI [of _ "''-''"] exI [of _ "nat (- i)"]) (simp add: str_of_int_def)
next
  case False
  then show ?thesis
    by (intro exI [of _ "[]"] exI [of _ "nat i"]) (simp add: str_of_int_def)
qed

lemma parse_num_nat:
  assumes "delim rest"
  shows "parse_num E (str_of_nat n @ rest) = Some (JInt (int n), rest)"
proof -
  obtain c r where cr: "str_of_nat n = c # r" by (metis str_of_nat_ne list.exhaust)
  have "is_digit c" using hd_str_of_nat(1) [of n] cr by simp
  then have p: "prefix ''-'' (str_of_nat n @ rest) = False"
    using digit_not_letter [of c] by (auto simp: cr)
  have f: "frac_part rest = []" "exp_part rest = []" using delim_no_frac [OF assms] by simp_all
  show ?thesis
    unfolding parse_num_def Let_def p by (simp add: int_part_str [OF assms] f)
qed

lemma parse_num_neg:
  assumes "delim rest"
  shows "parse_num E (CHR ''-'' # str_of_nat n @ rest) = Some (JInt (- int n), rest)"
proof -
  have p: "prefix ''-'' (CHR ''-'' # str_of_nat n @ rest) = True" by simp
  have f: "frac_part rest = []" "exp_part rest = []" using delim_no_frac [OF assms] by simp_all
  show ?thesis
    unfolding parse_num_def Let_def p by (simp add: int_part_str [OF assms] f)
qed

lemma parse_atom_int:
  assumes "delim rest"
  shows "parse_atom E (str_of_int i @ rest) = Some (JInt i, rest)"
proof -
  obtain sg n where s: "str_of_int i = sg @ str_of_nat n"
    and sg: "sg = [] \<and> i = int n \<or> sg = ''-'' \<and> i = - int n"
    using str_of_int_shape by blast
  obtain c r where cr: "str_of_nat n = c # r" by (metis str_of_nat_ne list.exhaust)
  have c: "is_digit c" using hd_str_of_nat(1) [of n] cr by simp
  have np: "\<not> prefix ''null'' (str_of_int i @ rest)" "\<not> prefix ''true'' (str_of_int i @ rest)"
    "\<not> prefix ''false'' (str_of_int i @ rest)" "\<not> prefix ''NaN'' (str_of_int i @ rest)"
    "\<not> prefix ''Infinity'' (str_of_int i @ rest)" "\<not> prefix ''-Infinity'' (str_of_int i @ rest)"
    using sg digit_not_letter [OF c] by (auto simp: s cr)
  have "parse_num E (str_of_int i @ rest) = Some (JInt i, rest)"
    using sg s parse_num_nat [OF assms] parse_num_neg [OF assms] by force
  then show ?thesis using np by (simp add: parse_atom_def)
qed

text \<open>The nesting a value needs: one unit per level and one per element passed on the way.\<close>

fun jfuel :: "json \<Rightarrow> nat" and jfuel_list :: "json list \<Rightarrow> nat"
  and jfuel_items :: "(string \<times> json) list \<Rightarrow> nat" where
  "jfuel (JList xs) = Suc (jfuel_list xs)"
| "jfuel (JDict d) = Suc (jfuel_items d)"
| "jfuel JNull = 1"
| "jfuel (JBool b) = 1"
| "jfuel (JInt n) = 1"
| "jfuel (JFloat f) = 1"
| "jfuel (JStr s) = 1"
| "jfuel_list [] = 0"
| "jfuel_list (x # xs) = Suc (max (jfuel x) (jfuel_list xs))"
| "jfuel_items [] = 0"
| "jfuel_items ((k, v) # d) = Suc (max (jfuel v) (jfuel_items d))"

lemma skip_newline [simp]: "skip (newline st l @ t) = skip t"
  by (auto simp: skip_def newline_def is_ws_def dropWhile_append split: option.splits)

lemma skip_Cons: "\<not> is_ws c \<Longrightarrow> skip (c # t) = c # t"
  by (simp add: skip_def)

lemma skip_punct [simp]:
  "skip (CHR '','' # t) = CHR '','' # t" "skip (CHR '']'' # t) = CHR '']'' # t"
  "skip (CHR ''}'' # t) = CHR ''}'' # t" "skip (CHR '':'' # t) = CHR '':'' # t"
  "skip (CHR 0x20 # t) = skip t" "skip (CHR 0x22 # t) = CHR 0x22 # t" "skip [] = []"
  by (simp_all add: skip_def is_ws_def)

lemma delim_simps [simp]:
  "delim []" "delim (CHR '','' # r)" "delim (CHR '']'' # r)" "delim (CHR ''}'' # r)"
  by (simp_all add: delim_def is_digit_def)

lemma delim_newline: "delim r \<Longrightarrow> delim (newline st l @ r)"
  by (cases st; cases l) (auto simp: newline_def delim_def is_digit_def)

lemma quote_head: "\<exists>q. quote s = CHR 0x22 # q"
  by (simp add: quote_def)

definition value_head :: "string \<Rightarrow> bool" where
  "value_head t \<longleftrightarrow> (\<exists>c r. t = c # r \<and> \<not> is_ws c \<and> c \<noteq> CHR '']'' \<and> c \<noteq> CHR ''}'')"

lemma dumps_head: "no_float j \<Longrightarrow> value_head (dumps E st l j @ t)"
proof (cases j)
  case (JInt i)
  obtain sg n where s: "str_of_int i = sg @ str_of_nat n" and sg: "sg = [] \<or> sg = ''-''"
    using str_of_int_shape by blast
  obtain c r where cr: "str_of_nat n = c # r" by (metis str_of_nat_ne list.exhaust)
  have "is_digit c" using hd_str_of_nat(1) [of n] cr by simp
  then have "\<not> is_ws c \<and> c \<noteq> CHR '']'' \<and> c \<noteq> CHR ''}''"
    by (auto simp: is_digit_def is_ws_def)
  then show ?thesis
    using JInt s sg cr by (auto simp: value_head_def is_ws_def)
next
  case (JStr s)
  then show ?thesis using quote_head [of s] by (auto simp: value_head_def is_ws_def)
qed (auto simp: value_head_def is_ws_def)

lemma skip_value: "value_head t \<Longrightarrow> skip t = t"
  by (auto simp: value_head_def skip_Cons)

lemma dumps_list_head: "no_float_list xs \<Longrightarrow> xs \<noteq> [] \<Longrightarrow> value_head (dumps_list E st l xs @ t)"
  by (cases xs) (auto simp: dumps_head)

lemma dumps_items_head: "d \<noteq> [] \<Longrightarrow> value_head (dumps_items E st l d @ t)"
proof (cases d)
  case (Cons p d')
  obtain k v where "p = (k, v)" by (cases p)
  moreover obtain q where "quote k = CHR 0x22 # q" using quote_head by blast
  ultimately show ?thesis using Cons by (simp add: value_head_def is_ws_def)
qed simp

lemma value_head_expect: "value_head t \<Longrightarrow> expect (CHR '']'') t = None \<and> expect (CHR ''}'') t = None"
  by (auto simp: value_head_def)

lemma parse_val_atom:
  assumes "t = c # r" and "c \<noteq> CHR 0x22" and "c \<noteq> CHR ''{''" and "c \<noteq> CHR ''[''"
  shows "parse_val E (Suc n) t = parse_atom E t"
  using assms by simp

lemma parse_val_int:
  assumes "delim rest"
  shows "parse_val E (Suc n) (str_of_int i @ rest) = Some (JInt i, rest)"
proof -
  obtain sg m where s: "str_of_int i = sg @ str_of_nat m" and sg: "sg = [] \<or> sg = ''-''"
    using str_of_int_shape by blast
  obtain c r where cr: "str_of_nat m = c # r" by (metis str_of_nat_ne list.exhaust)
  have d: "is_digit c" using hd_str_of_nat(1) [of m] cr by simp
  have "parse_val E (Suc n) (str_of_int i @ rest) = parse_atom E (str_of_int i @ rest)"
    using sg digit_not_letter [OF d] by (auto simp: s cr)
  then show ?thesis using parse_atom_int [OF assms] by simp
qed

lemma parse_dumps:
  "jwf j \<Longrightarrow> no_float j \<Longrightarrow> delim rest \<Longrightarrow> jfuel j \<le> n \<Longrightarrow>
     parse_val E n (dumps E st l j @ rest) = Some (j, rest)"
  "xs \<noteq> [] \<Longrightarrow> jwf_list xs \<Longrightarrow> no_float_list xs \<Longrightarrow> jfuel_list xs \<le> n \<Longrightarrow>
     parse_elems E n (dumps_list E st l xs @ newline st l' @ CHR '']'' # rest) = Some (xs, rest)"
  "d \<noteq> [] \<Longrightarrow> distinct (map fst (acc @ d)) \<Longrightarrow> jwf_items d \<Longrightarrow> no_float_items d \<Longrightarrow> jfuel_items d \<le> n \<Longrightarrow>
     parse_members E n acc (dumps_items E st l d @ newline st l' @ CHR ''}'' # rest) = Some (acc @ d, rest)"
proof (induction E st l j and E st l xs and E st l d arbitrary: rest n and rest n l' and rest n l' acc
    rule: dumps_dumps_list_dumps_items.induct)
  case (1 E st l)
  then show ?case by (cases n) (auto simp: parse_atom_def)
next
  case (2 E st l b)
  then show ?case by (cases n) (auto simp: parse_atom_def)
next
  case (3 E st l i)
  then show ?case by (cases n) (auto simp: parse_val_int simp del: parse_val.simps)
next
  case (4 E st l f)
  then show ?case by simp
next
  case (5 E st l s)
  then obtain q where "quote s = CHR 0x22 # q" "\<And>rest. parse_str (q @ rest) = Some (s, rest)"
    using quote_read [of s] by auto
  with 5 show ?case by (cases n) auto
next
  case (6 E st l xs)
  then obtain m where n: "n = Suc m" by (cases n) auto
  show ?case
  proof (cases "xs = []")
    case True
    then show ?thesis using n by simp
  next
    case False
    let ?t = "dumps_list E st (Suc l) xs @ newline st l @ CHR '']'' # rest"
    have h: "value_head ?t" using 6 False by (intro dumps_list_head) auto
    have "parse_elems E m ?t = Some (xs, rest)"
      using "6.IH" [OF False, of m l rest] "6.prems" n False by simp
    with h n False show ?thesis
      by (simp add: skip_value value_head_expect)
  qed
next
  case (7 E st l d)
  then obtain m where n: "n = Suc m" by (cases n) auto
  show ?case
  proof (cases "d = []")
    case True
    then show ?thesis using n by simp
  next
    case False
    let ?t = "dumps_items E st (Suc l) d @ newline st l @ CHR ''}'' # rest"
    have h: "value_head ?t" using False by (intro dumps_items_head)
    have "parse_members E m [] ?t = Some (d, rest)"
      using "7.IH" [OF False, of "[]" m l rest] "7.prems" n False by simp
    with h n False show ?thesis
      by (simp add: skip_value value_head_expect)
  qed
next
  case (8 E st l)
  then show ?case by simp
next
  case (9 E st l x xs)
  then obtain m where n: "n = Suc m" by (cases n) auto
  show ?case
  proof (cases "xs = []")
    case True
    have "parse_val E m (dumps E st l x @ newline st l' @ CHR '']'' # rest) =
        Some (x, newline st l' @ CHR '']'' # rest)"
      using 9 n True by (intro "9.IH") (auto simp: delim_newline)
    with n True show ?thesis by simp
  next
    case False
    let ?t = "dumps_list E st l xs @ newline st l' @ CHR '']'' # rest"
    have "parse_val E m (dumps E st l x @ CHR '','' # newline st l @ ?t) =
        Some (x, CHR '','' # newline st l @ ?t)"
      using 9 n by (intro "9.IH") auto
    moreover have "parse_elems E m ?t = Some (xs, rest)"
      using 9 n False by (intro "9.IH") auto
    moreover have "skip ?t = ?t" using 9 False by (intro skip_value dumps_list_head) auto
    ultimately show ?thesis using n False by simp
  qed
next
  case (10 E st l)
  then show ?case by simp
next
  case (11 E st l k v d)
  then obtain m where n: "n = Suc m" by (cases n) auto
  obtain q where q: "quote k = CHR 0x22 # q" "\<And>rest. parse_str (q @ rest) = Some (k, rest)"
    using quote_read [of k] 11 by auto
  have upd: "AList.update k v acc = acc @ [(k, v)]"
    using "11.prems" by (intro update_new) auto
  have col: "\<exists>u. skip (colon st @ dumps E st l v @ t) = CHR '':'' # u \<and> skip u = dumps E st l v @ t" for t
    using skip_value [OF dumps_head [of v E st l t]] "11.prems" by (auto simp: colon_def split: option.splits)
  show ?case
  proof (cases "d = []")
    case True
    have "parse_val E m (dumps E st l v @ newline st l' @ CHR ''}'' # rest) =
        Some (v, newline st l' @ CHR ''}'' # rest)"
      using 11 n True by (intro "11.IH") (auto simp: delim_newline)
    with n True q upd col [of "newline st l' @ CHR ''}'' # rest"] show ?thesis by auto
  next
    case False
    let ?t = "dumps_items E st l d @ newline st l' @ CHR ''}'' # rest"
    have "parse_val E m (dumps E st l v @ CHR '','' # newline st l @ ?t) =
        Some (v, CHR '','' # newline st l @ ?t)"
      using 11 n by (intro "11.IH") auto
    moreover have "parse_members E m (acc @ [(k, v)]) ?t = Some (acc @ (k, v) # d, rest)"
      using 11 n False "11.IH"(2) [OF False, of "acc @ [(k, v)]" m l' rest] by auto
    moreover have "skip ?t = ?t" using False by (intro skip_value dumps_items_head)
    ultimately show ?thesis
      using n False q upd col [of "CHR '','' # newline st l @ ?t"] by auto
  qed
qed

lemma str_of_int_ne [simp]: "str_of_int i \<noteq> []"
  by (simp add: str_of_int_def)

lemma jfuel_length:
  "no_float j \<Longrightarrow> jfuel j \<le> length (dumps E st l j)"
  "no_float_list xs \<Longrightarrow> jfuel_list xs \<le> Suc (length (dumps_list E st l xs))"
  "no_float_items d \<Longrightarrow> jfuel_items d \<le> Suc (length (dumps_items E st l d))"
proof (induction E st l j and E st l xs and E st l d rule: dumps_dumps_list_dumps_items.induct)
  case (3 E st l i)
  then show ?case by (cases "str_of_int i") auto
next
  case (5 E st l s)
  then show ?case by (simp add: quote_def)
qed (auto simp: Suc_le_eq)

section \<open>Round trip and canonical form\<close>

lemma loads_dumps_style:
  assumes "jwf j" and "no_float j"
  shows "loads E (dumps E st 0 j) = Inr j"
proof -
  have "jfuel j \<le> 2 * length (dumps E st 0 j) + 2"
    using jfuel_length(1) [OF assms(2), of E st 0] by simp
  then have "parse_val E (2 * length (dumps E st 0 j) + 2) (dumps E st 0 j @ []) = Some (j, [])"
    using assms by (intro parse_dumps(1)) auto
  moreover have "skip (dumps E st 0 j) = dumps E st 0 j"
    using skip_value [OF dumps_head [OF assms(2), of E st 0 "[]"]] by simp
  ultimately show ?thesis by (simp add: loads_def)
qed

lemma sort_keys_list_map: "sort_keys_list xs = map sort_keys xs"
  by (induction xs) auto

lemma sort_keys_items_map: "sort_keys_items d = map (\<lambda>(k, v). (k, sort_keys v)) d"
  by (induction d) auto

lemma keys_sort_keys_items [simp]: "map fst (sort_keys_items d) = map fst d"
  by (induction d) auto

lemma distinct_fst_sort_key: "distinct (map fst (sort_key fst d)) = distinct (map fst d)"
proof -
  have "mset (map fst (sort_key fst d)) = mset (map fst d)" by simp
  then show ?thesis by (metis distinct_count_atmost_1 set_mset_mset)
qed

lemma sort_keys_wf:
  "jwf j \<Longrightarrow> jwf (sort_keys j)"
  "jwf_list xs \<Longrightarrow> jwf_list (sort_keys_list xs)"
  "jwf_items d \<Longrightarrow> jwf_items (sort_keys_items d)"
  by (induction j and xs and d rule: sort_keys_sort_keys_list_sort_keys_items.induct)
    (auto simp: distinct_fst_sort_key jwf_items_iff)

lemma sort_keys_no_float:
  "no_float j \<Longrightarrow> no_float (sort_keys j)"
  "no_float_list xs \<Longrightarrow> no_float_list (sort_keys_list xs)"
  "no_float_items d \<Longrightarrow> no_float_items (sort_keys_items d)"
  by (induction j and xs and d rule: sort_keys_sort_keys_list_sort_keys_items.induct)
    (auto simp: no_float_items_iff)

lemma loads_dumps_indent: "jwf j \<Longrightarrow> no_float j \<Longrightarrow> loads E (dumps_indent E j) = Inr j"
  by (simp add: dumps_indent_def loads_dumps_style)

lemma loads_dumps_indent_sorted:
  "jwf j \<Longrightarrow> no_float j \<Longrightarrow> loads E (dumps_indent_sorted E j) = Inr (sort_keys j)"
  by (simp add: dumps_indent_sorted_def loads_dumps_style sort_keys_wf sort_keys_no_float)

lemma loads_canonical:
  "jwf j \<Longrightarrow> no_float j \<Longrightarrow> loads E (canonical_json E j) = Inr (sort_keys j)"
  by (simp add: canonical_json_def loads_dumps_style sort_keys_wf sort_keys_no_float)

lemma canonical_json_eq:
  assumes "jwf a" "no_float a" "jwf b" "no_float b"
  shows "canonical_json E a = canonical_json E b \<longleftrightarrow> sort_keys a = sort_keys b"
proof
  assume "canonical_json E a = canonical_json E b"
  then show "sort_keys a = sort_keys b"
    using loads_canonical [OF assms(1,2), of E] loads_canonical [OF assms(3,4), of E] by simp
qed (simp add: canonical_json_def)

text \<open>Sorting the keys does not change what a lookup finds.\<close>

lemma map_of_sort_keys:
  assumes "distinct (map fst d)"
  shows "map_of (sort_key fst (sort_keys_items d)) k = map_option sort_keys (map_of d k)"
proof -
  have "map_of (sort_key fst (sort_keys_items d)) = map_of (sort_keys_items d)"
    using assms by (subst map_of_inject_set) (simp_all add: distinct_fst_sort_key)
  moreover have "map_of (sort_keys_items d) k = map_option sort_keys (map_of d k)"
    by (induction d) auto
  ultimately show ?thesis by simp
qed

section \<open>Enough fuel\<close>

lemma skip_length: "length (skip s) \<le> length s"
  by (simp add: skip_def length_dropWhile_le)

lemma parse_str_length: "parse_str s = Some (t, r) \<Longrightarrow> length r < length s"
proof (induction s arbitrary: t r rule: parse_str.induct)
  case 1
  then show ?case by simp
next
  case (2 c s)
  show ?case
  proof (cases "c = CHR 0x5C")
    case True
    then obtain b s' u where e: "esc_step s = Some (b, s')" "parse_str s' = Some (u, r)"
      using "2.prems" by (auto simp: parse_str.simps(2) prepend_def split: option.splits)
    have "length r < length s'" using "2.IH"(1) [of "(b, s')"] True e by auto
    then show ?thesis using esc_step_length [OF e(1)] by simp
  next
    case False
    with "2.prems" "2.IH"(2) show ?thesis
      by (fastforce simp: parse_str.simps(2) prepend_def split: if_split_asm)
  qed
qed

lemma parse_num_length: "parse_num E s = Some (v, r) \<Longrightarrow> length r < length s"
proof -
  assume p: "parse_num E s = Some (v, r)"
  define s1 where "s1 = drop (length (if prefix ''-'' s then ''-'' else [])) s"
  have ne: "int_part s1 \<noteq> []" and le: "length r \<le> length s1 - length (int_part s1)"
    using p unfolding parse_num_def Let_def s1_def [symmetric]
    by (simp_all only: split: if_split_asm) auto
  then have "s1 \<noteq> []" by (auto simp: int_part_def)
  then have "0 < length s1" by simp
  moreover have "0 < length (int_part s1)" using ne by simp
  moreover have "length s1 \<le> length s" by (simp add: s1_def)
  ultimately show ?thesis using le by linarith
qed

lemma parse_atom_length: "parse_atom E s = Some (v, r) \<Longrightarrow> length r < length s"
  by (auto simp: parse_atom_def dest!: prefix_length_le dest: parse_num_length split: if_split_asm)

lemma skip_shorter: "length r < length (skip s) \<Longrightarrow> length r < length s"
  using skip_length [of s] by simp

lemma expect_skip_length: "expect c (skip s) = Some r \<Longrightarrow> length r < length s"
  using skip_length [of s] expect_length [of c "skip s" r] by simp

lemma parse_length:
  "parse_val E n s = Some (v, r) \<Longrightarrow> length r < length s"
  "parse_elems E n s = Some (xs, r) \<Longrightarrow> length r < length s"
  "parse_members E n d s = Some (d', r) \<Longrightarrow> length r < length s"
proof (induction n arbitrary: s v r xs d d')
  case 0
  {
    case 1
    then show ?case by simp
  next
    case 2
    then show ?case by simp
  next
    case 3
    then show ?case by simp
  }
next
  case (Suc n)
  note d = expect_length parse_str_length parse_atom_length expect_skip_length
  {
    case 1
    then show ?case
      by (auto split: option.split_asm dest!: d Suc.IH skip_shorter)
  next
    case 2
    then show ?case
      by (auto split: option.split_asm prod.split_asm dest!: d Suc.IH skip_shorter)
  next
    case 3
    then show ?case
      by (auto split: option.split_asm prod.split_asm dest!: d Suc.IH skip_shorter)
  }
qed

lemma parse_fuel_step:
  "2 * length s + 1 \<le> n \<Longrightarrow> parse_val E (Suc n) s = parse_val E n s"
  "2 * length s + 2 \<le> n \<Longrightarrow> parse_elems E (Suc n) s = parse_elems E n s"
  "2 * length s + 2 \<le> n \<Longrightarrow> parse_members E (Suc n) d s = parse_members E n d s"
proof (induction n arbitrary: s d)
  case 0
  {
    case 1
    then show ?case by simp
  next
    case 2
    then show ?case by simp
  next
    case 3
    then show ?case by simp
  }
next
  case (Suc n)
  {
    case 1
    have "parse_elems E (Suc n) (skip r) = parse_elems E n (skip r)"
      "parse_members E (Suc n) d (skip r) = parse_members E n d (skip r)"
      if "expect c s = Some r" for c r d
    proof -
      have "2 * length (skip r) + 2 \<le> n" using skip_length [of r] expect_length [OF that] 1 by linarith
      then show "parse_elems E (Suc n) (skip r) = parse_elems E n (skip r)"
        "parse_members E (Suc n) d (skip r) = parse_members E n d (skip r)"
        by (rule Suc.IH)+
    qed
    then show ?case by (simp del: parse_elems.simps parse_members.simps split: option.split)
  next
    case 2
    have v: "parse_val E (Suc n) s = parse_val E n s" by (rule Suc.IH(1)) (use 2 in simp)
    have "parse_elems E (Suc n) (skip r') = parse_elems E n (skip r')"
      if "parse_val E n s = Some (v, r)" "expect c (skip r) = Some r'" for v r c r'
    proof -
      have "length (skip r) \<le> length s"
        using parse_length(1) [OF that(1)] skip_length [of r] by simp
      then have "2 * length (skip r') + 2 \<le> n" using skip_length [of r'] expect_length [OF that(2)] 2 by linarith
      then show ?thesis by (rule Suc.IH)
    qed
    then show ?case
      by (subst (1 2) parse_elems.simps) (simp add: v del: parse_elems.simps parse_val.simps split: option.split prod.split)
  next
    case 3
    have v: "parse_val E (Suc n) (skip r) = parse_val E n (skip r)" if "length r < length s" for r
      by (rule Suc.IH(1)) (use skip_length [of r] that 3 in simp)
    have m: "parse_members E (Suc n) d' (skip r) = parse_members E n d' (skip r)"
      if "length r < length s" for d' r
      by (rule Suc.IH(3)) (use skip_length [of r] that 3 in simp)
    have l: "length r3 < length s"
      if "expect (CHR 0x22) s = Some r" "parse_str r = Some (k, r1)"
        "expect (CHR '':'') (skip r1) = Some r2" "parse_val E n (skip r2) = Some (w, r3)" for r k r1 r2 w r3
      using expect_length [OF that(1)] parse_str_length [OF that(2)] expect_skip_length [OF that(3)]
        skip_shorter [OF parse_length(1) [OF that(4)]] by simp
    have l2: "length r2 < length s"
      if "expect (CHR 0x22) s = Some r" "parse_str r = Some (k, r1)"
        "expect (CHR '':'') (skip r1) = Some r2" for r k r1 r2
      using expect_length [OF that(1)] parse_str_length [OF that(2)] expect_skip_length [OF that(3)] by simp
    have l4: "length r4 < length s"
      if "expect (CHR 0x22) s = Some r" "parse_str r = Some (k, r1)"
        "expect (CHR '':'') (skip r1) = Some r2" "parse_val E n (skip r2) = Some (w, r3)"
        "expect c (skip r3) = Some r4" for r k r1 r2 w r3 c r4
      using l [OF that(1-4)] expect_skip_length [OF that(5)] by simp
    show ?case
      by (subst (1 2) parse_members.simps)
        (auto simp: v [OF l2] m [OF l4] simp del: parse_members.simps parse_val.simps split: option.split prod.split)
  }
qed

lemma parse_fuel_enough:
  "2 * length s + 2 \<le> n \<Longrightarrow> parse_val E n s = parse_val E (2 * length s + 2) s"
proof (induction n rule: dec_induct)
  case (step n)
  then show ?case using parse_fuel_step(1) [of s n E] by simp
qed simp

lemma loads_fuel:
  assumes "2 * length s + 2 \<le> n"
  shows "loads E s =
     (case parse_val E n (skip s) of
        Some (v, r) \<Rightarrow> if skip r = [] then Inr v else Inl JSONDecodeError
      | None \<Rightarrow> Inl JSONDecodeError)"
proof -
  have "parse_val E m (skip s) = parse_val E (2 * length (skip s) + 2) (skip s)"
    if "2 * length s + 2 \<le> m" for m
    by (rule parse_fuel_enough) (use skip_length [of s] that in simp)
  then show ?thesis using assms unfolding loads_def by (metis order_refl)
qed

end
