(* ===== verification/Base64.thy ===== *)
theory Base64
  imports PyValue
begin

text \<open>
  \<open>base64.b64encode\<close> and \<open>base64.b64decode\<close> as the sources call them (standard alphabet,
  \<open>validate=False\<close>), translated from the interpreter's \<open>binascii\<close> loops.  Decoding skips characters
  outside the alphabet, stops at a completed padding and raises \<open>binascii.Error\<close> when the input ends
  inside a group; \<open>b64_decode_encode\<close> is the round trip.
\<close>

definition b64_char :: "nat \<Rightarrow> char" where
  "b64_char v =
     (if v < 26 then char_of (65 + v) else if v < 52 then char_of (71 + v)
      else if v < 62 then char_of (v - 4) else if v = 62 then CHR ''+'' else CHR ''/'')"

definition b64_val :: "char \<Rightarrow> nat option" where
  "b64_val c = (let n = of_char c :: nat in
     if 65 \<le> n \<and> n \<le> 90 then Some (n - 65)
     else if 97 \<le> n \<and> n \<le> 122 then Some (n - 71)
     else if 48 \<le> n \<and> n \<le> 57 then Some (n + 4)
     else if n = 43 then Some 62 else if n = 47 then Some 63 else None)"

definition byte :: "char \<Rightarrow> nat" where
  "byte c = of_char c"

fun b64_encode :: "string \<Rightarrow> string" where
  "b64_encode [] = []"
| "b64_encode [a] = [b64_char (byte a div 4), b64_char (byte a mod 4 * 16), CHR ''='', CHR ''='']"
| "b64_encode [a, b] =
     [b64_char (byte a div 4), b64_char (byte a mod 4 * 16 + byte b div 16), b64_char (byte b mod 16 * 4), CHR ''='']"
| "b64_encode (a # b # c # s) =
     b64_char (byte a div 4) # b64_char (byte a mod 4 * 16 + byte b div 16) #
     b64_char (byte b mod 16 * 4 + byte c div 64) # b64_char (byte c mod 64) # b64_encode s"

definition emit :: "nat \<Rightarrow> string res \<Rightarrow> string res" where
  "emit x r = bindE r (\<lambda>t. Inr (char_of x # t))"

text \<open>The loop: the position in the group, the bits left over, the pads seen, the rest of the text.\<close>

fun b64_loop :: "nat \<Rightarrow> nat \<Rightarrow> nat \<Rightarrow> string \<Rightarrow> string res" where
  "b64_loop q l p [] = (if q = 0 then Inr [] else Inl BinasciiError)"
| "b64_loop q l p (c # s) =
     (if c = CHR ''='' then
        (if 2 \<le> q then (if 4 \<le> q + Suc p then Inr [] else b64_loop q l (Suc p) s)
         else b64_loop q l p s)
      else (case b64_val c of
          None \<Rightarrow> b64_loop q l p s
        | Some v \<Rightarrow>
            if q = 0 then b64_loop 1 v 0 s
            else if q = 1 then emit (l * 4 + v div 16) (b64_loop 2 (v mod 16) 0 s)
            else if q = 2 then emit (l * 16 + v div 4) (b64_loop 3 (v mod 4) 0 s)
            else emit (l * 64 + v) (b64_loop 0 0 0 s)))"

definition b64_decode_str :: "string \<Rightarrow> string res" where
  "b64_decode_str s =
     (if \<exists>c \<in> set s. 128 \<le> byte c
      then Inl (ValueError ''string argument should contain only ASCII characters'')
      else b64_loop 0 0 0 s)"

fun b64decode :: "json \<Rightarrow> string res" where
  "b64decode (JStr s) = b64_decode_str s"
| "b64decode v = Inl TypeError"

lemma b64_val_char [simp]:
  assumes "v < 64"
  shows "b64_val (b64_char v) = Some v" "b64_char v \<noteq> CHR ''=''" "byte (b64_char v) < 128"
proof -
  have o: "byte (b64_char v) =
      (if v < 26 then 65 + v else if v < 52 then 71 + v else if v < 62 then v - 4 else if v = 62 then 43 else 47)"
    using assms by (simp add: b64_char_def byte_def)
  show "byte (b64_char v) < 128" unfolding o using assms by auto
  have "byte (b64_char v) \<noteq> byte (CHR ''='')"
    unfolding o using assms by (auto simp: byte_def)
  then show "b64_char v \<noteq> CHR ''=''" by metis
  have "b64_val (b64_char v) = (let n = byte (b64_char v) in
     if 65 \<le> n \<and> n \<le> 90 then Some (n - 65)
     else if 97 \<le> n \<and> n \<le> 122 then Some (n - 71)
     else if 48 \<le> n \<and> n \<le> 57 then Some (n + 4)
     else if n = 43 then Some 62 else if n = 47 then Some 63 else None)"
    by (simp add: b64_val_def byte_def)
  then show "b64_val (b64_char v) = Some v"
    unfolding o Let_def using assms by auto
qed

lemma byte_less [simp]: "byte c < 256"
  by (simp add: byte_def)

lemma byte_parts [simp]: "byte a div 4 < 64" "byte b div 16 < 16" "byte c div 64 < 4"
  using byte_less [of a] byte_less [of b] byte_less [of c] by linarith+

lemma char_of_byte [simp]: "char_of (byte c) = c"
  by (simp add: byte_def)

lemma emit_Inr [simp]: "emit x (Inr t) = Inr (char_of x # t)"
  by (simp add: emit_def)

lemma b64_loop_char [simp]:
  assumes "v < 64"
  shows "b64_loop 0 l p (b64_char v # s) = b64_loop 1 v 0 s"
    and "b64_loop (Suc 0) l p (b64_char v # s) = emit (l * 4 + v div 16) (b64_loop 2 (v mod 16) 0 s)"
    and "b64_loop 2 l p (b64_char v # s) = emit (l * 16 + v div 4) (b64_loop 3 (v mod 4) 0 s)"
    and "b64_loop 3 l p (b64_char v # s) = emit (l * 64 + v) (b64_loop 0 0 0 s)"
  using assms by simp_all

declare b64_loop.simps(2) [simp del]

lemma group_lt [simp]:
  "byte a mod 4 * 16 + byte b div 16 < 64" "byte b mod 16 * 4 + byte c div 64 < 64"
  "byte a mod 4 * 16 < 64" "byte b mod 16 * 4 < 64" "byte c mod 64 < 64"
  using byte_parts(2) [of b] byte_parts(3) [of c] by (simp; linarith)+

lemma group_bytes [simp]:
  "byte a div 4 * 4 + (byte a mod 4 * 16 + byte b div 16) div 16 = byte a"
  "(byte a mod 4 * 16 + byte b div 16) mod 16 = byte b div 16"
  "byte b div 16 * 16 + (byte b mod 16 * 4 + byte c div 64) div 4 = byte b"
  "(byte b mod 16 * 4 + byte c div 64) mod 4 = byte c div 64"
  "byte c div 64 * 64 + byte c mod 64 = byte c"
  "byte a div 4 * 4 + (byte a mod 4 * 16) div 16 = byte a"
  "byte b div 16 * 16 + (byte b mod 16 * 4) div 4 = byte b"
  using byte_parts(2) [of b] byte_parts(3) [of c] by (simp_all add: div_add1_eq mod_add_eq [symmetric])

lemma b64_loop_encode: "b64_loop 0 0 0 (b64_encode s) = Inr s"
  by (induction s rule: b64_encode.induct) (simp_all add: b64_loop.simps(2))

lemma b64_encode_ascii: "c \<in> set (b64_encode s) \<Longrightarrow> byte c < 128"
  by (induction s rule: b64_encode.induct) (auto simp: byte_def [of "CHR ''=''"])

lemma b64_decode_str_encode [simp]: "b64_decode_str (b64_encode s) = Inr s"
  using b64_encode_ascii [of _ s] by (force simp: b64_decode_str_def b64_loop_encode)

lemma b64_encode_inj: "b64_encode s = b64_encode t \<longleftrightarrow> s = t"
  by (metis b64_decode_str_encode sum.inject(2))

lemma utf8_b64 [simp]: "utf8 (b64_encode s)"
  by (rule utf8_ascii) (use b64_encode_ascii in \<open>simp add: byte_def\<close>)

end
