(* ===== verification/Paths.thy ===== *)
theory Paths
  imports PyValue
begin

text \<open>
  bundle/paths.py: the rules for URIs and for the relative paths inside a bundle, and the name of a
  key file.  A file-system path is the list of its components, the base directory being an absolute,
  resolved one; \<open>resolve_parts\<close> is the lexical part of \<open>Path.resolve\<close> (the model has no symbolic
  links).
\<close>

type_synonym path = "string list"

definition max_uri_length :: nat where "max_uri_length = 255"
definition max_path_depth :: nat where "max_path_depth = 10"

section \<open>URIs\<close>

text \<open>The character class and the pattern of \<open>_VALID_URI_RE\<close>, as \<open>fullmatch\<close> applies it.\<close>

definition uri_char :: "char \<Rightarrow> bool" where
  "uri_char c \<longleftrightarrow> is_alnum c \<or> c = CHR ''.'' \<or> c = CHR ''_'' \<or> c = CHR ''-''"

fun valid_uri_re :: "string \<Rightarrow> bool" where
  "valid_uri_re [] = False"
| "valid_uri_re (c # s) = (is_alnum c \<and> list_all uri_char s)"

definition validate_uri :: "json \<Rightarrow> string res" where
  "validate_uri v =
     (case v of
        JStr uri \<Rightarrow>
          if uri = [] then Inl (ValueError ''URI must be a non-empty string'')
          else if py_len uri > max_uri_length then Inl (ValueError ''URI too long'')
          else if CHR ''/'' \<in> set uri \<or> CHR 0x5C \<in> set uri \<or> CHR 0x00 \<in> set uri
            then Inl (ValueError ''URI contains forbidden characters'')
          else if uri = ''.'' \<or> uri = ''..'' \<or> contains_sub ''..'' uri
            then Inl (ValueError ''URI contains path traversal'')
          else if \<not> valid_uri_re uri then Inl (ValueError ''URI contains invalid characters'')
          else Inr uri
      | _ \<Rightarrow> Inl (ValueError ''URI must be a non-empty string''))"

definition uri_ok :: "string \<Rightarrow> bool" where
  "uri_ok u \<longleftrightarrow> length u \<le> 255 \<and> valid_uri_re u \<and> \<not> contains_sub ''..'' u"

section \<open>Paths inside a bundle\<close>

definition resolve_step :: "path \<Rightarrow> string \<Rightarrow> path" where
  "resolve_step p s =
     (if s = [] \<or> s = ''.'' then p else if s = ''..'' then butlast p else p @ [s])"

definition resolve_parts :: "path \<Rightarrow> string list \<Rightarrow> path" where
  "resolve_parts p ss = foldl resolve_step p ss"

text \<open>\<open>(base_dir / rel).resolve()\<close>: an absolute \<open>rel\<close> replaces the base.\<close>

definition resolve_in :: "path \<Rightarrow> string \<Rightarrow> path" where
  "resolve_in base rel =
     resolve_parts (if prefix ''/'' rel then [] else base) (split_on (CHR ''/'') rel)"

definition rel_parts :: "string \<Rightarrow> string list" where
  "rel_parts rel =
     (if prefix ''/'' rel then [''/''] else []) @
     filter (\<lambda>s. s \<noteq> [] \<and> s \<noteq> ''.'') (split_on (CHR ''/'') rel)"

definition validate_path :: "path \<Rightarrow> json \<Rightarrow> path res" where
  "validate_path base v =
     bindE (py_in [CHR 0x5C] v) (\<lambda>bs.
     bindE (if bs then Inr True else py_in [CHR 0x00] v) (\<lambda>bad.
     bindE (raise_if bad (ValueError ''Path contains forbidden characters'')) (\<lambda>_.
     case v of
       JStr rel \<Rightarrow>
         if \<exists>seg \<in> set (split_on (CHR ''/'') rel). seg \<in> {[], ''.'', ''..''}
         then Inl (ValueError ''Path is not normalized'')
         else
           (let resolved = resolve_in base rel in
            if \<not> prefix base resolved then Inl (ValueError ''Path traversal detected'')
            else if resolved = base then Inl (ValueError ''Path resolves to base directory'')
            else if length (rel_parts rel) > max_path_depth then Inl (ValueError ''Path too deep'')
            else Inr resolved)
     | _ \<Rightarrow> Inl AttributeError)))"

definition make_key_name :: "string \<Rightarrow> string \<Rightarrow> string" where
  "make_key_name author uri =
     author @ ''_'' @ replace_all ''/'' ''_'' (replace_all ''://'' ''_'' uri)"

section \<open>What the checks guarantee\<close>

lemma is_alnum_ascii: "is_alnum c \<Longrightarrow> of_char c < (128::nat)"
  by (auto simp: is_alnum_def Let_def)

lemma uri_char_ascii: "uri_char c \<Longrightarrow> of_char c < (128::nat)"
  using is_alnum_ascii by (auto simp: uri_char_def)

lemma valid_uri_chars: "valid_uri_re u \<Longrightarrow> c \<in> set u \<Longrightarrow> uri_char c"
  by (cases u) (auto simp: uri_char_def list_all_iff)

lemma py_len_ascii: "\<forall>c \<in> set s. of_char c < (128::nat) \<Longrightarrow> py_len s = length s"
  unfolding py_len_def by (subst filter_True) (auto simp: is_cont_def)

lemma uri_char_safe: "uri_char c \<Longrightarrow> c \<noteq> CHR ''/'' \<and> c \<noteq> CHR 0x5C \<and> c \<noteq> CHR 0x00 \<and> c \<noteq> CHR '':'' \<and> c \<noteq> CHR 0x0A"
  by (auto simp: uri_char_def is_alnum_def Let_def)

lemma validate_uri_iff: "validate_uri v = Inr u \<longleftrightarrow> v = JStr u \<and> uri_ok u"
proof (cases "\<exists>s. v = JStr s")
  case False
  then show ?thesis by (cases v) (auto simp: validate_uri_def)
next
  case True
  then obtain s where s: "v = JStr s" by blast
  have "py_len s = length s" if "valid_uri_re s"
    using valid_uri_chars [OF that] uri_char_ascii by (intro py_len_ascii) auto
  moreover have "CHR ''/'' \<notin> set s \<and> CHR 0x5C \<notin> set s \<and> CHR 0x00 \<notin> set s \<and> s \<noteq> ''.'' \<and> s \<noteq> ''..'' \<and> s \<noteq> []"
    if "valid_uri_re s"
    using valid_uri_chars [OF that] uri_char_safe that by (auto simp: is_alnum_def Let_def)
  ultimately show ?thesis
    using s by (auto simp: validate_uri_def uri_ok_def max_uri_length_def)
qed

lemma uri_ok_utf8: "uri_ok u \<Longrightarrow> utf8 u"
  using valid_uri_chars uri_char_ascii by (intro utf8_ascii) (auto simp: uri_ok_def)

definition norm_seg :: "string \<Rightarrow> bool" where
  "norm_seg s \<longleftrightarrow> s \<noteq> [] \<and> s \<noteq> ''.'' \<and> s \<noteq> ''..''"

definition rel_ok :: "string \<Rightarrow> bool" where
  "rel_ok rel \<longleftrightarrow> CHR 0x5C \<notin> set rel \<and> CHR 0x00 \<notin> set rel \<and>
     (\<forall>s \<in> set (split_on (CHR ''/'') rel). norm_seg s) \<and>
     length (split_on (CHR ''/'') rel) \<le> 10"

lemma resolve_parts_norm: "\<forall>s \<in> set ss. norm_seg s \<Longrightarrow> resolve_parts p ss = p @ ss"
  unfolding resolve_parts_def by (induction ss arbitrary: p) (auto simp: resolve_step_def norm_seg_def)

lemma contains_sub_single: "contains_sub [c] s \<longleftrightarrow> c \<in> set s"
  by (induction s) (auto simp: contains_sub_def)

lemma norm_not_absolute: "\<forall>s \<in> set (split_on (CHR ''/'') rel). norm_seg s \<Longrightarrow> \<not> prefix ''/'' rel"
proof (cases rel)
  case (Cons c r)
  then show "\<forall>s \<in> set (split_on (CHR ''/'') rel). norm_seg s \<Longrightarrow> ?thesis"
    by (cases "c = CHR ''/''") (simp_all add: norm_seg_def)
qed simp

lemma validate_path_iff:
  "validate_path base v = Inr p \<longleftrightarrow>
     (\<exists>rel. v = JStr rel \<and> rel_ok rel \<and> p = base @ split_on (CHR ''/'') rel)"
proof (cases "\<exists>s. v = JStr s")
  case False
  then show ?thesis by (cases v) (auto simp: validate_path_def res_simps)
next
  case True
  then obtain rel where v: "v = JStr rel" by blast
  let ?ss = "split_on (CHR ''/'') rel"
  show ?thesis
  proof (cases "\<forall>s \<in> set ?ss. norm_seg s")
    case False
    then have "\<exists>seg \<in> set ?ss. seg \<in> {[], ''.'', ''..''}" by (auto simp: norm_seg_def)
    with False v show ?thesis
      by (simp add: validate_path_def rel_ok_def contains_sub_single res_simps)
  next
    case True
    then have n: "\<not> (\<exists>seg \<in> set ?ss. seg \<in> {[], ''.'', ''..''})" by (auto simp: norm_seg_def)
    have r: "resolve_in base rel = base @ ?ss" "rel_parts rel = ?ss"
      using norm_not_absolute [OF True] True
      by (simp_all add: resolve_in_def resolve_parts_norm rel_parts_def norm_seg_def filter_id_conv)
    have "?ss \<noteq> []" by simp
    have "validate_path base v =
        (if CHR 0x5C \<in> set rel \<or> CHR 0x00 \<in> set rel then Inl (ValueError ''Path contains forbidden characters'')
         else if length ?ss > 10 then Inl (ValueError ''Path too deep'') else Inr (base @ ?ss))"
      unfolding validate_path_def v
      by (simp add: contains_sub_single Let_def n r max_path_depth_def del: insert_iff)
    then show ?thesis
      unfolding v rel_ok_def using True by (simp split: if_split) blast
  qed
qed

lemma rel_path_inj: "split_on (CHR ''/'') a = split_on (CHR ''/'') b \<Longrightarrow> a = b"
  by (metis join_split)

end
