(* ===== verification/FileSys.thy ===== *)
theory FileSys
  imports Paths
begin

text \<open>
  The part of the file system the program relies on: a tree of files and directories without symbolic
  links, and the operations of \<open>pathlib\<close>, \<open>os\<close> and \<open>shutil\<close> the sources call.  Every call that
  changes the disk takes the next entry of a schedule of faults, so that a statement about all
  schedules covers a failure at any point: the call may succeed, fail at once, or (a write or a
  recursive deletion) stop part-way.
\<close>

datatype node = File string | Dir

datatype fault = NoFault | Fails | Short nat

record fsys =
  nodes :: "(path \<times> node) list"
  faults :: "fault list"

type_synonym ('s, 'a) op = "'s \<Rightarrow> 'a res \<times> 's"
type_synonym 'a io = "(fsys, 'a) op"

section \<open>Sequencing\<close>

text \<open>Stateful code that may raise, over any state: the disk here, a peer or a daemon elsewhere.\<close>

definition io_ret :: "'a \<Rightarrow> ('s, 'a) op" where
  "io_ret x fs = (Inr x, fs)"

definition io_raise :: "exn \<Rightarrow> ('s, 'a) op" where
  "io_raise e fs = (Inl e, fs)"

definition io_lift :: "'a res \<Rightarrow> ('s, 'a) op" where
  "io_lift r fs = (r, fs)"

definition io_bind :: "('s, 'a) op \<Rightarrow> ('a \<Rightarrow> ('s, 'b) op) \<Rightarrow> ('s, 'b) op" where
  "io_bind m f fs = (case m fs of (Inl e, fs') \<Rightarrow> (Inl e, fs') | (Inr x, fs') \<Rightarrow> f x fs')"

text \<open>\<open>try: m  except E: h(E)\<close>, the handler deciding what it catches.\<close>

definition io_try :: "('s, 'a) op \<Rightarrow> (exn \<Rightarrow> ('s, 'a) op) \<Rightarrow> ('s, 'a) op" where
  "io_try m h fs = (case m fs of (Inl e, fs') \<Rightarrow> h e fs' | (Inr x, fs') \<Rightarrow> (Inr x, fs'))"

fun io_each :: "('a \<Rightarrow> ('s, unit) op) \<Rightarrow> 'a list \<Rightarrow> ('s, unit) op" where
  "io_each f [] = io_ret ()"
| "io_each f (x # xs) = io_bind (f x) (\<lambda>_. io_each f xs)"

fun io_map :: "('a \<Rightarrow> ('s, 'b) op) \<Rightarrow> 'a list \<Rightarrow> ('s, 'b list) op" where
  "io_map f [] = io_ret []"
| "io_map f (x # xs) = io_bind (f x) (\<lambda>y. io_bind (io_map f xs) (\<lambda>ys. io_ret (y # ys)))"

lemma io_bind_Inr:
  "io_bind m f fs = (Inr y, fs'') \<longleftrightarrow> (\<exists>x fs'. m fs = (Inr x, fs') \<and> f x fs' = (Inr y, fs''))"
  by (auto simp: io_bind_def split: prod.split sum.split)

lemma io_bind_lift_Inr [simp]: "io_bind (io_lift (Inr x)) f fs = f x fs"
  by (simp add: io_bind_def io_lift_def)

lemma io_lift_Inr [simp]: "io_lift r fs = (Inr x, fs') \<longleftrightarrow> r = Inr x \<and> fs' = fs"
  by (auto simp: io_lift_def)

lemma io_ret_iff [simp]: "io_ret x fs = (r, fs') \<longleftrightarrow> r = Inr x \<and> fs' = fs"
  by (auto simp: io_ret_def)

lemma io_raise_iff [simp]: "io_raise e fs = (r, fs') \<longleftrightarrow> r = Inl e \<and> fs' = fs"
  by (auto simp: io_raise_def)

section \<open>Looking\<close>

text \<open>What is at a path.  The root always is a directory.\<close>

definition at_path :: "fsys \<Rightarrow> path \<Rightarrow> node option" where
  "at_path fs p = (if p = [] then Some Dir else map_of (nodes fs) p)"

definition fexists :: "fsys \<Rightarrow> path \<Rightarrow> bool" where
  "fexists fs p \<longleftrightarrow> at_path fs p \<noteq> None"

definition is_directory :: "fsys \<Rightarrow> path \<Rightarrow> bool" where
  "is_directory fs p \<longleftrightarrow> at_path fs p = Some Dir"

definition read_bytes :: "path \<Rightarrow> string io" where
  "read_bytes p fs =
     (case at_path fs p of
        Some (File c) \<Rightarrow> (Inr c, fs)
      | Some Dir \<Rightarrow> (Inl (OSError ''is a directory''), fs)
      | None \<Rightarrow> (Inl (OSError ''no such file''), fs))"

text \<open>\<open>read_text(encoding="utf-8")\<close> decodes and translates line ends.\<close>

fun universal_newlines :: "string \<Rightarrow> string" where
  "universal_newlines [] = []"
| "universal_newlines (c # s) =
     (if c = CHR 0x0D then
        CHR 0x0A # (case s of d # r \<Rightarrow> if d = CHR 0x0A then universal_newlines r else universal_newlines s | [] \<Rightarrow> [])
      else c # universal_newlines s)"

definition read_text :: "path \<Rightarrow> string io" where
  "read_text p = io_bind (read_bytes p) (\<lambda>b. io_lift (bindE (decode_utf8 b) (\<lambda>s. Inr (universal_newlines s))))"

text \<open>\<open>sorted(base.rglob("*.md"))\<close> and \<open>base.iterdir()\<close>.\<close>

definition is_md :: "string \<Rightarrow> bool" where
  "is_md s \<longleftrightarrow> suffix ''.md'' s"

definition md_under :: "fsys \<Rightarrow> path \<Rightarrow> path list" where
  "md_under fs base =
     sort (map fst (filter (\<lambda>(p, n). strict_prefix base p \<and> is_md (last p)) (nodes fs)))"

definition dir_children :: "fsys \<Rightarrow> path \<Rightarrow> path list" where
  "dir_children fs base =
     sort (map fst (filter (\<lambda>(p, n). strict_prefix base p \<and> length p = Suc (length base)) (nodes fs)))"

section \<open>Changing\<close>

definition next_fault :: "fsys \<Rightarrow> fault" where
  "next_fault fs = (case faults fs of [] \<Rightarrow> NoFault | f # r \<Rightarrow> f)"

definition tick :: "fsys \<Rightarrow> fsys" where
  "tick fs = fs\<lparr>faults := tl (faults fs)\<rparr>"

definition put :: "path \<Rightarrow> node \<Rightarrow> fsys \<Rightarrow> fsys" where
  "put p n fs = fs\<lparr>nodes := AList.update p n (nodes fs)\<rparr>"

definition remove_under :: "path \<Rightarrow> fsys \<Rightarrow> fsys" where
  "remove_under p fs = fs\<lparr>nodes := filter (\<lambda>x. \<not> prefix p (fst x)) (nodes fs)\<rparr>"

fun drop_files :: "path \<Rightarrow> nat \<Rightarrow> (path \<times> node) list \<Rightarrow> (path \<times> node) list" where
  "drop_files p n [] = []"
| "drop_files p 0 xs = xs"
| "drop_files p (Suc n) (x # xs) =
     (if prefix p (fst x) \<and> snd x \<noteq> Dir then drop_files p n xs else x # drop_files p (Suc n) xs)"

definition moved :: "path \<Rightarrow> path \<Rightarrow> path \<Rightarrow> path" where
  "moved p q r = (if prefix p r then q @ drop (length p) r else r)"

definition move_under :: "path \<Rightarrow> path \<Rightarrow> fsys \<Rightarrow> fsys" where
  "move_under p q fs =
     fs\<lparr>nodes := map (\<lambda>x. (moved p q (fst x), snd x)) (filter (\<lambda>x. \<not> prefix q (fst x)) (nodes fs))\<rparr>"

definition write_bytes :: "path \<Rightarrow> string \<Rightarrow> unit io" where
  "write_bytes p c fs =
     (if p = [] \<or> \<not> is_directory fs (butlast p) \<or> is_directory fs p
      then (Inl (OSError ''cannot open for writing''), fs)
      else case next_fault fs of
        NoFault \<Rightarrow> (Inr (), put p (File c) (tick fs))
      | Fails \<Rightarrow> (Inl (OSError ''write failed''), tick fs)
      | Short n \<Rightarrow> (Inl (OSError ''write failed''), put p (File (take n c)) (tick fs)))"

definition mkdir :: "path \<Rightarrow> unit io" where
  "mkdir p fs =
     (if fexists fs p \<or> \<not> is_directory fs (butlast p) then (Inl (OSError ''cannot create directory''), fs)
      else case next_fault fs of
        NoFault \<Rightarrow> (Inr (), put p Dir (tick fs))
      | _ \<Rightarrow> (Inl (OSError ''mkdir failed''), tick fs))"

text \<open>\<open>mkdir(parents=True, exist_ok=True)\<close>: the missing ancestors, outermost first.\<close>

definition mkdir_step :: "path \<Rightarrow> unit io" where
  "mkdir_step p fs = (if is_directory fs p then (Inr (), fs) else mkdir p fs)"

definition mkdir_p :: "path \<Rightarrow> unit io" where
  "mkdir_p p = io_each mkdir_step (prefixes p)"

definition rmtree :: "path \<Rightarrow> unit io" where
  "rmtree p fs =
     (if p = [] \<or> \<not> is_directory fs p then (Inl (OSError ''not a directory''), fs)
      else case next_fault fs of
        NoFault \<Rightarrow> (Inr (), remove_under p (tick fs))
      | Fails \<Rightarrow> (Inl (OSError ''rmtree failed''), tick fs)
      | Short n \<Rightarrow> (Inl (OSError ''rmtree failed''), (tick fs)\<lparr>nodes := drop_files p n (nodes fs)\<rparr>))"

text \<open>\<open>shutil.rmtree(p, ignore_errors=True)\<close>.\<close>

definition rmtree_quiet :: "path \<Rightarrow> unit io" where
  "rmtree_quiet p fs = (Inr (), snd (rmtree p fs))"

definition unlink :: "path \<Rightarrow> unit io" where
  "unlink p fs =
     (case at_path fs p of
        Some (File c) \<Rightarrow>
          (case next_fault fs of
             NoFault \<Rightarrow> (Inr (), remove_under p (tick fs))
           | _ \<Rightarrow> (Inl (OSError ''unlink failed''), tick fs))
      | _ \<Rightarrow> (Inl (OSError ''cannot unlink''), fs))"

text \<open>
  \<open>rename\<close> and \<open>replace\<close> on POSIX: a file takes the place of a file, a directory that of an empty
  directory; nothing moves below itself.
\<close>

definition no_children :: "fsys \<Rightarrow> path \<Rightarrow> bool" where
  "no_children fs p \<longleftrightarrow> list_all (\<lambda>x. \<not> strict_prefix p (fst x)) (nodes fs)"

definition rename_allowed :: "fsys \<Rightarrow> path \<Rightarrow> path \<Rightarrow> bool" where
  "rename_allowed fs p q \<longleftrightarrow>
     p \<noteq> [] \<and> q \<noteq> [] \<and> is_directory fs (butlast q) \<and>
     (p = q \<or> \<not> prefix p q \<and> \<not> prefix q p) \<and>
     (case at_path fs p of
        None \<Rightarrow> False
      | Some (File c) \<Rightarrow> \<not> is_directory fs q
      | Some Dir \<Rightarrow> p = q \<or> at_path fs q = None \<or> is_directory fs q \<and> no_children fs q)"

definition rename :: "path \<Rightarrow> path \<Rightarrow> unit io" where
  "rename p q fs =
     (if \<not> rename_allowed fs p q then (Inl (OSError ''cannot rename''), fs)
      else case next_fault fs of
        NoFault \<Rightarrow> (Inr (), if p = q then tick fs else move_under p q (tick fs))
      | _ \<Rightarrow> (Inl (OSError ''rename failed''), tick fs))"

section \<open>Laws\<close>

text \<open>Every node lies in a directory, and only directories have nodes below them.\<close>

definition fs_wf :: "fsys \<Rightarrow> bool" where
  "fs_wf fs \<longleftrightarrow> (\<forall>p n. p \<noteq> [] \<longrightarrow> at_path fs p = Some n \<longrightarrow> at_path fs (butlast p) = Some Dir)"

lemma at_root [simp]: "at_path fs [] = Some Dir"
  by (simp add: at_path_def)

lemma nodes_tick [simp]: "nodes (tick fs) = nodes fs"
  by (simp add: tick_def)

lemma at_tick [simp]: "at_path (tick fs) p = at_path fs p"
  by (simp add: at_path_def)

lemma fs_wf_tick [simp]: "fs_wf (tick fs) = fs_wf fs"
  by (simp add: fs_wf_def)

lemma at_put [store_laws]: "p \<noteq> [] \<Longrightarrow> at_path (put p n fs) r = (if r = p then Some n else at_path fs r)"
  by (simp add: at_path_def put_def)

lemma at_remove_under [store_laws]:
  "p \<noteq> [] \<Longrightarrow> at_path (remove_under p fs) r = (if prefix p r then None else at_path fs r)"
  using map_of_filter_key [of "\<lambda>r. \<not> prefix p r" "nodes fs" r]
  by (cases "r = []") (auto simp: at_path_def remove_under_def)

lemma map_of_drop_files_other: "\<not> prefix p r \<Longrightarrow> map_of (drop_files p n xs) r = map_of xs r"
  by (induction p n xs rule: drop_files.induct) auto

lemma at_drop_files [store_laws]:
  "\<not> prefix p r \<Longrightarrow> at_path (fs\<lparr>nodes := drop_files p n (nodes fs)\<rparr>) r = at_path fs r"
  by (simp add: at_path_def map_of_drop_files_other)

lemma map_of_moved:
  assumes "\<not> prefix p q" and "\<not> prefix q p" and "\<forall>x \<in> set xs. \<not> prefix q (fst x)"
  shows "map_of (map (\<lambda>x. (moved p q (fst x), snd x)) xs) r =
    (if prefix q r then map_of xs (p @ drop (length q) r) else if prefix p r then None else map_of xs r)"
  using assms(3)
proof (induction xs)
  case (Cons x xs)
  obtain k v where x: "x = (k, v)" by (cases x)
  have nk: "\<not> prefix q k" using Cons.prems x by simp
  show ?case
  proof (cases "prefix p k")
    case True
    then obtain s where k: "k = p @ s" by (auto simp: prefix_def)
    have "moved p q k = q @ s" by (simp add: moved_def k)
    moreover have "\<not> prefix q r \<Longrightarrow> r \<noteq> q @ s" "prefix p r \<Longrightarrow> \<not> prefix q r \<Longrightarrow> r \<noteq> k \<or> True" by auto
    moreover have "prefix q r \<Longrightarrow> (r = q @ s) = (p @ drop (length q) r = k)"
      by (auto simp: k prefix_def)
    moreover have "\<not> prefix q r \<Longrightarrow> \<not> prefix p r \<Longrightarrow> r \<noteq> k" by (auto simp: k)
    ultimately show ?thesis using Cons by (auto simp: x)
  next
    case False
    then have "moved p q k = k" by (simp add: moved_def)
    moreover have "p @ drop (length q) r \<noteq> k" using False by auto
    ultimately show ?thesis using Cons nk False by (auto simp: x)
  qed
qed simp

lemma map_of_filter_notin:
  "\<not> prefix q r \<Longrightarrow> map_of (filter (\<lambda>x. \<not> prefix q (fst x)) xs) r = map_of xs r"
  by (induction xs) auto

lemma at_move_under [store_laws]:
  assumes "p \<noteq> []" and "q \<noteq> []" and "\<not> prefix p q" and "\<not> prefix q p"
  shows "at_path (move_under p q fs) r =
    (if prefix q r then at_path fs (p @ drop (length q) r) else if prefix p r then None else at_path fs r)"
proof -
  have "\<not> prefix q (p @ s)" if "\<not> prefix q p" for s
    using assms(3) that by (metis prefix_prefix prefix_same_cases prefix_def)
  then show ?thesis
    using assms
    by (cases "r = []")
      (auto simp: at_path_def move_under_def map_of_moved map_of_filter_notin)
qed

text \<open>The frame of each call: what it leaves alone whatever its outcome.\<close>

definition same_except :: "(path \<Rightarrow> bool) \<Rightarrow> fsys \<Rightarrow> fsys \<Rightarrow> bool" where
  "same_except P fs fs' \<longleftrightarrow> (\<forall>r. \<not> P r \<longrightarrow> at_path fs' r = at_path fs r)"

lemma same_except_refl [simp]: "same_except P fs fs" "same_except P fs (tick fs)"
  by (simp_all add: same_except_def)

lemma same_except_trans: "same_except P fs fs' \<Longrightarrow> same_except P fs' fs'' \<Longrightarrow> same_except P fs fs''"
  by (simp add: same_except_def)

lemma same_except_mono: "same_except P fs fs' \<Longrightarrow> (\<And>r. P r \<Longrightarrow> Q r) \<Longrightarrow> same_except Q fs fs'"
  by (auto simp: same_except_def)

lemma same_exceptD: "same_except P fs fs' \<Longrightarrow> \<not> P r \<Longrightarrow> at_path fs' r = at_path fs r"
  by (simp add: same_except_def)

lemma write_bytes_cases:
  assumes "write_bytes p c fs = (r, fs')"
  obtains (ok) "r = Inr ()" "p \<noteq> []" "is_directory fs (butlast p)" "\<not> is_directory fs p" "fs' = put p (File c) (tick fs)"
    | (short) n where "r = Inl (OSError ''write failed'')" "p \<noteq> []" "\<not> is_directory fs p" "fs' = put p (File (take n c)) (tick fs)"
    | (same) e where "r = Inl e" "is_os_error e" "fs' = fs \<or> fs' = tick fs"
proof (cases "p = [] \<or> \<not> is_directory fs (butlast p) \<or> is_directory fs p")
  case True
  with assms show ?thesis by (intro same [of "OSError ''cannot open for writing''"]) (auto simp: write_bytes_def)
next
  case False
  with assms show ?thesis
    by (cases "next_fault fs") (auto simp: write_bytes_def intro: ok short same [of "OSError ''write failed''"])
qed

lemma mkdir_cases:
  assumes "mkdir p fs = (r, fs')"
  obtains (ok) "r = Inr ()" "p \<noteq> []" "at_path fs p = None" "is_directory fs (butlast p)" "fs' = put p Dir (tick fs)"
    | (same) e where "r = Inl e" "is_os_error e" "fs' = fs \<or> fs' = tick fs"
proof (cases "fexists fs p \<or> \<not> is_directory fs (butlast p)")
  case True
  with assms show ?thesis by (intro same [of "OSError ''cannot create directory''"]) (auto simp: mkdir_def)
next
  case False
  then have "p \<noteq> []" by (auto simp: fexists_def)
  with False assms show ?thesis
    by (cases "next_fault fs") (auto simp: mkdir_def fexists_def intro: ok same [of "OSError ''mkdir failed''"])
qed

lemma rmtree_cases:
  assumes "rmtree p fs = (r, fs')"
  obtains (ok) "r = Inr ()" "p \<noteq> []" "fs' = remove_under p (tick fs)"
    | (short) n where "r = Inl (OSError ''rmtree failed'')" "p \<noteq> []" "fs' = (tick fs)\<lparr>nodes := drop_files p n (nodes fs)\<rparr>"
    | (same) e where "r = Inl e" "is_os_error e" "fs' = fs \<or> fs' = tick fs"
proof (cases "p = [] \<or> \<not> is_directory fs p")
  case True
  with assms show ?thesis by (intro same [of "OSError ''not a directory''"]) (auto simp: rmtree_def)
next
  case False
  with assms show ?thesis
    by (cases "next_fault fs") (auto simp: rmtree_def intro: ok short same [of "OSError ''rmtree failed''"])
qed

lemma rename_cases:
  assumes "rename p q fs = (r, fs')" and "p \<noteq> q"
  obtains (ok) "r = Inr ()" "p \<noteq> []" "q \<noteq> []" "\<not> prefix p q" "\<not> prefix q p" "at_path fs p \<noteq> None"
      "fs' = move_under p q (tick fs)"
    | (same) e where "r = Inl e" "is_os_error e" "fs' = fs \<or> fs' = tick fs"
proof (cases "rename_allowed fs p q")
  case False
  with assms show ?thesis by (intro same [of "OSError ''cannot rename''"]) (auto simp: rename_def)
next
  case True
  then have a: "p \<noteq> []" "q \<noteq> []" "\<not> prefix p q" "\<not> prefix q p" "at_path fs p \<noteq> None"
    using assms(2) by (auto simp: rename_allowed_def split: option.split_asm)
  show ?thesis
  proof (cases "next_fault fs = NoFault")
    case True
    with \<open>rename_allowed fs p q\<close> assms have "r = Inr ()" "fs' = move_under p q (tick fs)"
      by (auto simp: rename_def)
    with a show ?thesis by (intro ok)
  next
    case False
    with \<open>rename_allowed fs p q\<close> assms show ?thesis
      by (cases "next_fault fs") (auto simp: rename_def intro: same [of "OSError ''rename failed''"])
  qed
qed

lemma write_bytes_frame:
  assumes "write_bytes p c fs = (r, fs')"
  shows "same_except (\<lambda>x. x = p) fs fs'"
  using assms by (cases rule: write_bytes_cases) (auto simp: same_except_def at_put)

lemma mkdir_frame:
  assumes "mkdir p fs = (r, fs')"
  shows "same_except (\<lambda>x. x = p) fs fs'"
  using assms by (cases rule: mkdir_cases) (auto simp: same_except_def at_put)

lemma rmtree_frame:
  assumes "rmtree p fs = (r, fs')"
  shows "same_except (prefix p) fs fs'"
  using assms
proof (cases rule: rmtree_cases)
  case (short n)
  then show ?thesis using at_drop_files [of p _ n "tick fs"] by (simp add: same_except_def)
qed (auto simp: same_except_def at_remove_under)

lemma rename_frame:
  assumes "rename p q fs = (r, fs')"
  shows "same_except (\<lambda>x. prefix p x \<or> prefix q x) fs fs'"
proof (cases "p = q")
  case True
  with assms show ?thesis by (auto simp: rename_def split: if_split_asm fault.split_asm)
next
  case False
  from assms this show ?thesis
    by (cases rule: rename_cases) (auto simp: same_except_def at_move_under)
qed

lemma io_each_inv:
  assumes "\<And>x fs r fs'. x \<in> set xs \<Longrightarrow> P fs \<Longrightarrow> f x fs = (r, fs') \<Longrightarrow> P fs'"
    and "P fs" and "io_each f xs fs = (r, fs')"
  shows "P fs'"
  using assms
proof (induction xs arbitrary: fs)
  case (Cons x xs)
  obtain r1 fs1 where f: "f x fs = (r1, fs1)" by (cases "f x fs")
  then have P1: "P fs1" using Cons.prems(1) [of x fs r1 fs1] Cons.prems(2) by simp
  show ?case
  proof (cases r1)
    case (Inl e)
    then show ?thesis using Cons.prems(3) f P1 by (simp add: io_bind_def)
  next
    case (Inr u)
    then have "io_each f xs fs1 = (r, fs')" using Cons.prems(3) f by (simp add: io_bind_def)
    then show ?thesis using Cons.IH Cons.prems(1) P1 by (metis list.set_intros(2))
  qed
qed simp

text \<open>Making directories only turns missing paths into directories.\<close>

definition dirs_added :: "path \<Rightarrow> fsys \<Rightarrow> fsys \<Rightarrow> bool" where
  "dirs_added p fs fs' \<longleftrightarrow>
     (\<forall>x. at_path fs' x = at_path fs x \<or> prefix x p \<and> at_path fs x = None \<and> at_path fs' x = Some Dir)"

lemma dirs_added_frame: "dirs_added p fs fs' \<Longrightarrow> same_except (\<lambda>x. prefix x p) fs fs'"
  by (auto simp: dirs_added_def same_except_def)

lemma dirs_added_file: "dirs_added p fs fs' \<Longrightarrow> at_path fs' x = Some (File c) \<longleftrightarrow> at_path fs x = Some (File c)"
  by (metis dirs_added_def node.distinct(1) option.distinct(1) option.inject)

lemma dirs_added_keeps: "dirs_added p fs fs' \<Longrightarrow> at_path fs x = Some n \<Longrightarrow> at_path fs' x = Some n"
  by (metis dirs_added_def option.distinct(1))

lemma mkdir_added: "mkdir p fs = (r, fs') \<Longrightarrow> dirs_added p fs fs'"
  by (erule mkdir_cases) (auto simp: dirs_added_def at_put)

lemma mkdir_step_added:
  assumes "mkdir_step q fs = (r, fs')" and "prefix q p"
  shows "dirs_added p fs fs'"
proof (cases "is_directory fs q")
  case False
  then have "dirs_added q fs fs'" using assms(1) by (simp add: mkdir_step_def mkdir_added)
  then show ?thesis using assms(2) by (auto simp: dirs_added_def)
qed (use assms in \<open>simp add: mkdir_step_def dirs_added_def\<close>)

lemma dirs_added_trans: "dirs_added p fs fs1 \<Longrightarrow> dirs_added p fs1 fs2 \<Longrightarrow> dirs_added p fs fs2"
  unfolding dirs_added_def by metis

lemma mkdir_p_added:
  assumes "mkdir_p p fs = (r, fs')"
  shows "dirs_added p fs fs'"
  by (rule io_each_inv [where P = "dirs_added p fs" and f = mkdir_step and xs = "prefixes p" and fs = fs and r = r])
    (use assms in \<open>auto simp: mkdir_p_def dirs_added_def [of p fs fs] intro: dirs_added_trans mkdir_step_added\<close>)

lemma mkdir_step_Inr: "mkdir_step q fs = (Inr u, fs') \<Longrightarrow> at_path fs' q = Some Dir"
  by (auto simp: mkdir_step_def is_directory_def at_put split: if_split_asm elim!: mkdir_cases)

lemma mkdir_p_Inr:
  assumes "mkdir_p p fs = (Inr u, fs')" and "prefix x p"
  shows "at_path fs' x = Some Dir"
proof -
  have "x \<in> set qs \<Longrightarrow> (\<forall>q \<in> set qs. prefix q p) \<Longrightarrow> io_each mkdir_step qs fs = (Inr u, fs') \<Longrightarrow> at_path fs' x = Some Dir"
    for qs
  proof (induction qs arbitrary: fs)
    case (Cons q qs)
    then obtain fs1 where s: "mkdir_step q fs = (Inr (), fs1)" and rest: "io_each mkdir_step qs fs1 = (Inr u, fs')"
      by (auto simp: io_bind_Inr)
    show ?case
    proof (cases "x = q")
      case True
      have "dirs_added p fs1 fs'"
        by (rule io_each_inv [where P = "dirs_added p fs1" and f = mkdir_step and xs = qs and fs = fs1 and r = "Inr u"])
          (use rest Cons.prems(2) in \<open>auto simp: dirs_added_def [of p fs1 fs1] intro: dirs_added_trans mkdir_step_added\<close>)
      then show ?thesis using True mkdir_step_Inr [OF s] dirs_added_keeps by blast
    next
      case False
      then show ?thesis using Cons.IH [of fs1] Cons.prems rest by auto
    qed
  qed simp
  from this [of "prefixes p"] show ?thesis using assms by (simp add: mkdir_p_def in_set_prefixes)
qed

lemma at_path_below:
  assumes "fs_wf fs" and "at_path fs p = None"
  shows "at_path fs (p @ r) = None"
proof (induction r rule: rev_induct)
  case (snoc x r)
  then show ?case
    using assms(1) unfolding fs_wf_def
    by (metis Nil_is_append_conv append.assoc butlast_snoc not_Cons_self2 option.distinct(1) option.exhaust)
qed (use assms in simp)

end
