(* ===== verification/Crypto.thy ===== *)
theory Crypto
  imports JsonText Base64 FileSys
begin

text \<open>
  bundle/crypto.py and bundle/_canonical.py over the primitives of \<open>env\<close>: the base64 form of public
  keys, hexadecimal digests, file hashes, and the write of a secret file.  \<open>ed25519_ok\<close> states what
  the signature scheme is relied on for, and \<open>sig_valid\<close> what it means that a record carries a valid
  signature under the key it embeds; the theories of records state their verifiers' soundness in it.
\<close>

definition public_key_to_b64 :: "string \<Rightarrow> string" where
  "public_key_to_b64 pk = b64_encode pk"

definition b64_to_public_key :: "env \<Rightarrow> json \<Rightarrow> string res" where
  "b64_to_public_key E v =
     bindE (b64decode v) (\<lambda>raw.
       if pk_accepts E raw then Inr raw
       else Inl (ValueError ''An Ed25519 public key is 32 bytes long''))"

definition hexdigest :: "env \<Rightarrow> string \<Rightarrow> string" where
  "hexdigest E b = concat (map (\<lambda>c. [hex_char (of_char c div 16), hex_char (of_char c mod 16)]) (sha256 E b))"

definition hash_file :: "env \<Rightarrow> path \<Rightarrow> string io" where
  "hash_file E p = io_bind (read_bytes p) (\<lambda>b. io_ret (hexdigest E b))"

text \<open>
  \<open>write_private_file\<close>'s loop: \<open>os.write\<close> reports how much of the buffer it took, which the list
  \<open>ks\<close> gives (at least one byte of a non-empty buffer); when the list ends the rest is taken at once.
\<close>

fun write_loop :: "nat list \<Rightarrow> string \<Rightarrow> string \<Rightarrow> string" where
  "write_loop ks acc [] = acc"
| "write_loop [] acc view = acc @ view"
| "write_loop (k # ks) acc view = write_loop ks (acc @ take (Suc k) view) (drop (Suc k) view)"

definition write_private_file :: "nat list \<Rightarrow> path \<Rightarrow> string \<Rightarrow> unit io" where
  "write_private_file ks p data = write_bytes p (write_loop ks [] data)"

lemma write_loop_all: "write_loop ks acc view = acc @ view"
  by (induction ks acc view rule: write_loop.induct) simp_all

lemma write_private_file_complete: "write_private_file ks p data = write_bytes p data"
  by (simp add: write_private_file_def write_loop_all)

section \<open>Keys and digests\<close>

lemma b64_to_public_key_b64 [simp]:
  "pk_accepts E pk \<Longrightarrow> b64_to_public_key E (JStr (public_key_to_b64 pk)) = Inr pk"
  by (simp add: b64_to_public_key_def public_key_to_b64_def)

lemma public_key_to_b64_inj: "public_key_to_b64 a = public_key_to_b64 b \<longleftrightarrow> a = b"
  by (simp add: public_key_to_b64_def b64_encode_inj)

lemma utf8_public_key [simp]: "utf8 (public_key_to_b64 pk)"
  by (simp add: public_key_to_b64_def)

lemma hex_char_inj: "a < 16 \<Longrightarrow> b < 16 \<Longrightarrow> hex_char a = hex_char b \<longleftrightarrow> a = b"
  by (metis hex_val_char option.inject)

lemma hex_pair_inj:
  assumes "hex_char (of_char c div 16) = hex_char (of_char d div 16)"
    and "hex_char (of_char c mod 16) = hex_char (of_char d mod 16)"
  shows "c = d"
proof -
  have b: "of_char x div 16 < (16::nat)" for x :: char
    using byte_less [of x] unfolding byte_def by linarith
  have "of_char c div 16 = (of_char d div 16 :: nat)" "of_char c mod 16 = (of_char d mod 16 :: nat)"
    using assms b by (simp_all add: hex_char_inj)
  then have "of_char c = (of_char d :: nat)" by (metis div_mod_decomp)
  then show ?thesis by simp
qed

lemma hex_string_inj:
  "concat (map (\<lambda>c. [hex_char (of_char c div 16), hex_char (of_char c mod 16)]) s) =
   concat (map (\<lambda>c. [hex_char (of_char c div 16), hex_char (of_char c mod 16)]) t) \<longleftrightarrow> s = t"
proof (induction s arbitrary: t)
  case Nil
  then show ?case by (cases t) auto
next
  case (Cons c s)
  then show ?case by (cases t) (auto intro: hex_pair_inj)
qed

text \<open>Equal hexadecimal digests are equal digests.\<close>

lemma hexdigest_eq: "hexdigest E a = hexdigest E b \<longleftrightarrow> sha256 E a = sha256 E b"
  by (simp add: hexdigest_def hex_string_inj)

lemma hex_char_ascii: "d < 16 \<Longrightarrow> byte (hex_char d) < 128"
  by (simp add: hex_char_def byte_def)

lemma utf8_hexdigest [simp]: "utf8 (hexdigest E b)"
proof (rule utf8_ascii)
  show "\<forall>c \<in> set (hexdigest E b). of_char c < (128::nat)"
    using byte_less hex_char_ascii unfolding hexdigest_def byte_def
    by (auto simp: less_mult_imp_div_less)
qed

section \<open>Signatures over canonical JSON\<close>

definition ed25519_ok :: "env \<Rightarrow> bool" where
  "ed25519_ok E \<longleftrightarrow> (\<forall>sk m. ed_verify E (pub_of E sk) (ed_sign E sk m) m \<and> pk_accepts E (pub_of E sk))"

text \<open>
  The signature \<open>s\<close> is valid for record \<open>r\<close> under the key it holds in field \<open>kf\<close>: what a client
  checks for itself.
\<close>

definition sig_valid :: "env \<Rightarrow> string \<Rightarrow> json \<Rightarrow> json \<Rightarrow> bool" where
  "sig_valid E kf r s \<longleftrightarrow>
     (\<exists>d k pk sg. r = JDict d \<and> map_of d kf = Some k \<and> b64_to_public_key E k = Inr pk \<and>
       b64decode s = Inr sg \<and> ed_verify E pk sg (canonical_json E r))"

text \<open>
  The two steps every record type shares.  \<open>sign_by kf\<close> refuses to sign a record whose key field is
  not the signer's key; \<open>verify_tail kf\<close> is the \<open>try\<close> block of the four verifiers.
\<close>

definition sign_by :: "env \<Rightarrow> string \<Rightarrow> json \<Rightarrow> string \<Rightarrow> string res" where
  "sign_by E kf r sk =
     bindE (py_get r kf JNull) (\<lambda>k.
       if k \<noteq> JStr (public_key_to_b64 (pub_of E sk))
       then Inl (ValueError ''record public_key does not match signing private key'')
       else Inr (b64_encode (ed_sign E sk (canonical_json E r))))"

definition missing_fields :: "string list \<Rightarrow> json \<Rightarrow> string list res" where
  "missing_fields req r =
     bindE (mapE (\<lambda>f. py_in f r) req) (\<lambda>bs. Inr (map fst (filter (\<lambda>x. \<not> snd x) (zip req bs))))"

definition drift_error :: "int \<Rightarrow> int option \<Rightarrow> json \<Rightarrow> bool res" where
  "drift_error now max_drift r =
     (case max_drift of
        None \<Rightarrow> Inr False
      | Some m \<Rightarrow> bindE (py_item r ''timestamp'') (\<lambda>t. bindE (py_int t) (\<lambda>n. Inr (\<bar>now - n\<bar> > m))))"

definition check_signature :: "env \<Rightarrow> string \<Rightarrow> json \<Rightarrow> json \<Rightarrow> (bool \<times> string) res" where
  "check_signature E kf r s =
     bindE (py_item r kf) (\<lambda>k. bindE (b64_to_public_key E k) (\<lambda>pk. bindE (b64decode s) (\<lambda>sg.
       if ed_verify E pk sg (canonical_json E r) then Inr (True, []) else Inl InvalidSignature)))"

definition verify_tail :: "env \<Rightarrow> int \<Rightarrow> int option \<Rightarrow> string \<Rightarrow> json \<Rightarrow> json \<Rightarrow> bool \<times> string" where
  "verify_tail E now max_drift kf r s =
     (case bindE (drift_error now max_drift r) (\<lambda>late.
             if late then Inr (False, ''timestamp drift too large'') else check_signature E kf r s) of
        Inr v \<Rightarrow> v
      | Inl InvalidSignature \<Rightarrow> (False, ''invalid signature'')
      | Inl e \<Rightarrow> (False, ''verification error''))"

lemma check_signature_iff: "check_signature E kf r s = Inr v \<longleftrightarrow> v = (True, []) \<and> sig_valid E kf r s"
  by (auto simp: check_signature_def sig_valid_def res_simps py_item_Inr_iff split: if_split_asm)

definition fresh :: "int \<Rightarrow> int option \<Rightarrow> json \<Rightarrow> bool" where
  "fresh now max_drift r \<longleftrightarrow> drift_error now max_drift r = Inr False"

lemma fresh_None [simp]: "fresh now None r"
  by (simp add: fresh_def drift_error_def)

lemma fresh_Some:
  "fresh now (Some m) r \<longleftrightarrow>
     (\<exists>d t n. r = JDict d \<and> map_of d ''timestamp'' = Some t \<and> py_int t = Inr n \<and> \<bar>now - n\<bar> \<le> m)"
  by (auto simp: fresh_def drift_error_def res_simps py_item_Inr_iff not_less)

lemma verify_tail_True [verify_dests]:
  "verify_tail E now md kf r s = (True, m) \<longleftrightarrow> m = [] \<and> fresh now md r \<and> sig_valid E kf r s"
proof -
  have "verify_tail E now md kf r s = (True, m) \<longleftrightarrow>
      bindE (drift_error now md r) (\<lambda>late.
        if late then Inr (False, ''timestamp drift too large'') else check_signature E kf r s) = Inr (True, m)"
    unfolding verify_tail_def by (auto split: sum.split exn.split)
  then show ?thesis
    by (auto simp: res_simps check_signature_iff fresh_def split: if_split_asm)
qed

lemma sign_by_Inr:
  "sign_by E kf r sk = Inr s \<longleftrightarrow>
     (\<exists>d. r = JDict d \<and> map_of d kf = Some (JStr (public_key_to_b64 (pub_of E sk))) \<and>
       s = b64_encode (ed_sign E sk (canonical_json E r)))"
  by (auto simp: sign_by_def res_simps py_get_Inr_iff get_or_def split: option.split_asm if_split_asm)

lemma sign_by_valid:
  assumes "ed25519_ok E" and "sign_by E kf r sk = Inr s"
  shows "sig_valid E kf r (JStr s)"
  using assms unfolding sign_by_Inr sig_valid_def ed25519_ok_def by auto

lemma missing_fields_dict:
  "missing_fields req (JDict d) = Inr (filter (\<lambda>f. map_of d f = None) req)"
proof -
  have "mapE (\<lambda>f. py_in f (JDict d)) req = Inr (map (\<lambda>f. map_of d f \<noteq> None) req)"
    by (induction req) auto
  moreover have "map fst (filter (\<lambda>x. \<not> snd x) (zip fs (map P fs))) = filter (\<lambda>f. \<not> P f) fs" for fs :: "string list" and P
    by (induction fs) auto
  ultimately show ?thesis by (simp add: missing_fields_def)
qed

text \<open>What every verifier of signed records promises; the record theories interpret it.\<close>

locale record_verifier =
  fixes E :: env and kf :: string
    and verify :: "int \<Rightarrow> int option \<Rightarrow> json \<Rightarrow> json \<Rightarrow> (bool \<times> string) res"
    and sign :: "json \<Rightarrow> string \<Rightarrow> string res"
    and wf :: "jdict \<Rightarrow> bool"
  assumes accepts_iff: "verify now md (JDict d) s = Inr (True, m) \<longleftrightarrow>
      m = [] \<and> wf d \<and> fresh now md (JDict d) \<and> sig_valid E kf (JDict d) s"
    and accepts_dict: "verify now md r s = Inr (True, m) \<Longrightarrow> \<exists>d. r = JDict d"
    and sign_eq: "sign = sign_by E kf"
begin

lemma accepted_valid: "verify now md r s = Inr (True, m) \<Longrightarrow> sig_valid E kf r s"
  using accepts_dict accepts_iff by blast

lemma accepted_wf: "verify now md r s = Inr (True, m) \<Longrightarrow> \<exists>d. r = JDict d \<and> wf d"
  using accepts_dict accepts_iff by blast

text \<open>A record once accepted is accepted at any later time by a reader who does not ask for freshness.\<close>

lemma reverify: "verify now md r s = Inr (True, m) \<Longrightarrow> verify now' None r s = Inr (True, [])"
  using accepts_dict [of now md r s m] accepts_iff [of now md _ s m] accepts_iff [of now' None _ s "[]"]
  by auto

lemma sign_then_verify:
  assumes "ed25519_ok E" and "sign (JDict d) sk = Inr s" and "wf d" and "fresh now md (JDict d)"
  shows "verify now md (JDict d) (JStr s) = Inr (True, [])"
  using assms sign_by_valid [of E kf "JDict d" sk s] unfolding sign_eq accepts_iff by blast

text \<open>Nobody signs for a key that is not theirs.\<close>

lemma sign_own_key:
  "sign (JDict d) sk = Inr s \<Longrightarrow> map_of d kf = Some (JStr (public_key_to_b64 (pub_of E sk)))"
  by (simp add: sign_eq sign_by_Inr)

end

end
