(* ===== verification/Taxonomy.thy ===== *)
theory Taxonomy
  imports PyValue
begin

text \<open>
  review/taxonomy.py: the closed list of category slugs, their validation, and the localized labels.
  A label outside ASCII is written by its code points.
\<close>

definition category_slugs :: "string list" where
  "category_slugs =
     [''math'', ''physics'', ''chemistry'', ''biology'', ''astronomy'', 
      ''geosciences'', ''computing'', ''networks'', ''cybersecurity'', ''ai_ml'', 
      ''electronics_robotics'', ''medicine'', ''nutrition'', ''mental_health'', 
      ''politics'', ''economics'', ''law'', ''history'', ''geography'', 
      ''literature'', ''music'', ''cinema'', ''visual_arts'', 
      ''philosophy_religion'', ''education'', ''languages_linguistics'', 
      ''environment_ecology'', ''agriculture_food'', ''leisure_travel'', ''other'']"

definition labels_fr :: "(string, string) dict" where
  "labels_fr =
     [(''math'', u8_encode [77, 97, 116, 104, 233, 109, 97, 116, 105, 113, 117, 101, 115]),
      (''physics'', ''Physique''),
      (''chemistry'', ''Chimie''),
      (''biology'', ''Biologie''),
      (''astronomy'', ''Astronomie''),
      (''geosciences'', u8_encode [71, 233, 111, 115, 99, 105, 101, 110, 99, 101, 115]),
      (''computing'', ''Informatique''),
      (''networks'', u8_encode [82, 233, 115, 101, 97, 117, 120, 32, 101, 116, 32, 73, 110, 116, 101, 114, 110, 101, 116]),
      (''cybersecurity'', u8_encode [67, 121, 98, 101, 114, 115, 233, 99, 117, 114, 105, 116, 233]),
      (''ai_ml'', ''Intelligence artificielle''),
      (''electronics_robotics'', u8_encode [201, 108, 101, 99, 116, 114, 111, 110, 105, 113, 117, 101, 32, 101, 116, 32, 114, 111, 98, 111, 116, 105, 113, 117, 101]),
      (''medicine'', u8_encode [77, 233, 100, 101, 99, 105, 110, 101]),
      (''nutrition'', ''Nutrition''),
      (''mental_health'', u8_encode [83, 97, 110, 116, 233, 32, 109, 101, 110, 116, 97, 108, 101]),
      (''politics'', ''Politique''),
      (''economics'', u8_encode [201, 99, 111, 110, 111, 109, 105, 101]),
      (''law'', ''Droit''),
      (''history'', ''Histoire''),
      (''geography'', u8_encode [71, 233, 111, 103, 114, 97, 112, 104, 105, 101]),
      (''literature'', u8_encode [76, 105, 116, 116, 233, 114, 97, 116, 117, 114, 101]),
      (''music'', ''Musique''),
      (''cinema'', u8_encode [67, 105, 110, 233, 109, 97, 32, 101, 116, 32, 97, 117, 100, 105, 111, 118, 105, 115, 117, 101, 108]),
      (''visual_arts'', ''Arts visuels''),
      (''philosophy_religion'', ''Philosophie et religion''),
      (''education'', u8_encode [201, 100, 117, 99, 97, 116, 105, 111, 110, 32, 101, 116, 32, 112, 233, 100, 97, 103, 111, 103, 105, 101]),
      (''languages_linguistics'', ''Langues et linguistique''),
      (''environment_ecology'', u8_encode [69, 110, 118, 105, 114, 111, 110, 110, 101, 109, 101, 110, 116, 32, 101, 116, 32, 233, 99, 111, 108, 111, 103, 105, 101]),
      (''agriculture_food'', ''Agriculture et alimentation''),
      (''leisure_travel'', ''Loisirs et voyages''),
      (''other'', ''Autre'')]"

definition labels_en :: "(string, string) dict" where
  "labels_en =
     [(''math'', ''Mathematics''),
      (''physics'', ''Physics''),
      (''chemistry'', ''Chemistry''),
      (''biology'', ''Biology''),
      (''astronomy'', ''Astronomy''),
      (''geosciences'', ''Earth sciences''),
      (''computing'', ''Computing''),
      (''networks'', ''Networks and Internet''),
      (''cybersecurity'', ''Cybersecurity''),
      (''ai_ml'', ''Artificial intelligence''),
      (''electronics_robotics'', ''Electronics and robotics''),
      (''medicine'', ''Medicine''),
      (''nutrition'', ''Nutrition''),
      (''mental_health'', ''Mental health''),
      (''politics'', ''Politics''),
      (''economics'', ''Economics''),
      (''law'', ''Law''),
      (''history'', ''History''),
      (''geography'', ''Geography''),
      (''literature'', ''Literature''),
      (''music'', ''Music''),
      (''cinema'', ''Cinema and audiovisual''),
      (''visual_arts'', ''Visual arts''),
      (''philosophy_religion'', ''Philosophy and religion''),
      (''education'', ''Education and pedagogy''),
      (''languages_linguistics'', ''Languages and linguistics''),
      (''environment_ecology'', ''Environment and ecology''),
      (''agriculture_food'', ''Agriculture and food''),
      (''leisure_travel'', ''Leisure and travel''),
      (''other'', ''Other'')]"

definition labels_zh :: "(string, string) dict" where
  "labels_zh =
     [(''math'', u8_encode [25968, 23398]),
      (''physics'', u8_encode [29289, 29702]),
      (''chemistry'', u8_encode [21270, 23398]),
      (''biology'', u8_encode [29983, 29289, 23398]),
      (''astronomy'', u8_encode [22825, 25991, 23398]),
      (''geosciences'', u8_encode [22320, 29699, 31185, 23398]),
      (''computing'', u8_encode [35745, 31639, 26426]),
      (''networks'', u8_encode [32593, 32476, 19982, 20114, 32852, 32593]),
      (''cybersecurity'', u8_encode [32593, 32476, 23433, 20840]),
      (''ai_ml'', u8_encode [20154, 24037, 26234, 33021]),
      (''electronics_robotics'', u8_encode [30005, 23376, 19982, 26426, 22120, 20154]),
      (''medicine'', u8_encode [21307, 23398]),
      (''nutrition'', u8_encode [33829, 20859]),
      (''mental_health'', u8_encode [24515, 29702, 20581, 24247]),
      (''politics'', u8_encode [25919, 27835]),
      (''economics'', u8_encode [32463, 27982]),
      (''law'', u8_encode [27861, 24459]),
      (''history'', u8_encode [21382, 21490]),
      (''geography'', u8_encode [22320, 29702]),
      (''literature'', u8_encode [25991, 23398]),
      (''music'', u8_encode [38899, 20048]),
      (''cinema'', u8_encode [30005, 24433, 19982, 24433, 35270]),
      (''visual_arts'', u8_encode [35270, 35273, 33402, 26415]),
      (''philosophy_religion'', u8_encode [21746, 23398, 19982, 23447, 25945]),
      (''education'', u8_encode [25945, 32946]),
      (''languages_linguistics'', u8_encode [35821, 35328, 23398]),
      (''environment_ecology'', u8_encode [29615, 22659, 19982, 29983, 24577]),
      (''agriculture_food'', u8_encode [20892, 19994, 19982, 39135, 29289]),
      (''leisure_travel'', u8_encode [20241, 38386, 19982, 26053, 28216]),
      (''other'', u8_encode [20854, 20182])]"

definition labels_ar :: "(string, string) dict" where
  "labels_ar =
     [(''math'', u8_encode [1575, 1604, 1585, 1610, 1575, 1590, 1610, 1575, 1578]),
      (''physics'', u8_encode [1575, 1604, 1601, 1610, 1586, 1610, 1575, 1569]),
      (''chemistry'', u8_encode [1575, 1604, 1603, 1610, 1605, 1610, 1575, 1569]),
      (''biology'', u8_encode [1593, 1604, 1605, 32, 1575, 1604, 1571, 1581, 1610, 1575, 1569]),
      (''astronomy'', u8_encode [1593, 1604, 1605, 32, 1575, 1604, 1601, 1604, 1603]),
      (''geosciences'', u8_encode [1593, 1604, 1608, 1605, 32, 1575, 1604, 1571, 1585, 1590]),
      (''computing'', u8_encode [1575, 1604, 1581, 1608, 1587, 1576, 1577]),
      (''networks'', u8_encode [1575, 1604, 1588, 1576, 1603, 1575, 1578, 32, 1608, 1575, 1604, 1573, 1606, 1578, 1585, 1606, 1578]),
      (''cybersecurity'', u8_encode [1575, 1604, 1571, 1605, 1606, 32, 1575, 1604, 1587, 1610, 1576, 1585, 1575, 1606, 1610]),
      (''ai_ml'', u8_encode [1575, 1604, 1584, 1603, 1575, 1569, 32, 1575, 1604, 1575, 1589, 1591, 1606, 1575, 1593, 1610]),
      (''electronics_robotics'', u8_encode [1575, 1604, 1573, 1604, 1603, 1578, 1585, 1608, 1606, 1610, 1575, 1578, 32, 1608, 1575, 1604, 1585, 1608, 1576, 1608, 1578, 1575, 1578]),
      (''medicine'', u8_encode [1575, 1604, 1591, 1576]),
      (''nutrition'', u8_encode [1575, 1604, 1578, 1594, 1584, 1610, 1577]),
      (''mental_health'', u8_encode [1575, 1604, 1589, 1581, 1577, 32, 1575, 1604, 1606, 1601, 1587, 1610, 1577]),
      (''politics'', u8_encode [1575, 1604, 1587, 1610, 1575, 1587, 1577]),
      (''economics'', u8_encode [1575, 1604, 1575, 1602, 1578, 1589, 1575, 1583]),
      (''law'', u8_encode [1575, 1604, 1602, 1575, 1606, 1608, 1606]),
      (''history'', u8_encode [1575, 1604, 1578, 1575, 1585, 1610, 1582]),
      (''geography'', u8_encode [1575, 1604, 1580, 1594, 1585, 1575, 1601, 1610, 1575]),
      (''literature'', u8_encode [1575, 1604, 1571, 1583, 1576]),
      (''music'', u8_encode [1575, 1604, 1605, 1608, 1587, 1610, 1602, 1609]),
      (''cinema'', u8_encode [1575, 1604, 1587, 1610, 1606, 1605, 1575, 32, 1608, 1575, 1604, 1587, 1605, 1593, 1610, 1575, 1578, 32, 1575, 1604, 1576, 1589, 1585, 1610, 1577]),
      (''visual_arts'', u8_encode [1575, 1604, 1601, 1606, 1608, 1606, 32, 1575, 1604, 1576, 1589, 1585, 1610, 1577]),
      (''philosophy_religion'', u8_encode [1575, 1604, 1601, 1604, 1587, 1601, 1577, 32, 1608, 1575, 1604, 1583, 1610, 1606]),
      (''education'', u8_encode [1575, 1604, 1578, 1593, 1604, 1610, 1605, 32, 1608, 1593, 1604, 1608, 1605, 32, 1575, 1604, 1578, 1585, 1576, 1610, 1577]),
      (''languages_linguistics'', u8_encode [1575, 1604, 1604, 1594, 1575, 1578, 32, 1608, 1575, 1604, 1604, 1587, 1575, 1606, 1610, 1575, 1578]),
      (''environment_ecology'', u8_encode [1575, 1604, 1576, 1610, 1574, 1577, 32, 1608, 1575, 1604, 1606, 1592, 1605, 32, 1575, 1604, 1573, 1610, 1603, 1608, 1604, 1608, 1580, 1610, 1577]),
      (''agriculture_food'', u8_encode [1575, 1604, 1586, 1585, 1575, 1593, 1577, 32, 1608, 1575, 1604, 1594, 1584, 1575, 1569]),
      (''leisure_travel'', u8_encode [1575, 1604, 1578, 1585, 1601, 1610, 1607, 32, 1608, 1575, 1604, 1587, 1601, 1585]),
      (''other'', u8_encode [1571, 1582, 1585, 1609])]"

definition labels_hi :: "(string, string) dict" where
  "labels_hi =
     [(''math'', u8_encode [2327, 2339, 2367, 2340]),
      (''physics'', u8_encode [2349, 2380, 2340, 2367, 2325, 2368]),
      (''chemistry'', u8_encode [2352, 2360, 2366, 2351, 2344, 32, 2357, 2367, 2332, 2381, 2334, 2366, 2344]),
      (''biology'', u8_encode [2332, 2368, 2357, 32, 2357, 2367, 2332, 2381, 2334, 2366, 2344]),
      (''astronomy'', u8_encode [2326, 2327, 2379, 2354, 32, 2357, 2367, 2332, 2381, 2334, 2366, 2344]),
      (''geosciences'', u8_encode [2346, 2371, 2341, 2381, 2357, 2368, 32, 2357, 2367, 2332, 2381, 2334, 2366, 2344]),
      (''computing'', u8_encode [2325, 2306, 2346, 2381, 2351, 2370, 2335, 2367, 2306, 2327]),
      (''networks'', u8_encode [2344, 2375, 2335, 2357, 2352, 2381, 2325, 32, 2324, 2352, 32, 2311, 2306, 2335, 2352, 2344, 2375, 2335]),
      (''cybersecurity'', u8_encode [2360, 2366, 2311, 2348, 2352, 32, 2360, 2369, 2352, 2325, 2381, 2359, 2366]),
      (''ai_ml'', u8_encode [2325, 2371, 2340, 2381, 2352, 2367, 2350, 32, 2348, 2369, 2342, 2381, 2343, 2367, 2350, 2340, 2381, 2340, 2366]),
      (''electronics_robotics'', u8_encode [2311, 2354, 2375, 2325, 2381, 2335, 2381, 2352, 2377, 2344, 2367, 2325, 2381, 2360, 32, 2324, 2352, 32, 2352, 2379, 2348, 2379, 2335, 2367, 2325, 2381, 2360]),
      (''medicine'', u8_encode [2330, 2367, 2325, 2367, 2340, 2381, 2360, 2366]),
      (''nutrition'', u8_encode [2346, 2379, 2359, 2339]),
      (''mental_health'', u8_encode [2350, 2366, 2344, 2360, 2367, 2325, 32, 2360, 2381, 2357, 2366, 2360, 2381, 2341, 2381, 2351]),
      (''politics'', u8_encode [2352, 2366, 2332, 2344, 2368, 2340, 2367]),
      (''economics'', u8_encode [2309, 2352, 2381, 2341, 2358, 2366, 2360, 2381, 2340, 2381, 2352]),
      (''law'', u8_encode [2357, 2367, 2343, 2367]),
      (''history'', u8_encode [2311, 2340, 2367, 2361, 2366, 2360]),
      (''geography'', u8_encode [2349, 2370, 2327, 2379, 2354]),
      (''literature'', u8_encode [2360, 2366, 2361, 2367, 2340, 2381, 2351]),
      (''music'', u8_encode [2360, 2306, 2327, 2368, 2340]),
      (''cinema'', u8_encode [2360, 2367, 2344, 2375, 2350, 2366, 32, 2324, 2352, 32, 2342, 2371, 2358, 2381, 2351, 45, 2358, 2381, 2352, 2357, 2381, 2351]),
      (''visual_arts'', u8_encode [2342, 2371, 2358, 2381, 2351, 32, 2325, 2354, 2366]),
      (''philosophy_religion'', u8_encode [2342, 2352, 2381, 2358, 2344, 32, 2324, 2352, 32, 2343, 2352, 2381, 2350]),
      (''education'', u8_encode [2358, 2367, 2325, 2381, 2359, 2366, 32, 2324, 2352, 32, 2358, 2367, 2325, 2381, 2359, 2366, 2358, 2366, 2360, 2381, 2340, 2381, 2352]),
      (''languages_linguistics'', u8_encode [2349, 2366, 2359, 2366, 2319, 2305, 32, 2324, 2352, 32, 2349, 2366, 2359, 2366, 2357, 2367, 2332, 2381, 2334, 2366, 2344]),
      (''environment_ecology'', u8_encode [2346, 2352, 2381, 2351, 2366, 2357, 2352, 2339, 32, 2324, 2352, 32, 2346, 2366, 2352, 2367, 2360, 2381, 2341, 2367, 2340, 2367, 2325, 2368]),
      (''agriculture_food'', u8_encode [2325, 2371, 2359, 2367, 32, 2324, 2352, 32, 2349, 2379, 2332, 2344]),
      (''leisure_travel'', u8_encode [2309, 2357, 2325, 2366, 2358, 32, 2324, 2352, 32, 2351, 2366, 2340, 2381, 2352, 2366]),
      (''other'', u8_encode [2309, 2344, 2381, 2351])]"

definition labels_by_lang :: "(string, (string, string) dict) dict" where
  "labels_by_lang =
     [(''fr'', labels_fr), (''en'', labels_en), (''zh'', labels_zh), (''ar'', labels_ar), (''hi'', labels_hi)]"

definition is_valid_slug :: "string \<Rightarrow> bool" where
  "is_valid_slug slug \<longleftrightarrow> slug \<in> set category_slugs"

definition validate_categories :: "string list \<Rightarrow> unit res" where
  "validate_categories slugs =
     raise_if (filter (\<lambda>s. s \<notin> set category_slugs) slugs \<noteq> []) (ValueError ''unknown categor(y/ies)'')"

text \<open>\<open>table.get(lang) or _LABELS_EN\<close>: an unknown language, or an empty table, falls back to English.\<close>

definition label :: "string \<Rightarrow> string \<Rightarrow> string" where
  "label slug lang =
     (let table = (case map_of labels_by_lang lang of None \<Rightarrow> labels_en | Some t \<Rightarrow> if t = [] then labels_en else t)
      in case map_of table slug of None \<Rightarrow> slug | Some l \<Rightarrow> l)"

definition labeled_categories :: "string \<Rightarrow> (string \<times> string) list" where
  "labeled_categories lang = map (\<lambda>slug. (slug, label slug lang)) category_slugs"

section \<open>Properties\<close>

lemma validate_categories_iff [res_simps]:
  "validate_categories slugs = Inr u \<longleftrightarrow> set slugs \<subseteq> set category_slugs"
  by (auto simp: validate_categories_def filter_empty_conv)

lemma category_slugs_distinct: "distinct category_slugs"
  by (simp add: category_slugs_def)

text \<open>Every table has exactly the slugs of the taxonomy, in the order pickers present them.\<close>

lemma label_tables_keys:
  "map fst labels_fr = category_slugs" "map fst labels_en = category_slugs"
  "map fst labels_zh = category_slugs" "map fst labels_ar = category_slugs"
  "map fst labels_hi = category_slugs"
  by (simp_all only: labels_fr_def labels_en_def labels_zh_def labels_ar_def labels_hi_def
      category_slugs_def list.map fst_conv)

lemma labeled_categories_slugs [simp]: "map fst (labeled_categories lang) = category_slugs"
  by (simp add: labeled_categories_def o_def)

lemma label_unknown_slug:
  assumes "slug \<notin> set category_slugs"
  shows "label slug lang = slug"
proof -
  have "map_of t slug = None" if "map fst t = category_slugs" for t :: "(string, string) dict"
    using that assms by (metis list.set_map map_of_eq_None_iff)
  moreover have "map fst t = category_slugs" if "map_of labels_by_lang lang = Some t" for t
    using that label_tables_keys by (auto simp: labels_by_lang_def split: if_split_asm)
  ultimately show ?thesis
    using label_tables_keys(2) by (auto simp: label_def Let_def split: option.split)
qed

lemma label_unknown_lang: "lang \<notin> {''fr'', ''en'', ''zh'', ''ar'', ''hi''} \<Longrightarrow> label slug lang = label slug ''en''"
  by (auto simp: label_def labels_by_lang_def)

end
