(* ===== verification/Manifest.thy ===== *)
theory Manifest
  imports Crypto Taxonomy
begin

text \<open>
  bundle/manifest.py: building a manifest from a directory, signing and verifying it, checking a
  directory against it, expiry, and the two identifiers derived from it (the content key and the
  manifest reference).  A manifest is a \<open>json\<close> dictionary, as it is in the source.
\<close>

definition max_bundle_files :: nat where "max_bundle_files = 1000"
definition max_bundle_total_size :: nat where "max_bundle_total_size = 50 * 1024 * 1024"
definition default_ttl_seconds :: int where "default_ttl_seconds = 30 * 24 * 3600"

section \<open>Creation\<close>

definition rel_posix :: "path \<Rightarrow> path \<Rightarrow> string" where
  "rel_posix base p = join ''/'' (drop (length base) p)"

definition file_entry :: "env \<Rightarrow> path \<Rightarrow> path \<Rightarrow> (json \<times> nat) io" where
  "file_entry E site p =
     io_bind (hash_file E p) (\<lambda>h. io_bind (read_bytes p) (\<lambda>b.
       io_ret (JDict [(''path'', JStr (rel_posix site p)), (''hash'', JStr h), (''size'', JInt (int (length b)))],
         length b)))"

definition create_manifest ::
  "env \<Rightarrow> int \<Rightarrow> path \<Rightarrow> string \<Rightarrow> string \<Rightarrow> int \<Rightarrow> int \<Rightarrow> string list \<Rightarrow> json io" where
  "create_manifest E now site uri author version ttl categories fs =
     (let cats = (if categories = [] then [''other''] else categories) in
      io_bind (io_lift (validate_categories cats)) (\<lambda>_.
      io_bind (io_map (file_entry E site) (md_under fs site)) (\<lambda>files.
      let total = sum_list (map snd files) in
      if length files > max_bundle_files then io_raise (ValueError ''Too many files'')
      else if total > max_bundle_total_size then io_raise (ValueError ''Bundle too large'')
      else io_ret (JDict
        [(''uri'', JStr uri), (''author'', JStr author), (''version'', JInt version),
         (''timestamp'', JInt now), (''expires_at'', JInt (now + ttl)),
         (''categories'', JList (map JStr cats)), (''files'', JList (map fst files)),
         (''total_size'', JInt (int total)), (''file_count'', JInt (int (length files)))])))) fs"

definition is_manifest_expired :: "int \<Rightarrow> json \<Rightarrow> bool res" where
  "is_manifest_expired now m =
     bindE (py_get m ''expires_at'' JNull) (\<lambda>e. if e = JNull then Inr False else int_greater now e)"

section \<open>Signing\<close>

definition sign_manifest :: "env \<Rightarrow> jdict \<Rightarrow> string \<Rightarrow> jdict \<times> string" where
  "sign_manifest E m sk =
     (let signed = AList.update ''public_key'' (JStr (public_key_to_b64 (pub_of E sk))) m
      in (signed, b64_encode (ed_sign E sk (canonical_json E (JDict signed)))))"

definition verify_manifest :: "env \<Rightarrow> json \<Rightarrow> json \<Rightarrow> string \<Rightarrow> bool res" where
  "verify_manifest E m sig pk =
     bindE (py_get m ''public_key'' (JStr [])) (\<lambda>k.
       if k \<noteq> JStr (public_key_to_b64 pk) then Inr False
       else bindE (b64decode sig) (\<lambda>s. Inr (ed_verify E pk s (canonical_json E m))))"

definition compute_content_key :: "env \<Rightarrow> json \<Rightarrow> json \<Rightarrow> string" where
  "compute_content_key E uri pk = ''/mdp2p/'' @ hexdigest E (py_str E uri @ '':'' @ py_str E pk)"

definition compute_manifest_ref :: "env \<Rightarrow> json \<Rightarrow> string" where
  "compute_manifest_ref E m = hexdigest E (canonical_json E m)"

section \<open>Checking a directory\<close>

text \<open>One entry of \<open>manifest["files"]\<close>: its path and the error it adds, if any.\<close>

definition verify_entry :: "env \<Rightarrow> path \<Rightarrow> json \<Rightarrow> (json \<times> string list) io" where
  "verify_entry E site entry =
     io_bind (io_lift (py_item entry ''path'')) (\<lambda>path.
     io_bind (io_lift (hashable path)) (\<lambda>_.
     case validate_path site path of
       Inl e \<Rightarrow>
         if is_value_error e then io_ret (path, [''INVALID_PATH: '' @ py_str E path]) else io_raise e
     | Inr fpath \<Rightarrow> (\<lambda>fs.
         if \<not> fexists fs fpath then io_ret (path, [''MISSING: '' @ py_str E path]) fs
         else io_bind (hash_file E fpath) (\<lambda>h.
              io_bind (io_lift (py_item entry ''hash'')) (\<lambda>want.
              io_ret (path, if JStr h \<noteq> want then [''CORRUPTED: '' @ py_str E path] else []))) fs)))"

definition verify_files :: "env \<Rightarrow> json \<Rightarrow> path \<Rightarrow> string list io" where
  "verify_files E m site fs =
     io_bind (io_lift (bindE (py_item m ''files'') py_iter)) (\<lambda>entries.
     io_bind (io_map (verify_entry E site) entries) (\<lambda>seen.
     io_ret (concat (map snd seen) @
       map (\<lambda>p. ''UNAUTHORIZED: '' @ rel_posix site p)
         (filter (\<lambda>p. JStr (rel_posix site p) \<notin> set (map fst seen)) (md_under fs site))))) fs"

section \<open>Reading does not write\<close>

lemma read_bytes_Inr [simp]:
  "read_bytes p fs = (Inr c, fs') \<longleftrightarrow> at_path fs p = Some (File c) \<and> fs' = fs"
  by (auto simp: read_bytes_def split: option.split node.split)

lemma hash_file_Inr [simp]:
  "hash_file E p fs = (Inr h, fs') \<longleftrightarrow> (\<exists>c. at_path fs p = Some (File c) \<and> h = hexdigest E c) \<and> fs' = fs"
  by (auto simp: hash_file_def io_bind_Inr)

lemma io_map_read:
  assumes "\<And>x y fs'. f x fs = (Inr y, fs') \<longleftrightarrow> P x y \<and> fs' = fs"
  shows "io_map f xs fs = (Inr ys, fs') \<longleftrightarrow> list_all2 P xs ys \<and> fs' = fs"
  by (induction xs arbitrary: ys fs') (auto simp: io_bind_Inr assms list_all2_Cons1)

definition entry_of :: "env \<Rightarrow> path \<Rightarrow> path \<Rightarrow> string \<Rightarrow> json" where
  "entry_of E site p c =
     JDict [(''path'', JStr (rel_posix site p)), (''hash'', JStr (hexdigest E c)), (''size'', JInt (int (length c)))]"

lemma file_entry_Inr:
  "file_entry E site p fs = (Inr y, fs') \<longleftrightarrow>
     (\<exists>c. at_path fs p = Some (File c) \<and> y = (entry_of E site p c, length c)) \<and> fs' = fs"
  by (auto simp: file_entry_def io_bind_Inr entry_of_def)

lemma file_entries_Inr:
  "io_map (file_entry E site) ps fs = (Inr ys, fs') \<longleftrightarrow>
     list_all2 (\<lambda>p y. \<exists>c. at_path fs p = Some (File c) \<and> y = (entry_of E site p c, length c)) ps ys \<and> fs' = fs"
  by (rule io_map_read) (rule file_entry_Inr)

lemma create_manifest_Inr:
  "create_manifest E now site uri author version ttl categories fs = (Inr m, fs') \<longleftrightarrow>
     fs' = fs \<and> (\<exists>files cats. cats = (if categories = [] then [''other''] else categories) \<and>
       set cats \<subseteq> set category_slugs \<and>
       list_all2 (\<lambda>p y. \<exists>c. at_path fs p = Some (File c) \<and> y = (entry_of E site p c, length c)) (md_under fs site) files \<and>
       length files \<le> 1000 \<and> sum_list (map snd files) \<le> 52428800 \<and>
       m = JDict [(''uri'', JStr uri), (''author'', JStr author), (''version'', JInt version),
         (''timestamp'', JInt now), (''expires_at'', JInt (now + ttl)),
         (''categories'', JList (map JStr cats)), (''files'', JList (map fst files)),
         (''total_size'', JInt (int (sum_list (map snd files)))), (''file_count'', JInt (int (length files)))])"
proof (cases "validate_categories (if categories = [] then [''other''] else categories)")
  case (Inl e)
  then have "\<not> set (if categories = [] then [''other''] else categories) \<subseteq> set category_slugs"
    using validate_categories_iff by (metis Inl_Inr_False)
  with Inl show ?thesis by (simp add: create_manifest_def io_bind_def io_lift_def)
next
  case (Inr u)
  then have "set (if categories = [] then [''other''] else categories) \<subseteq> set category_slugs"
    using validate_categories_iff by blast
  with Inr show ?thesis
    unfolding create_manifest_def Let_def Inr io_bind_lift_Inr io_bind_Inr file_entries_Inr
    by (auto simp: max_bundle_files_def max_bundle_total_size_def not_less split: if_split_asm)
qed

text \<open>The signed manifest differs from its input in the key field only, and verifies under the signer's key.\<close>

lemma sign_manifest_verifies:
  assumes "ed25519_ok E" and "sign_manifest E m sk = (signed, sig)"
  shows "verify_manifest E (JDict signed) (JStr sig) (pub_of E sk) = Inr True"
  using assms
  by (auto simp: sign_manifest_def verify_manifest_def Let_def ed25519_ok_def get_or_def)

lemma verify_manifest_True:
  "verify_manifest E m sig pk = Inr True \<longleftrightarrow>
     (\<exists>d s. m = JDict d \<and> get_or d ''public_key'' (JStr []) = JStr (public_key_to_b64 pk) \<and>
       b64decode sig = Inr s \<and> ed_verify E pk s (canonical_json E m))"
  by (auto simp: verify_manifest_def res_simps py_get_Inr_iff)

lemma manifest_ref_eq:
  assumes "inj (sha256 E)" and "jwf a" "no_float a" "jwf b" "no_float b"
    and "compute_manifest_ref E a = compute_manifest_ref E b"
  shows "sort_keys a = sort_keys b"
  using assms by (simp add: compute_manifest_ref_def hexdigest_eq inj_eq canonical_json_eq)

section \<open>Checking\<close>

lemma verify_entry_ok:
  "verify_entry E site entry fs = (Inr (path, []), fs') \<longleftrightarrow>
     fs' = fs \<and> (\<exists>d rel c. entry = JDict d \<and> map_of d ''path'' = Some (JStr rel) \<and> path = JStr rel \<and> rel_ok rel \<and>
       at_path fs (site @ split_on (CHR ''/'') rel) = Some (File c) \<and>
       map_of d ''hash'' = Some (JStr (hexdigest E c)))"
  (is "?l \<longleftrightarrow> ?r")
proof
  assume l: ?l
  then obtain x where x: "py_item entry ''path'' = Inr x"
    by (auto simp: verify_entry_def io_bind_Inr)
  with l obtain p where v: "validate_path site x = Inr p"
    by (cases "validate_path site x") (auto simp: verify_entry_def io_bind_Inr split: if_split_asm)
  have "path = x" "fs' = fs" and "\<exists>c. at_path fs p = Some (File c) \<and> py_item entry ''hash'' = Inr (JStr (hexdigest E c))"
    using l by (auto simp: verify_entry_def io_bind_Inr x v split: if_split_asm)
  then show ?r using x v by (auto simp: py_item_Inr_iff validate_path_iff)
next
  assume ?r
  then obtain d rel c where *: "fs' = fs" "entry = JDict d" "map_of d ''path'' = Some (JStr rel)" "path = JStr rel"
      "at_path fs (site @ split_on (CHR ''/'') rel) = Some (File c)" "map_of d ''hash'' = Some (JStr (hexdigest E c))"
    and "rel_ok rel" by blast
  then have "validate_path site (JStr rel) = Inr (site @ split_on (CHR ''/'') rel)"
    by (simp add: validate_path_iff)
  with * show ?l by (auto simp: verify_entry_def io_bind_Inr fexists_def)
qed

lemma verify_entry_Inr:
  "verify_entry E site entry fs = (Inr (path, errs), fs') \<Longrightarrow>
     fs' = fs \<and> py_item entry ''path'' = Inr path \<and> (errs = [] \<longrightarrow> verify_entry E site entry fs = (Inr (path, []), fs))"
proof -
  assume v: "verify_entry E site entry fs = (Inr (path, errs), fs')"
  then obtain x where x: "py_item entry ''path'' = Inr x"
    by (auto simp: verify_entry_def io_bind_Inr)
  have "fs' = fs \<and> path = x"
    using v x
    by (cases "validate_path site x")
      (auto simp: verify_entry_def io_bind_Inr split: if_split_asm)
  with v x show ?thesis by auto
qed

definition listed :: "env \<Rightarrow> path \<Rightarrow> fsys \<Rightarrow> json \<Rightarrow> json \<Rightarrow> bool" where
  "listed E site fs entry path \<longleftrightarrow>
     (\<exists>d rel c. entry = JDict d \<and> map_of d ''path'' = Some (JStr rel) \<and> path = JStr rel \<and> rel_ok rel \<and>
       at_path fs (site @ split_on (CHR ''/'') rel) = Some (File c) \<and>
       map_of d ''hash'' = Some (JStr (hexdigest E c)))"

lemma verify_entries_ok:
  "io_map (verify_entry E site) entries fs = (Inr seen, fs') \<and> concat (map snd seen) = [] \<longleftrightarrow>
     fs' = fs \<and> list_all2 (listed E site fs) entries (map fst seen) \<and> (\<forall>y \<in> set seen. snd y = [])"
proof (induction entries arbitrary: seen)
  case (Cons e es)
  have one: "verify_entry E site e fs = (Inr y, fs1) \<and> snd y = [] \<longleftrightarrow> fs1 = fs \<and> listed E site fs e (fst y) \<and> snd y = []"
    for y fs1
    using verify_entry_ok [of E site e fs "fst y" fs1] by (cases y) (auto simp: listed_def)
  show ?case
  proof
    assume l: "io_map (verify_entry E site) (e # es) fs = (Inr seen, fs') \<and> concat (map snd seen) = []"
    then obtain y ys fs1 where "verify_entry E site e fs = (Inr y, fs1)" "seen = y # ys"
        "io_map (verify_entry E site) es fs1 = (Inr ys, fs')"
      by (auto simp: io_bind_Inr)
    with l one [of y fs1] Cons.IH [of ys] show
      "fs' = fs \<and> list_all2 (listed E site fs) (e # es) (map fst seen) \<and> (\<forall>y \<in> set seen. snd y = [])"
      by auto
  next
    assume r: "fs' = fs \<and> list_all2 (listed E site fs) (e # es) (map fst seen) \<and> (\<forall>y \<in> set seen. snd y = [])"
    then obtain y ys where "seen = y # ys" by (cases seen) auto
    with r one [of y fs] Cons.IH [of ys] show
      "io_map (verify_entry E site) (e # es) fs = (Inr seen, fs') \<and> concat (map snd seen) = []"
      by (auto simp: io_bind_Inr)
  qed
qed auto

text \<open>
  No error reported: every entry is a file of the directory with the listed hash under a safe path, and
  every Markdown file of the directory is listed.
\<close>

lemma verify_files_ok:
  "verify_files E m site fs = (Inr [], fs') \<longleftrightarrow>
     fs' = fs \<and> (\<exists>entries paths. bindE (py_item m ''files'') py_iter = Inr entries \<and>
       list_all2 (listed E site fs) entries paths \<and>
       (\<forall>p \<in> set (md_under fs site). JStr (rel_posix site p) \<in> set paths))"
  (is "?l \<longleftrightarrow> ?r")
proof
  assume ?l
  then obtain entries seen fs1 where e: "bindE (py_item m ''files'') py_iter = Inr entries"
      and s: "io_map (verify_entry E site) entries fs = (Inr seen, fs1)" "concat (map snd seen) = []" "fs' = fs1"
      and u: "filter (\<lambda>p. JStr (rel_posix site p) \<notin> set (map fst seen)) (md_under fs site) = []"
    by (auto simp: verify_files_def io_bind_Inr)
  have "fs' = fs \<and> list_all2 (listed E site fs) entries (map fst seen)"
    using verify_entries_ok s by blast
  moreover have "\<forall>p \<in> set (md_under fs site). JStr (rel_posix site p) \<in> set (map fst seen)"
    using u unfolding filter_empty_conv by blast
  ultimately show ?r using e by blast
next
  assume ?r
  then obtain entries paths where e: "bindE (py_item m ''files'') py_iter = Inr entries" "fs' = fs"
      and p: "list_all2 (listed E site fs) entries paths"
      and u: "\<forall>p \<in> set (md_under fs site). JStr (rel_posix site p) \<in> set paths"
    by blast
  define seen where "seen = map (\<lambda>p. (p, [] :: string list)) paths"
  have f: "map fst seen = paths" by (simp add: seen_def o_def)
  have "io_map (verify_entry E site) entries fs = (Inr seen, fs) \<and> concat (map snd seen) = []"
    unfolding verify_entries_ok f using p by (auto simp: seen_def)
  moreover have "filter (\<lambda>p. JStr (rel_posix site p) \<notin> set (map fst seen)) (md_under fs site) = []"
    using u unfolding filter_empty_conv f by blast
  ultimately show ?l using e by (auto simp: verify_files_def io_bind_Inr)
qed

text \<open>
  A manifest just made from a directory verifies against it, whenever the names of its files are
  names a bundle may have.
\<close>

lemma created_manifest_verifies:
  assumes "create_manifest E now site uri author version ttl cats fs = (Inr m, fs')"
    and "\<forall>p \<in> set (md_under fs site). rel_ok (rel_posix site p) \<and> site @ split_on (CHR ''/'') (rel_posix site p) = p"
  shows "verify_files E m site fs = (Inr [], fs)"
proof -
  from assms(1) obtain files where f:
      "list_all2 (\<lambda>p y. \<exists>c. at_path fs p = Some (File c) \<and> y = (entry_of E site p c, length c)) (md_under fs site) files"
      and m: "py_item m ''files'' = Inr (JList (map fst files))"
    by (auto simp: create_manifest_Inr)
  have "list_all2 (\<lambda>p y. listed E site fs (fst y) (JStr (rel_posix site p))) (md_under fs site) files"
    by (rule list.rel_mono_strong [OF f]) (use assms(2) in \<open>auto simp: listed_def entry_of_def\<close>)
  then have "list_all2 (listed E site fs) (map fst files) (map (\<lambda>p. JStr (rel_posix site p)) (md_under fs site))"
    by (auto simp: list_all2_conv_all_nth)
  then show ?thesis
    unfolding verify_files_ok using m
    by (intro conjI exI [of _ "map fst files"] exI [of _ "map (\<lambda>p. JStr (rel_posix site p)) (md_under fs site)"]) auto
qed

end
