(* ===== verification/ReviewRecords.thy ===== *)
theory ReviewRecords
  imports Manifest
begin

text \<open>
  review/record.py: reviewer opt-ins, review assignments and review records; each is built, signed and
  verified as the naming records are, with its own shape checks.  All three interpret
  \<open>record_verifier\<close>.
\<close>

definition max_review_drift_seconds :: int where "max_review_drift_seconds = 300"

definition valid_verdicts :: "string list" where
  "valid_verdicts = [''ok'', ''warn'', ''reject'']"

definition or_now :: "int \<Rightarrow> int option \<Rightarrow> int" where
  "or_now now t = (case t of Some n \<Rightarrow> n | None \<Rightarrow> now)"

fun str_list :: "json \<Rightarrow> bool" where
  "str_list (JList xs) = list_all is_str xs"
| "str_list v = False"

section \<open>Reviewer opt-in\<close>

definition build_reviewer_opt_in ::
  "int \<Rightarrow> string \<Rightarrow> string \<Rightarrow> string list \<Rightarrow> string list \<Rightarrow> int option \<Rightarrow> jdict res" where
  "build_reviewer_opt_in now pk64 peer_id addrs categories timestamp =
     bindE (validate_categories categories) (\<lambda>_.
       Inr [(''public_key'', JStr pk64), (''peer_id'', JStr peer_id), (''addrs'', JList (map JStr addrs)),
            (''categories'', JList (map JStr categories)), (''timestamp'', JInt (or_now now timestamp))])"

definition sign_reviewer_opt_in :: "env \<Rightarrow> json \<Rightarrow> string \<Rightarrow> string res" where
  "sign_reviewer_opt_in E record sk = sign_by E ''public_key'' record sk"

definition opt_in_fields :: "string list" where
  "opt_in_fields = [''public_key'', ''peer_id'', ''addrs'', ''categories'', ''timestamp'']"

definition verify_reviewer_opt_in :: "env \<Rightarrow> int \<Rightarrow> int option \<Rightarrow> json \<Rightarrow> json \<Rightarrow> (bool \<times> string) res" where
  "verify_reviewer_opt_in E now max_drift record sig =
     bindE (missing_fields opt_in_fields record) (\<lambda>missing.
     if missing \<noteq> [] then Inr (False, ''missing fields: '' @ join '', '' missing) else
     bindE (py_item record ''categories'') (\<lambda>cats.
     if \<not> is_list cats then Inr (False, ''categories must be a list'') else
     bindE (py_item record ''addrs'') (\<lambda>addrs.
     if \<not> str_list addrs then Inr (False, ''addrs must be a list of strings'') else
     bindE (py_item record ''peer_id'') (\<lambda>pid.
     if \<not> is_str pid \<or> \<not> truthy pid then Inr (False, ''peer_id must be a non-empty string'')
     else Inr (verify_tail E now max_drift ''public_key'' record sig)))))"

section \<open>Review assignment\<close>

definition build_review_assignment ::
  "env \<Rightarrow> int \<Rightarrow> string \<Rightarrow> string \<Rightarrow> string list \<Rightarrow> int \<Rightarrow> int option \<Rightarrow> jdict res" where
  "build_review_assignment E now uri publisher reviewers deadline timestamp =
     (if deadline \<le> 0 then Inl (ValueError ''deadline must be a positive unix timestamp'')
      else if uri = [] then Inl (ValueError ''uri is required'')
      else Inr [(''uri'', JStr uri),
        (''content_key'', JStr (compute_content_key E (JStr uri) (JStr publisher))),
        (''publisher_public_key'', JStr publisher),
        (''reviewer_public_keys'', JList (map JStr reviewers)),
        (''deadline'', JInt deadline), (''timestamp'', JInt (or_now now timestamp))])"

definition sign_review_assignment :: "env \<Rightarrow> json \<Rightarrow> string \<Rightarrow> string res" where
  "sign_review_assignment E record sk = sign_by E ''publisher_public_key'' record sk"

definition assignment_fields :: "string list" where
  "assignment_fields =
     [''uri'', ''content_key'', ''publisher_public_key'', ''reviewer_public_keys'', ''deadline'', ''timestamp'']"

fun int_value :: "json \<Rightarrow> int" where
  "int_value (JInt n) = n" | "int_value (JBool b) = (if b then 1 else 0)" | "int_value v = 0"

definition verify_review_assignment :: "env \<Rightarrow> int \<Rightarrow> int option \<Rightarrow> json \<Rightarrow> json \<Rightarrow> (bool \<times> string) res" where
  "verify_review_assignment E now max_drift record sig =
     bindE (missing_fields assignment_fields record) (\<lambda>missing.
     if missing \<noteq> [] then Inr (False, ''missing fields: '' @ join '', '' missing) else
     bindE (py_item record ''reviewer_public_keys'') (\<lambda>revs.
     if \<not> str_list revs then Inr (False, ''reviewer_public_keys must be a list of strings'') else
     bindE (py_item record ''deadline'') (\<lambda>dl.
     if \<not> is_int dl \<or> int_value dl \<le> 0 then Inr (False, ''deadline must be a positive integer'') else
     bindE (py_get record ''uri'' (JStr [])) (\<lambda>uri.
     bindE (py_get record ''publisher_public_key'' (JStr [])) (\<lambda>pk.
     bindE (py_get record ''content_key'' JNull) (\<lambda>ck.
     if ck \<noteq> JStr (compute_content_key E uri pk)
     then Inr (False, ''content_key does not match (uri, publisher_public_key)'')
     else Inr (verify_tail E now max_drift ''publisher_public_key'' record sig)))))))"

section \<open>Review record\<close>

definition build_review_record ::
  "int \<Rightarrow> string \<Rightarrow> string \<Rightarrow> string \<Rightarrow> string \<Rightarrow> int option \<Rightarrow> jdict res" where
  "build_review_record now content_key reviewer verdict comment timestamp =
     (if verdict \<notin> set valid_verdicts then Inl (ValueError ''verdict must be one of VALID_VERDICTS'')
      else Inr [(''content_key'', JStr content_key), (''reviewer_public_key'', JStr reviewer),
        (''verdict'', JStr verdict), (''comment'', JStr comment), (''timestamp'', JInt (or_now now timestamp))])"

definition sign_review_record :: "env \<Rightarrow> json \<Rightarrow> string \<Rightarrow> string res" where
  "sign_review_record E record sk = sign_by E ''reviewer_public_key'' record sk"

definition review_fields :: "string list" where
  "review_fields = [''content_key'', ''reviewer_public_key'', ''verdict'', ''comment'', ''timestamp'']"

definition verify_review_record :: "env \<Rightarrow> int \<Rightarrow> int option \<Rightarrow> json \<Rightarrow> json \<Rightarrow> (bool \<times> string) res" where
  "verify_review_record E now max_drift record sig =
     bindE (missing_fields review_fields record) (\<lambda>missing.
     if missing \<noteq> [] then Inr (False, ''missing fields: '' @ join '', '' missing) else
     bindE (py_item record ''verdict'') (\<lambda>v.
     if v \<notin> set (map JStr valid_verdicts) then Inr (False, ''invalid verdict'')
     else Inr (verify_tail E now max_drift ''reviewer_public_key'' record sig)))"

section \<open>Properties\<close>

lemma str_list_iff: "str_list v \<longleftrightarrow> (\<exists>ss. v = JList (map JStr ss))"
proof (cases v)
  case (JList xs)
  have "list_all is_str xs \<longleftrightarrow> (\<exists>ss. xs = map JStr ss)"
  proof (induction xs)
    case (Cons x xs)
    then show ?case by (cases x) (auto simp: Cons_eq_map_conv)
  qed simp
  then show ?thesis using JList by auto
qed auto

definition opt_in_wf :: "jdict \<Rightarrow> bool" where
  "opt_in_wf d \<longleftrightarrow> (\<forall>f \<in> set opt_in_fields. map_of d f \<noteq> None) \<and>
     (\<exists>cs. map_of d ''categories'' = Some (JList cs)) \<and>
     (\<exists>as. map_of d ''addrs'' = Some (JList (map JStr as))) \<and>
     (\<exists>p. map_of d ''peer_id'' = Some (JStr p) \<and> p \<noteq> [])"

definition assignment_wf :: "env \<Rightarrow> jdict \<Rightarrow> bool" where
  "assignment_wf E d \<longleftrightarrow> (\<forall>f \<in> set assignment_fields. map_of d f \<noteq> None) \<and>
     (\<exists>rs. map_of d ''reviewer_public_keys'' = Some (JList (map JStr rs))) \<and>
     (\<exists>dl. map_of d ''deadline'' = Some dl \<and> is_int dl \<and> 0 < int_value dl) \<and>
     map_of d ''content_key'' =
       Some (JStr (compute_content_key E (get_or d ''uri'' (JStr [])) (get_or d ''publisher_public_key'' (JStr []))))"

definition review_wf :: "jdict \<Rightarrow> bool" where
  "review_wf d \<longleftrightarrow> (\<forall>f \<in> set review_fields. map_of d f \<noteq> None) \<and>
     (\<exists>v \<in> set valid_verdicts. map_of d ''verdict'' = Some (JStr v))"

lemma is_list_iff: "is_list v \<longleftrightarrow> (\<exists>xs. v = JList xs)"
  by (cases v) auto

lemma is_str_iff: "is_str v \<longleftrightarrow> (\<exists>s. v = JStr s)"
  by (cases v) auto

interpretation opt_in: record_verifier E "''public_key''" "verify_reviewer_opt_in E" "sign_reviewer_opt_in E" opt_in_wf
  for E
proof unfold_locales
  fix now md d s m
  show "verify_reviewer_opt_in E now md (JDict d) s = Inr (True, m) \<longleftrightarrow>
      m = [] \<and> opt_in_wf d \<and> fresh now md (JDict d) \<and> sig_valid E ''public_key'' (JDict d) s"
  proof (cases "\<forall>f \<in> set opt_in_fields. map_of d f \<noteq> None")
    case False
    then show ?thesis
      by (auto simp: verify_reviewer_opt_in_def missing_fields_dict filter_empty_conv opt_in_wf_def)
  next
    case True
    then have m: "missing_fields opt_in_fields (JDict d) = Inr []"
      by (simp add: missing_fields_dict filter_empty_conv)
    obtain c a p where "map_of d ''categories'' = Some c" "map_of d ''addrs'' = Some a" "map_of d ''peer_id'' = Some p"
      using True by (auto simp: opt_in_fields_def)
    then show ?thesis
      using True
      by (auto simp: verify_reviewer_opt_in_def m opt_in_wf_def verify_tail_True str_list_iff is_list_iff is_str_iff)
  qed
next
  fix now md r s m
  assume "verify_reviewer_opt_in E now md r s = Inr (True, m)"
  then show "\<exists>d. r = JDict d"
    by (auto simp: verify_reviewer_opt_in_def res_simps py_item_Inr_iff split: if_split_asm)
next
  show "sign_reviewer_opt_in E = sign_by E ''public_key''"
    by (intro ext) (simp add: sign_reviewer_opt_in_def)
qed

interpretation assignment: record_verifier E "''publisher_public_key''" "verify_review_assignment E"
  "sign_review_assignment E" "assignment_wf E"
  for E
proof unfold_locales
  fix now md d s m
  show "verify_review_assignment E now md (JDict d) s = Inr (True, m) \<longleftrightarrow>
      m = [] \<and> assignment_wf E d \<and> fresh now md (JDict d) \<and> sig_valid E ''publisher_public_key'' (JDict d) s"
  proof (cases "\<forall>f \<in> set assignment_fields. map_of d f \<noteq> None")
    case False
    then show ?thesis
      by (auto simp: verify_review_assignment_def missing_fields_dict filter_empty_conv assignment_wf_def)
  next
    case True
    then have m: "missing_fields assignment_fields (JDict d) = Inr []"
      by (simp add: missing_fields_dict filter_empty_conv)
    obtain c a p where "map_of d ''reviewer_public_keys'' = Some c" "map_of d ''deadline'' = Some a" "map_of d ''content_key'' = Some p"
      using True by (auto simp: assignment_fields_def)
    then show ?thesis
      using True
      by (auto simp: verify_review_assignment_def m assignment_wf_def verify_tail_True str_list_iff)
  qed
next
  fix now md r s m
  assume "verify_review_assignment E now md r s = Inr (True, m)"
  then show "\<exists>d. r = JDict d"
    by (auto simp: verify_review_assignment_def res_simps py_item_Inr_iff split: if_split_asm)
next
  show "sign_review_assignment E = sign_by E ''publisher_public_key''"
    by (intro ext) (simp add: sign_review_assignment_def)
qed

interpretation review: record_verifier E "''reviewer_public_key''" "verify_review_record E" "sign_review_record E" review_wf
  for E
proof unfold_locales
  fix now md d s m
  show "verify_review_record E now md (JDict d) s = Inr (True, m) \<longleftrightarrow>
      m = [] \<and> review_wf d \<and> fresh now md (JDict d) \<and> sig_valid E ''reviewer_public_key'' (JDict d) s"
  proof (cases "\<forall>f \<in> set review_fields. map_of d f \<noteq> None")
    case False
    then show ?thesis
      by (auto simp: verify_review_record_def missing_fields_dict filter_empty_conv review_wf_def)
  next
    case True
    then have m: "missing_fields review_fields (JDict d) = Inr []"
      by (simp add: missing_fields_dict filter_empty_conv)
    obtain v where "map_of d ''verdict'' = Some v"
      using True by (auto simp: review_fields_def)
    then show ?thesis
      using True by (auto simp: verify_review_record_def m review_wf_def verify_tail_True)
  qed
next
  fix now md r s m
  assume "verify_review_record E now md r s = Inr (True, m)"
  then show "\<exists>d. r = JDict d"
    by (auto simp: verify_review_record_def res_simps py_item_Inr_iff split: if_split_asm)
next
  show "sign_review_record E = sign_by E ''reviewer_public_key''"
    by (intro ext) (simp add: sign_review_record_def)
qed

text \<open>What the builders produce passes the verifiers' shape checks.\<close>

lemma build_reviewer_opt_in_wf:
  "build_reviewer_opt_in now pk pid addrs cats t = Inr d \<Longrightarrow> pid \<noteq> [] \<Longrightarrow> opt_in_wf d"
  by (auto simp: build_reviewer_opt_in_def res_simps opt_in_wf_def opt_in_fields_def)

lemma build_review_assignment_wf:
  "build_review_assignment E now uri pk revs dl t = Inr d \<Longrightarrow> assignment_wf E d"
  by (auto simp: build_review_assignment_def assignment_wf_def assignment_fields_def get_or_def split: if_split_asm)

lemma build_review_record_wf:
  "build_review_record now ck pk v c t = Inr d \<Longrightarrow> review_wf d"
  by (auto simp: build_review_record_def review_wf_def review_fields_def split: if_split_asm)

end
