(* ===== verification/AtomicFile.thy ===== *)
theory AtomicFile
  imports FileSys
begin

text \<open>
  How the pin store (pinstore.py), the four stores of the naming server (naming.py) and the list of settled
  assignments of the reviewer daemon (peer/reviewer_daemon.py) reach the disk: a temporary sibling file is
  written and moved over the real one.  The trust store, the trust policy, the configuration of the client and
  the reviews cached beside a fetched site do not go this way: they are written in place (theories Trust,
  ClientConfig and Peer).
\<close>

section \<open>Atomic replacement of a file\<close>

text \<open>
  The pattern of those stores: create the directory, write a temporary sibling whose name
  is the file's with \<open>ext\<close> appended (\<open>with_suffix(suffix + ext)\<close>), and move it over the file.
\<close>

definition save_atomic :: "string \<Rightarrow> path \<Rightarrow> string \<Rightarrow> unit io" where
  "save_atomic ext p data =
     io_bind (mkdir_p (butlast p)) (\<lambda>_.
     io_bind (write_bytes (butlast p @ [last p @ ext]) data) (\<lambda>_.
     rename (butlast p @ [last p @ ext]) p))"

lemma rename_file:
  assumes "rename p q fs = (Inr u, fs')" and "p \<noteq> q" and "at_path fs p = Some (File c)"
  shows "at_path fs' q = Some (File c)"
  using assms by (elim rename_cases) (simp_all add: at_move_under)

text \<open>
  A reader finds the new contents after a success and the old ones after a failure, at whatever call it
  happened: never a truncated file.
\<close>

lemma save_atomic_result:
  assumes "p \<noteq> []" and "ext \<noteq> []" and "save_atomic ext p data fs = (res, fs')"
  shows "(\<forall>u. res = Inr u \<longrightarrow> at_path fs' p = Some (File data)) \<and> (\<forall>e. res = Inl e \<longrightarrow> at_path fs' p = at_path fs p)"
proof -
  define t where "t = butlast p @ [last p @ ext]"
  have tp: "t \<noteq> p" using assms(1,2) by (cases p rule: rev_cases) (auto simp: t_def)
  obtain r1 fs1 where m: "mkdir_p (butlast p) fs = (r1, fs1)" by (cases "mkdir_p (butlast p) fs")
  have "\<not> prefix p (butlast p)"
    using assms(1) by (cases p rule: rev_cases) (auto dest: prefix_length_le)
  then have p1: "at_path fs1 p = at_path fs p"
    using mkdir_p_added [OF m] unfolding dirs_added_def by metis
  show ?thesis
  proof (cases r1)
    case (Inl e)
    have "io_bind (mkdir_p (butlast p)) k fs = (Inl e, fs1)" for k :: "unit \<Rightarrow> unit io"
      by (simp add: io_bind_def m Inl)
    then have "res = Inl e" "fs' = fs1" using assms(3) by (simp_all add: save_atomic_def)
    with p1 show ?thesis by simp
  next
    case (Inr u)
    obtain r2 fs2 where w: "write_bytes t data fs1 = (r2, fs2)" by (cases "write_bytes t data fs1")
    have p2: "at_path fs2 p = at_path fs1 p" 
      by (rule same_exceptD [OF write_bytes_frame [OF w]]) (use tp in simp)
    show ?thesis
    proof (cases r2)
      case (Inl e)
      have "save_atomic ext p data fs = (Inl e, fs2)"
        using w unfolding t_def by (simp add: save_atomic_def io_bind_def m \<open>r1 = Inr u\<close> Inl)
      then have "res = Inl e" "fs' = fs2" using assms(3) by simp_all
      with p1 p2 show ?thesis by simp
    next
      case (Inr u2)
      have r: "rename t p fs2 = (res, fs')"
        using assms(3) w unfolding t_def by (simp add: save_atomic_def io_bind_def m \<open>r1 = Inr u\<close> Inr)
      have "at_path fs2 t = Some (File data)"
        using w Inr by (auto simp: at_put elim!: write_bytes_cases)
      moreover have "fs' = fs2 \<or> fs' = tick fs2" if "res = Inl e" for e
        using r that by (auto simp: rename_def split: if_split_asm fault.split_asm)
      ultimately show ?thesis using rename_file [of t p fs2 _ fs'] r tp p1 p2 by auto
    qed
  qed
qed

text \<open>The contract of such a save: under every schedule of faults the file has the new text after a success and what it had after a failure.\<close>

definition store_replaced :: "path \<Rightarrow> string \<Rightarrow> unit io \<Rightarrow> bool" where
  "store_replaced p text m \<longleftrightarrow> (\<forall>fs r fs'. m fs = (r, fs') \<longrightarrow>
     at_path fs' p = (case r of Inr u \<Rightarrow> Some (File text) | Inl e \<Rightarrow> at_path fs p))"

lemma replaced_atomic: "p \<noteq> [] \<Longrightarrow> ext \<noteq> [] \<Longrightarrow> store_replaced p text (save_atomic ext p text)"
  unfolding store_replaced_def using save_atomic_result by (fastforce split: sum.split)


section \<open>When a save succeeds\<close>

text \<open>
  Enough for a save to go through: no fault is scheduled, what is above the file is a directory or free, and
  neither the file nor its temporary sibling is a directory.
\<close>

definition can_save :: "string \<Rightarrow> path \<Rightarrow> fsys \<Rightarrow> bool" where
  "can_save ext p fs \<longleftrightarrow> p \<noteq> [] \<and> faults fs = [] \<and>
     (\<forall>q \<in> set (prefixes (butlast p)). at_path fs q = None \<or> at_path fs q = Some Dir) \<and>
     \<not> is_directory fs p \<and> \<not> is_directory fs (butlast p @ [last p @ ext])"

lemma mkdir_step_ok:
  assumes "faults fs = []" "at_path fs q = None \<or> at_path fs q = Some Dir" "is_directory fs (butlast q)"
  shows "\<exists>fs'. mkdir_step q fs = (Inr (), fs') \<and> faults fs' = []"
proof (cases "is_directory fs q")
  case False
  then have "at_path fs q = None" "q \<noteq> []" using assms(2) by (auto simp: is_directory_def)
  then show ?thesis
    using assms by (simp add: mkdir_step_def mkdir_def fexists_def is_directory_def next_fault_def tick_def put_def)
qed (use assms(1) in \<open>simp add: mkdir_step_def\<close>)

lemma mkdir_p_snoc: "mkdir_p (p @ [x]) = io_bind (mkdir_p p) (\<lambda>_. mkdir_step (p @ [x]))"
proof -
  have "io_each f (xs @ [y]) = io_bind (io_each f xs) (\<lambda>_. f y)" for f :: "path \<Rightarrow> unit io" and xs y
  proof (induction xs)
    case Nil
    show ?case by (rule ext) (auto simp: io_bind_def io_ret_def split: prod.split sum.split)
  next
    case (Cons a xs)
    then show ?case by (auto simp: fun_eq_iff io_bind_def split: prod.split sum.split)
  qed
  moreover have "prefixes (p @ [x]) = prefixes p @ [p @ [x]]"
    by (simp add: prefixes_snoc)
  ultimately show ?thesis unfolding mkdir_p_def by metis
qed

lemma mkdir_p_ok:
  assumes "faults fs = []" "\<forall>q \<in> set (prefixes p). at_path fs q = None \<or> at_path fs q = Some Dir"
  shows "\<exists>fs'. mkdir_p p fs = (Inr (), fs') \<and> faults fs' = []"
  using assms(2)
proof (induction p rule: rev_induct)
  case Nil
  show ?case using assms(1) by (simp add: mkdir_p_def mkdir_step_def is_directory_def io_bind_def io_ret_def)
next
  case (snoc x p)
  then obtain fs1 where 1: "mkdir_p p fs = (Inr (), fs1)" "faults fs1 = []" by (auto simp: prefixes_snoc)
  have "at_path fs (p @ [x]) = None \<or> at_path fs (p @ [x]) = Some Dir" using snoc.prems by (simp add: prefixes_snoc)
  then have "at_path fs1 (p @ [x]) = None \<or> at_path fs1 (p @ [x]) = Some Dir"
    using mkdir_p_added [OF 1(1)] unfolding dirs_added_def by metis
  moreover have "is_directory fs1 (butlast (p @ [x]))" using mkdir_p_Inr [OF 1(1), of p] by (simp add: is_directory_def)
  ultimately show ?case
    using mkdir_step_ok [OF 1(2), of "p @ [x]"] unfolding mkdir_p_snoc io_bind_def 1(1) by simp
qed

lemma save_atomic_ok:
  assumes "can_save ext p fs" "ext \<noteq> []"
  shows "\<exists>fs'. save_atomic ext p data fs = (Inr (), fs')"
proof -
  let ?t = "butlast p @ [last p @ ext]"
  have p: "p \<noteq> []" "?t \<noteq> p" "?t \<noteq> []" and f: "faults fs = []"
    using assms by (cases p rule: rev_cases; simp add: can_save_def)+
  obtain fs1 where m: "mkdir_p (butlast p) fs = (Inr (), fs1)" "faults fs1 = []"
    using mkdir_p_ok [OF f] assms(1) unfolding can_save_def by blast
  have d: "is_directory fs1 (butlast p)" using mkdir_p_Inr [OF m(1), of "butlast p"] by (simp add: is_directory_def)
  have n: "\<not> is_directory fs1 (butlast p @ [y])" if "\<not> is_directory fs (butlast p @ [y])" for y
    using mkdir_p_added [OF m(1)] that unfolding dirs_added_def is_directory_def
    by (metis Sublist.prefix_length_le length_append_singleton not_less_eq_eq order_refl)
  have "\<not> is_directory fs1 p" "\<not> is_directory fs1 ?t"
    using n [of "last p"] n [of "last p @ ext"] assms(1) p(1) by (simp_all add: can_save_def)
  moreover have "\<not> prefix ?t p" "\<not> prefix p ?t"
    using p(1,2) by (cases p rule: rev_cases; auto simp: prefix_def)+
  ultimately show ?thesis
    using d p m(2)
    by (simp add: save_atomic_def io_bind_def m(1) write_bytes_def next_fault_def rename_def rename_allowed_def
        is_directory_def at_put tick_def butlast_append put_def at_path_def split: if_split_asm)
qed

end
