(* ===== verification/PinStore.thy ===== *)
theory PinStore
  imports JsonText AtomicFile
begin

text \<open>
  pinstore.py: trust on first use.  The pins are a JSON dictionary on disk, replaced atomically; the
  process id names the temporary file.
\<close>

datatype pin_status = Unknown | Match | Mismatch | Rollback

definition load_pinstore :: "env \<Rightarrow> path \<Rightarrow> json io" where
  "load_pinstore E p fs =
     (if \<not> fexists fs p then (Inr (JDict []), fs)
      else io_bind (read_text p) (\<lambda>t. io_lift (loads E t)) fs)"

definition save_pinstore :: "env \<Rightarrow> nat \<Rightarrow> json \<Rightarrow> path \<Rightarrow> unit io" where
  "save_pinstore E pid pins p = save_atomic (''.tmp-'' @ str_of_nat pid) p (dumps_indent_sorted E pins)"

definition check_pin :: "json \<Rightarrow> string \<Rightarrow> json \<Rightarrow> int option \<Rightarrow> pin_status res" where
  "check_pin pins uri pk record_timestamp =
     bindE (py_get pins uri JNull) (\<lambda>entry.
     if entry = JNull then Inr Unknown
     else bindE (py_item entry ''public_key'') (\<lambda>k.
       if k \<noteq> pk then Inr Mismatch
       else bindE (py_get entry ''record_timestamp'' JNull) (\<lambda>seen.
         case record_timestamp of
           None \<Rightarrow> Inr Match
         | Some t \<Rightarrow>
             if seen = JNull then Inr Match
             else bindE (py_int seen) (\<lambda>n. Inr (if t < n then Rollback else Match)))))"

text \<open>\<open>pinstore[uri] = entry\<close>.\<close>

fun set_item :: "json \<Rightarrow> string \<Rightarrow> json \<Rightarrow> json res" where
  "set_item (JDict d) k v = Inr (JDict (AList.update k v d))"
| "set_item x k v = Inl TypeError"

definition pin_entry :: "int \<Rightarrow> json \<Rightarrow> json \<Rightarrow> json \<Rightarrow> int option \<Rightarrow> json res" where
  "pin_entry now pk author existing record_timestamp =
     bindE (if truthy existing then py_item existing ''first_seen'' else Inr (JInt now)) (\<lambda>first.
     Inr (JDict ([(''public_key'', pk), (''author'', author), (''first_seen'', first), (''last_seen'', JInt now)] @
       (case record_timestamp of None \<Rightarrow> [] | Some t \<Rightarrow> [(''record_timestamp'', JInt t)]))))"

definition pin_key :: "env \<Rightarrow> nat \<Rightarrow> int \<Rightarrow> string \<Rightarrow> json \<Rightarrow> json \<Rightarrow> path \<Rightarrow> int option \<Rightarrow> unit io" where
  "pin_key E pid now uri pk author p record_timestamp =
     io_bind (load_pinstore E p) (\<lambda>pins.
     io_bind (io_lift (bindE (py_get pins uri JNull) (\<lambda>existing.
       bindE (pin_entry now pk author existing record_timestamp) (set_item pins uri)))) (\<lambda>pins'.
     save_pinstore E pid pins' p))"

definition unpin_key :: "env \<Rightarrow> nat \<Rightarrow> string \<Rightarrow> path \<Rightarrow> bool io" where
  "unpin_key E pid uri p =
     io_bind (load_pinstore E p) (\<lambda>pins.
     io_bind (io_lift (py_in uri pins)) (\<lambda>present.
     if \<not> present then io_ret False
     else io_bind (io_lift (case pins of JDict d \<Rightarrow> Inr (JDict (AList.delete uri d)) | _ \<Rightarrow> Inl TypeError)) (\<lambda>pins'.
          io_bind (save_pinstore E pid pins' p) (\<lambda>_. io_ret True))))"

definition raise_mark :: "int \<Rightarrow> int option \<Rightarrow> json \<Rightarrow> json res" where
  "raise_mark now record_timestamp entry =
     bindE (set_item entry ''last_seen'' (JInt now)) (\<lambda>entry'.
     case record_timestamp of
       None \<Rightarrow> Inr entry'
     | Some t \<Rightarrow> bindE (bindE (py_get entry' ''record_timestamp'' (JInt 0)) py_int) (\<lambda>n.
         set_item entry' ''record_timestamp'' (JInt (max t n))))"

definition update_pin_last_seen :: "env \<Rightarrow> nat \<Rightarrow> int \<Rightarrow> string \<Rightarrow> path \<Rightarrow> int option \<Rightarrow> unit io" where
  "update_pin_last_seen E pid now uri p record_timestamp =
     io_bind (load_pinstore E p) (\<lambda>pins.
     io_bind (io_lift (py_in uri pins)) (\<lambda>present.
     if \<not> present then io_ret ()
     else io_bind (io_lift (bindE (py_item pins uri) (\<lambda>entry.
            bindE (raise_mark now record_timestamp entry) (set_item pins uri)))) (\<lambda>pins'.
          save_pinstore E pid pins' p)))"

section \<open>Properties\<close>

lemma set_item_Inr: "set_item x k v = Inr y \<longleftrightarrow> (\<exists>d. x = JDict d \<and> y = JDict (AList.update k v d))"
  by (cases x) auto

lemma read_text_Inr:
  "read_text p fs = (Inr t, fs') \<longleftrightarrow>
     (\<exists>c. at_path fs p = Some (File c) \<and> utf8 c \<and> t = universal_newlines c) \<and> fs' = fs"
  by (auto simp: read_text_def read_bytes_def io_bind_def io_lift_def decode_utf8_def
      split: option.splits node.splits if_splits)

lemma load_pinstore_fs: "load_pinstore E p fs = (Inr v, fs') \<Longrightarrow> fs' = fs"
  by (auto simp: load_pinstore_def io_bind_Inr read_text_Inr split: if_split_asm)

lemma save_pinstore_result:
  assumes "p \<noteq> []" and "save_pinstore E pid pins p fs = (res, fs')"
  shows "(\<forall>u. res = Inr u \<longrightarrow> at_path fs' p = Some (File (dumps_indent_sorted E pins))) \<and>
    (\<forall>e. res = Inl e \<longrightarrow> at_path fs' p = at_path fs p)"
  using save_atomic_result [OF assms(1) _ assms(2) [unfolded save_pinstore_def]] by simp

text \<open>No carriage return is ever written, so reading the text back is exact.\<close>

lemma universal_newlines_id: "CHR 0x0D \<notin> set s \<Longrightarrow> universal_newlines s = s"
  by (induction s rule: universal_newlines.induct) auto

definition plain :: "string \<Rightarrow> bool" where
  "plain s \<longleftrightarrow> (\<forall>c \<in> set s. of_char c < (128::nat) \<and> c \<noteq> CHR 0x0D)"

lemma plain_simps [simp]:
  "plain []" "plain (c # s) \<longleftrightarrow> of_char c < (128::nat) \<and> c \<noteq> CHR 0x0D \<and> plain s"
  "plain (s @ t) \<longleftrightarrow> plain s \<and> plain t"
  by (auto simp: plain_def)

lemma char_of_neq_cr: "n < 256 \<Longrightarrow> n \<noteq> 13 \<Longrightarrow> char_of (n::nat) \<noteq> CHR 0x0D"
  by (auto dest: arg_cong [where f = "of_char :: char \<Rightarrow> nat"])

lemma plain_esc: "plain (esc c)"
proof -
  have h: "of_char (hex_char d) < (128::nat) \<and> hex_char d \<noteq> CHR 0x0D" if "d < 16" for d
    using that by (auto simp: hex_char_def char_of_neq_cr)
  then have "plain (hex4 v)" for v
    unfolding hex4_def by simp
  then show ?thesis by (simp add: esc_def char_of_neq_cr)
qed

lemma plain_quote: "plain (quote s)"
proof -
  have "plain (concat (map esc cs))" for cs
    by (induction cs) (simp_all add: plain_esc)
  then show ?thesis by (simp add: quote_def)
qed

lemma plain_digits: "plain (str_of_nat n)"
proof -
  have "of_char c < (128::nat) \<and> c \<noteq> CHR 0x0D" if "is_digit c" for c
    using that by (auto simp: is_digit_def Let_def)
  then show ?thesis using str_of_nat_digits [of n] by (auto simp: plain_def)
qed

lemma plain_layout: "plain (newline st l)" "plain (colon st)"
  by (auto simp: newline_def colon_def plain_def split: option.split)

lemma plain_dumps:
  "no_float j \<Longrightarrow> plain (dumps E st l j)"
  "no_float_list xs \<Longrightarrow> plain (dumps_list E st l xs)"
  "no_float_items d \<Longrightarrow> plain (dumps_items E st l d)"
  by (induction E st l j and E st l xs and E st l d rule: dumps_dumps_list_dumps_items.induct)
    (auto simp: plain_quote plain_layout str_of_int_def plain_digits)

lemma plain_text: "plain s \<Longrightarrow> utf8 s \<and> universal_newlines s = s"
  using utf8_ascii [of s] universal_newlines_id [of s] by (auto simp: plain_def)

lemma read_dumped:
  assumes "jwf j" "no_float j" and "at_path fs p = Some (File (dumps_indent_sorted E j))"
  shows "read_text p fs = (Inr (dumps_indent_sorted E j), fs)" and "loads E (dumps_indent_sorted E j) = Inr (sort_keys j)"
proof -
  have "plain (dumps_indent_sorted E j)"
    unfolding dumps_indent_sorted_def by (rule plain_dumps) (simp add: assms sort_keys_no_float)
  then show "read_text p fs = (Inr (dumps_indent_sorted E j), fs)"
    using assms(3) plain_text by (auto simp: read_text_Inr)
qed (rule loads_dumps_indent_sorted [OF assms(1,2)])

lemma read_dumped_indent:
  assumes "jwf j" "no_float j" and "at_path fs p = Some (File (dumps_indent E j))"
  shows "read_text p fs = (Inr (dumps_indent E j), fs)" and "loads E (dumps_indent E j) = Inr j"
proof -
  have "plain (dumps_indent E j)"
    unfolding dumps_indent_def by (rule plain_dumps) (simp add: assms)
  then show "read_text p fs = (Inr (dumps_indent E j), fs)"
    using assms(3) plain_text by (auto simp: read_text_Inr)
qed (rule loads_dumps_indent [OF assms(1,2)])

lemma load_saved:
  assumes "p \<noteq> []" "jwf pins" "no_float pins" and "save_pinstore E pid pins p fs = (Inr u, fs')"
  shows "load_pinstore E p fs' = (Inr (sort_keys pins), fs')"
proof -
  have a: "at_path fs' p = Some (File (dumps_indent_sorted E pins))"
    using save_pinstore_result [OF assms(1,4)] by blast
  show ?thesis
    using read_dumped [OF assms(2,3) a] a
    by (simp add: load_pinstore_def fexists_def io_bind_def io_lift_def)
qed

lemma check_pin_sorted:
  assumes "distinct (map fst d)" and "map_of d uri = Some (JDict e)" and "distinct (map fst e)"
    and "map_of e ''public_key'' = Some (JStr k)"
    and "map_of e ''record_timestamp'' = Some (JInt n)"
  shows "check_pin (sort_keys (JDict d)) uri pk (Some t) =
    Inr (if pk \<noteq> JStr k then Mismatch else if t < n then Rollback else Match)"
  using assms by (auto simp: check_pin_def get_or_def map_of_sort_keys)

text \<open>
  What a pin guarantees to every later check: another key is a mismatch, an older record a rollback.
\<close>

lemma pin_then_check:
  assumes "p \<noteq> []" and "load_pinstore E p fs = (Inr (JDict d), fs)" and "jwf (JDict d)" "no_float (JDict d)"
    and "utf8 uri" "utf8 k" "utf8 a" and "pin_key E pid now uri (JStr k) (JStr a) p (Some n) fs = (Inr u, fs')"
  shows "\<exists>pins. load_pinstore E p fs' = (Inr pins, fs') \<and>
    (\<forall>pk t. check_pin pins uri pk (Some t) =
      Inr (if pk \<noteq> JStr k then Mismatch else if t < n then Rollback else Match))"
proof -
  obtain e d' where e: "pin_entry now (JStr k) (JStr a) (get_or d uri JNull) (Some n) = Inr e"
      and sv: "save_pinstore E pid (JDict (AList.update uri e d)) p fs = (Inr u, fs')"
    using assms(8) by (auto simp: pin_key_def io_bind_Inr assms(2) res_simps)
  obtain f where f: "e = JDict [(''public_key'', JStr k), (''author'', JStr a), (''first_seen'', f),
      (''last_seen'', JInt now), (''record_timestamp'', JInt n)]"
      and ff: "truthy (get_or d uri JNull) \<and> py_item (get_or d uri JNull) ''first_seen'' = Inr f \<or> f = JInt now"
    using e by (auto simp: pin_entry_def res_simps split: if_split_asm)
  have "jwf f \<and> no_float f"
  proof (cases "map_of d uri")
    case (Some w)
    then have w: "(uri, w) \<in> set d" by (rule map_of_SomeD)
    then have ok: "jwf w" "no_float w" using assms(3,4) by (auto simp: jwf_items_iff no_float_items_iff)
    show ?thesis
    proof (cases "f = JInt now")
      case False
      then obtain g where g: "w = JDict g" "map_of g ''first_seen'' = Some f"
        using ff Some by (auto simp: py_item_Inr_iff)
      then have "(''first_seen'', f) \<in> set g" by (auto dest: map_of_SomeD)
      then show ?thesis using ok g(1) by (auto simp: jwf_items_iff no_float_items_iff)
    qed simp
  qed (use ff in auto)
  moreover have "utf8 ''public_key''" "utf8 ''author''" "utf8 ''first_seen''" "utf8 ''last_seen''" "utf8 ''record_timestamp''"
    by (auto intro!: utf8_ascii)
  ultimately have ok: "jwf e" "no_float e" using assms(6,7) by (simp_all add: f)
  let ?d = "AList.update uri e d"
  have "jwf (JDict ?d)" "no_float (JDict ?d)"
    using ok assms(3-5) set_update_dict [of uri e d] dict_ok_update [of d uri e]
    by (auto simp: jwf_items_iff no_float_items_iff dict_ok_def)
  from load_saved [OF assms(1) this sv] have l: "load_pinstore E p fs' = (Inr (sort_keys (JDict ?d)), fs')" .
  have "distinct (map fst ?d)" using assms(3) dict_ok_update [of d uri e] by (simp add: dict_ok_def)
  then have "check_pin (sort_keys (JDict ?d)) uri pk (Some t) =
      Inr (if pk \<noteq> JStr k then Mismatch else if t < n then Rollback else Match)" for pk t
    by (intro check_pin_sorted [where e = "[(''public_key'', JStr k), (''author'', JStr a), (''first_seen'', f),
      (''last_seen'', JInt now), (''record_timestamp'', JInt n)]"]) (simp_all add: f)
  with l show ?thesis by blast
qed

text \<open>
  What an update of a pin and a re-pinning leave in the file: every other pin as it was, and of this one what
  the operation does not set.
\<close>

definition only_pin_changed :: "string \<Rightarrow> jdict \<Rightarrow> jdict \<Rightarrow> bool" where
  "only_pin_changed uri d d' \<longleftrightarrow> (\<forall>v. v \<noteq> uri \<longrightarrow> map_of d' v = map_option sort_keys (map_of d v))"

lemma update_wf:
  assumes "jwf (JDict d)" "no_float (JDict d)" "utf8 k" "jwf v" "no_float v"
  shows "jwf (JDict (AList.update k v d))" "no_float (JDict (AList.update k v d))"
  using assms set_update_dict [of k v d] dict_ok_update [of d k v]
  by (auto simp: jwf_items_iff no_float_items_iff dict_ok_def)

lemma saved_pins:
  assumes "p \<noteq> []" and "jwf (JDict d)" "no_float (JDict d)" "utf8 uri" "jwf v" "no_float v"
    and "save_pinstore E pid (JDict (AList.update uri v d)) p fs = (Inr u, fs')"
  obtains d' where "load_pinstore E p fs' = (Inr (JDict d'), fs')" "map_of d' uri = Some (sort_keys v)" "only_pin_changed uri d d'"
proof -
  let ?d = "AList.update uri v d"
  note ok = update_wf [OF assms(2-6)]
  have "distinct (map fst ?d)" using assms(2) dict_ok_update [of d uri v] by (simp add: dict_ok_def)
  note m = map_of_sort_keys [OF this]
  show thesis
    by (rule that [of "sort_key fst (sort_keys_items ?d)"])
      (use load_saved [OF assms(1) ok assms(7)] in \<open>simp_all add: m only_pin_changed_def update_conv'\<close>)
qed

lemma pins_member:
  assumes "jwf (JDict d)" "no_float (JDict d)" "map_of d k = Some v"
  shows "utf8 k" "jwf v" "no_float v"
  using assms map_of_SomeD [OF assms(3)] by (auto simp: jwf_items_iff no_float_items_iff)

lemma raise_mark_Inr:
  "raise_mark now ts w = Inr v \<longleftrightarrow> (\<exists>e. w = JDict e \<and>
     (case ts of None \<Rightarrow> v = JDict (AList.update ''last_seen'' (JInt now) e)
      | Some t \<Rightarrow> \<exists>n. py_int (get_or e ''record_timestamp'' (JInt 0)) = Inr n \<and>
          v = JDict (AList.update ''record_timestamp'' (JInt (max t n)) (AList.update ''last_seen'' (JInt now) e))))"
  by (cases w; cases ts) (auto simp: raise_mark_def bindE_Inr_iff get_or_def)

lemma update_pin_saved:
  assumes "p \<noteq> []" and "load_pinstore E p fs = (Inr (JDict d), fs)" and "jwf (JDict d)" "no_float (JDict d)"
    and "update_pin_last_seen E pid now uri p ts fs = (Inr u, fs')" and "map_of d uri = Some w"
  obtains e d' e' where "w = JDict e" "load_pinstore E p fs' = (Inr (JDict d'), fs')" "only_pin_changed uri d d'"
    "map_of d' uri = Some (JDict e')" "map_of e' ''last_seen'' = Some (JInt now)"
    "\<And>f. f \<noteq> ''last_seen'' \<Longrightarrow> f \<noteq> ''record_timestamp'' \<Longrightarrow> map_of e' f = map_option sort_keys (map_of e f)"
    "case ts of None \<Rightarrow> map_of e' ''record_timestamp'' = map_option sort_keys (map_of e ''record_timestamp'')
      | Some t \<Rightarrow> \<exists>n. py_int (get_or e ''record_timestamp'' (JInt 0)) = Inr n \<and> map_of e' ''record_timestamp'' = Some (JInt (max t n))"
proof -
  obtain v where v: "raise_mark now ts w = Inr v" and sv: "save_pinstore E pid (JDict (AList.update uri v d)) p fs = (Inr u, fs')"
    using assms(5,6) by (auto simp: update_pin_last_seen_def io_bind_Inr assms(2) bindE_Inr_iff py_item_Inr_iff set_item_Inr)
  then obtain e where e: "w = JDict e" by (auto simp: raise_mark_Inr)
  note w = pins_member [OF assms(3,4,6)]
  have l: "jwf (JDict (AList.update ''last_seen'' (JInt now) e))" "no_float (JDict (AList.update ''last_seen'' (JInt now) e))"
    using update_wf [of e "''last_seen''" "JInt now"] w e by (simp_all add: utf8_ascii)
  have ok: "jwf v" "no_float v"
    using v l update_wf [OF l, of "''record_timestamp''"] e by (auto simp: raise_mark_Inr utf8_ascii split: option.split_asm)
  obtain d' where d': "load_pinstore E p fs' = (Inr (JDict d'), fs')" "map_of d' uri = Some (sort_keys v)" "only_pin_changed uri d d'"
    by (rule saved_pins [OF assms(1,3,4) w(1) ok sv])
  obtain ev where ev: "v = JDict ev" using v by (auto simp: raise_mark_Inr split: option.split_asm)
  have "map_of (sort_key fst (sort_keys_items ev)) f = map_option sort_keys (map_of ev f)" for f
    using ok(1) ev by (intro map_of_sort_keys) simp
  then show thesis
    by (intro that [OF e d'(1,3), of "sort_key fst (sort_keys_items ev)"])
      (use d'(2) v in \<open>auto simp: ev e raise_mark_Inr update_conv' split: option.split option.split_asm\<close>)
qed

lemma update_unpinned:
  assumes "load_pinstore E p fs = (Inr (JDict d), fs)" and "map_of d uri = None"
    and "update_pin_last_seen E pid now uri p ts fs = (Inr u, fs')"
  shows "fs' = fs"
  using assms by (auto simp: update_pin_last_seen_def io_bind_Inr map_of_eq_None_iff split: if_split_asm)

lemma pin_entry_Inr:
  "pin_entry now pk author w ts = Inr v \<longleftrightarrow> (\<exists>f.
     (if truthy w then py_item w ''first_seen'' = Inr f else f = JInt now) \<and>
     v = JDict ([(''public_key'', pk), (''author'', author), (''first_seen'', f), (''last_seen'', JInt now)] @
       (case ts of None \<Rightarrow> [] | Some t \<Rightarrow> [(''record_timestamp'', JInt t)])))"
  by (auto simp: pin_entry_def bindE_Inr_iff)

lemma pin_key_saved:
  assumes "p \<noteq> []" and "load_pinstore E p fs = (Inr (JDict d), fs)" and "jwf (JDict d)" "no_float (JDict d)"
    and "utf8 uri" "utf8 k" "utf8 a" and "pin_key E pid now uri (JStr k) (JStr a) p ts fs = (Inr u, fs')"
  obtains d' e' where "load_pinstore E p fs' = (Inr (JDict d'), fs')" "only_pin_changed uri d d'"
    "map_of d' uri = Some (JDict e')" "map_of e' ''public_key'' = Some (JStr k)"
    "map_of e' ''record_timestamp'' = map_option JInt ts"
    "map_of d uri = None \<Longrightarrow> map_of e' ''first_seen'' = Some (JInt now)"
    "\<And>e f. map_of d uri = Some (JDict e) \<Longrightarrow> map_of e ''first_seen'' = Some f \<Longrightarrow> map_of e' ''first_seen'' = Some (sort_keys f)"
proof -
  obtain v where v: "pin_entry now (JStr k) (JStr a) (get_or d uri JNull) ts = Inr v"
      and sv: "save_pinstore E pid (JDict (AList.update uri v d)) p fs = (Inr u, fs')"
    using assms(8) by (auto simp: pin_key_def io_bind_Inr assms(2) res_simps)
  obtain f where f: "if truthy (get_or d uri JNull) then py_item (get_or d uri JNull) ''first_seen'' = Inr f else f = JInt now"
      and ve: "v = JDict ([(''public_key'', JStr k), (''author'', JStr a), (''first_seen'', f), (''last_seen'', JInt now)] @
       (case ts of None \<Rightarrow> [] | Some t \<Rightarrow> [(''record_timestamp'', JInt t)]))"
    using v by (auto simp: pin_entry_Inr)
  have "jwf f \<and> no_float f"
    using f pins_member [OF assms(3,4), of uri] pins_member(2,3) [of _ "''first_seen''" f]
    by (auto simp: get_or_def py_item_Inr_iff split: if_split_asm option.split_asm)
  then have ok: "jwf v" "no_float v"
    using assms(6,7) by (cases ts; simp add: ve utf8_ascii)+
  obtain d' where d': "load_pinstore E p fs' = (Inr (JDict d'), fs')" "map_of d' uri = Some (sort_keys v)" "only_pin_changed uri d d'"
    by (rule saved_pins [OF assms(1,3,4,5) ok sv])
  obtain ev where ev: "v = JDict ev" using ve by blast
  have m: "map_of (sort_key fst (sort_keys_items ev)) x = map_option sort_keys (map_of ev x)" for x
    using ok(1) ev by (intro map_of_sort_keys) simp
  have first: "map_of ev ''first_seen'' = Some f" using ve ev by simp
  show thesis
  proof (rule that [OF d'(1,3), of "sort_key fst (sort_keys_items ev)"])
    show "map_of (sort_key fst (sort_keys_items ev)) ''public_key'' = Some (JStr k)"
      "map_of (sort_key fst (sort_keys_items ev)) ''record_timestamp'' = map_option JInt ts"
      using ve ev unfolding m by (cases ts; simp)+
    show "map_of (sort_key fst (sort_keys_items ev)) ''first_seen'' = Some (JInt now)" if "map_of d uri = None"
      using f that first unfolding m by (simp add: get_or_def)
    show "map_of (sort_key fst (sort_keys_items ev)) ''first_seen'' = Some (sort_keys g)"
      if "map_of d uri = Some (JDict e)" "map_of e ''first_seen'' = Some g" for e g
    proof -
      have "e \<noteq> []" using that(2) by auto
      then show ?thesis using f that first unfolding m by (simp add: get_or_def)
    qed
  qed (use d'(2) ev in simp)
qed

end
