(* ===== verification/NamingStores.thy ===== *)
theory NamingStores
  imports PinStore Crypto
begin

text \<open>
  The four stores of naming.py.  A store maps keys to (record, signature) pairs in insertion order; the
  two-level stores map a key to such a map.  An operation that raises before it changes anything
  returns \<open>Inl\<close>; the assignment loop may raise half-way and returns the inbox it leaves.  The locale
  \<open>versioned_store\<close> states what the stores have in common (a key's entry is only replaced by a
  strictly newer one) and \<open>owned_store\<close> adds that its owner never changes.
\<close>

type_synonym entry = "json \<times> json"
type_synonym entries = "(json, entry) dict"
type_synonym inbox = "(json, entries) dict"

definition ts_of :: "json \<Rightarrow> int res" where
  "ts_of r = bindE (py_get r ''timestamp'' (JInt 0)) py_int"

section \<open>Name records\<close>

definition name_store_set :: "entries \<Rightarrow> json \<Rightarrow> json \<Rightarrow> json \<Rightarrow> ((bool \<times> string) \<times> entries) res" where
  "name_store_set recs uri r s =
     (case map_of recs uri of
        None \<Rightarrow> Inr ((True, []), AList.update uri (r, s) recs)
      | Some (old, _) \<Rightarrow>
          bindE (py_get old ''public_key'' JNull) (\<lambda>k.
          bindE (py_get r ''public_key'' JNull) (\<lambda>k'.
          if k \<noteq> k' then Inr ((False, ''already registered to a different public key''), recs)
          else bindE (ts_of old) (\<lambda>t. bindE (ts_of r) (\<lambda>t'.
            if t' \<le> t then Inr ((False, ''timestamp must be strictly greater than existing''), recs)
            else Inr ((True, []), AList.update uri (r, s) recs))))))"

definition list_records :: "entries \<Rightarrow> entry list" where
  "list_records recs = map snd recs"

section \<open>Reviewer opt-ins\<close>

definition reviewer_store_set :: "entries \<Rightarrow> json \<Rightarrow> json \<Rightarrow> ((bool \<times> string) \<times> entries) res" where
  "reviewer_store_set recs r s =
     bindE (py_get r ''public_key'' (JStr [])) (\<lambda>pk.
     if \<not> truthy pk then Inr ((False, ''record missing public_key''), recs)
     else bindE (hashable pk) (\<lambda>_.
       case map_of recs pk of
         None \<Rightarrow> Inr ((True, []), AList.update pk (r, s) recs)
       | Some (old, _) \<Rightarrow>
           bindE (ts_of old) (\<lambda>t. bindE (ts_of r) (\<lambda>t'.
           if t' \<le> t then Inr ((False, ''timestamp must be strictly greater than existing''), recs)
           else Inr ((True, []), AList.update pk (r, s) recs)))))"

section \<open>Two-level stores\<close>

definition slot_of :: "inbox \<Rightarrow> json \<Rightarrow> entries" where
  "slot_of ib k = (case map_of ib k of None \<Rightarrow> [] | Some sl \<Rightarrow> sl)"

definition set_default :: "json \<Rightarrow> inbox \<Rightarrow> inbox" where
  "set_default k ib = (if map_of ib k = None then AList.update k [] ib else ib)"

definition entry_at :: "inbox \<Rightarrow> json \<Rightarrow> json \<Rightarrow> entry option" where
  "entry_at ib k k' = map_of (slot_of ib k) k'"

definition put_slot :: "json \<Rightarrow> json \<Rightarrow> entry \<Rightarrow> inbox \<Rightarrow> inbox" where
  "put_slot k k' e ib = AList.update k (AList.update k' e (slot_of ib k)) ib"

text \<open>One reviewer of an assignment: keep an entry at least as new, else store the assignment.\<close>

definition assign_one :: "json \<Rightarrow> int \<Rightarrow> entry \<Rightarrow> inbox \<Rightarrow> json \<Rightarrow> unit res \<times> inbox" where
  "assign_one ck new_ts e ib reviewer =
     (case hashable reviewer of
        Inl x \<Rightarrow> (Inl x, ib)
      | Inr _ \<Rightarrow>
          (let ib1 = set_default reviewer ib in
           case hashable ck of
             Inl x \<Rightarrow> (Inl x, ib1)
           | Inr _ \<Rightarrow>
               (case entry_at ib1 reviewer ck of
                  None \<Rightarrow> (Inr (), put_slot reviewer ck e ib1)
                | Some (old, _) \<Rightarrow>
                    (case ts_of old of
                       Inl x \<Rightarrow> (Inl x, ib1)
                     | Inr t \<Rightarrow> if t \<ge> new_ts then (Inr (), ib1) else (Inr (), put_slot reviewer ck e ib1)))))"

fun assign_loop :: "json \<Rightarrow> int \<Rightarrow> entry \<Rightarrow> inbox \<Rightarrow> json list \<Rightarrow> unit res \<times> inbox" where
  "assign_loop ck new_ts e ib [] = (Inr (), ib)"
| "assign_loop ck new_ts e ib (r # rs) =
     (case assign_one ck new_ts e ib r of
        (Inl x, ib') \<Rightarrow> (Inl x, ib')
      | (Inr _, ib') \<Rightarrow> assign_loop ck new_ts e ib' rs)"

definition assignment_store_add :: "inbox \<Rightarrow> json \<Rightarrow> json \<Rightarrow> (bool \<times> string) res \<times> inbox" where
  "assignment_store_add ib r s =
     (case bindE (py_get r ''content_key'' (JStr [])) (\<lambda>ck.
           bindE (py_get r ''reviewer_public_keys'' JNull) (\<lambda>rv. Inr (ck, json_or rv (JList [])))) of
        Inl x \<Rightarrow> (Inl x, ib)
      | Inr (ck, rv) \<Rightarrow>
          if \<not> truthy ck \<or> \<not> truthy rv
          then (Inr (False, ''assignment missing content_key or reviewer_public_keys''), ib)
          else (case bindE (ts_of r) (\<lambda>t. bindE (py_iter rv) (\<lambda>rs. Inr (t, rs))) of
              Inl x \<Rightarrow> (Inl x, ib)
            | Inr (t, rs) \<Rightarrow>
                (case assign_loop ck t (r, s) ib rs of
                   (Inl x, ib') \<Rightarrow> (Inl x, ib')
                 | (Inr _, ib') \<Rightarrow> (Inr (True, []), ib'))))"

definition assignment_for :: "inbox \<Rightarrow> json \<Rightarrow> entry list" where
  "assignment_for ib reviewer = map snd (slot_of ib reviewer)"

definition assignment_get :: "inbox \<Rightarrow> json \<Rightarrow> json \<Rightarrow> json option" where
  "assignment_get ib reviewer ck = map_option fst (entry_at ib reviewer ck)"

definition attachment_store_attach :: "inbox \<Rightarrow> json \<Rightarrow> json \<Rightarrow> (bool \<times> string) res \<times> inbox" where
  "attachment_store_attach att r s =
     (case bindE (py_get r ''content_key'' (JStr [])) (\<lambda>ck.
           bindE (py_get r ''reviewer_public_key'' (JStr [])) (\<lambda>rp. Inr (ck, rp))) of
        Inl x \<Rightarrow> (Inl x, att)
      | Inr (ck, rp) \<Rightarrow>
          if \<not> truthy ck \<or> \<not> truthy rp
          then (Inr (False, ''review record missing content_key or reviewer_public_key''), att)
          else (case hashable ck of
              Inl x \<Rightarrow> (Inl x, att)
            | Inr _ \<Rightarrow>
                (let at1 = set_default ck att in
                 case bindE (hashable rp) (\<lambda>_. ts_of r) of
                   Inl x \<Rightarrow> (Inl x, at1)
                 | Inr t' \<Rightarrow>
                     (case entry_at at1 ck rp of
                        None \<Rightarrow> (Inr (True, []), put_slot ck rp (r, s) at1)
                      | Some (old, _) \<Rightarrow>
                          (case ts_of old of
                             Inl x \<Rightarrow> (Inl x, at1)
                           | Inr t \<Rightarrow>
                               if t \<ge> t' then (Inr (False, ''existing attachment is at least as recent''), at1)
                               else (Inr (True, []), put_slot ck rp (r, s) at1))))))"

definition attachments_for :: "inbox \<Rightarrow> json \<Rightarrow> entry list" where
  "attachments_for att ck = map snd (slot_of att ck)"

section \<open>Persistence\<close>

definition key_text :: "env \<Rightarrow> json \<Rightarrow> string" where
  "key_text E k = (case k of JStr s \<Rightarrow> s | _ \<Rightarrow> dumps E None 0 k)"

definition entry_json :: "entry \<Rightarrow> json" where
  "entry_json e = JDict [(''record'', fst e), (''signature'', snd e)]"

definition entries_json :: "env \<Rightarrow> entries \<Rightarrow> json" where
  "entries_json E es = JDict (map (\<lambda>(k, e). (key_text E k, entry_json e)) es)"

definition inbox_json :: "env \<Rightarrow> inbox \<Rightarrow> json" where
  "inbox_json E ib = JDict (map (\<lambda>(k, es). (key_text E k, entries_json E es)) ib)"

text \<open>\<open>json.dumps(sort_keys=True)\<close> raises when the keys of a dictionary do not compare.\<close>

definition keys_sortable :: "json list \<Rightarrow> bool" where
  "keys_sortable ks \<longleftrightarrow> length ks \<le> 1 \<or> list_all is_str ks \<or> list_all (\<lambda>k. num k \<noteq> None) ks"

definition save_checked :: "bool \<Rightarrow> path \<Rightarrow> string \<Rightarrow> unit io" where
  "save_checked ok p text =
     (if ok then save_atomic ''.tmp'' p text
      else io_bind (mkdir_p (butlast p)) (\<lambda>_. io_raise TypeError))"

definition save_entries :: "env \<Rightarrow> path \<Rightarrow> entries \<Rightarrow> unit io" where
  "save_entries E p es =
     save_checked (keys_sortable (map fst es)) p (dumps_indent_sorted E (entries_json E es))"

definition save_inbox :: "env \<Rightarrow> path \<Rightarrow> inbox \<Rightarrow> unit io" where
  "save_inbox E p ib =
     save_checked (keys_sortable (map fst ib) \<and> list_all (\<lambda>x. keys_sortable (map fst (snd x))) ib) p
       (dumps_indent_sorted E (inbox_json E ib))"

definition entry_of_json :: "json \<Rightarrow> entry res" where
  "entry_of_json v = bindE (py_item v ''record'') (\<lambda>r. bindE (py_item v ''signature'') (\<lambda>s. Inr (r, s)))"

definition entries_of_json :: "json \<Rightarrow> entries res" where
  "entries_of_json v =
     bindE (py_items v) (mapE (\<lambda>(k, x). bindE (entry_of_json x) (\<lambda>e. Inr (JStr k, e))))"

text \<open>\<open>_load\<close>: any exception is logged and leaves the store as it was built so far.\<close>

definition load_entries :: "env \<Rightarrow> path \<Rightarrow> fsys \<Rightarrow> entries" where
  "load_entries E p fs =
     (if \<not> fexists fs p then []
      else case bindE (bindE (fst (read_text p fs)) (loads E)) entries_of_json of
        Inr es \<Rightarrow> es | Inl _ \<Rightarrow> [])"

fun inbox_of_items :: "inbox \<Rightarrow> (string \<times> json) list \<Rightarrow> inbox" where
  "inbox_of_items ib [] = ib"
| "inbox_of_items ib ((k, v) # items) =
     (case entries_of_json v of
        Inl _ \<Rightarrow> ib
      | Inr es \<Rightarrow> inbox_of_items (AList.update (JStr k) es ib) items)"

definition load_inbox :: "env \<Rightarrow> path \<Rightarrow> fsys \<Rightarrow> inbox" where
  "load_inbox E p fs =
     (if \<not> fexists fs p then []
      else case bindE (bindE (fst (read_text p fs)) (loads E)) py_items of
        Inr items \<Rightarrow> inbox_of_items [] items | Inl _ \<Rightarrow> [])"

text \<open>The reviewer store and the attachment store persist as the name store and the assignment store do.\<close>

definition reviewer_store_save :: "env \<Rightarrow> path \<Rightarrow> entries \<Rightarrow> unit io" where
  "reviewer_store_save E p recs = save_entries E p recs"

definition reviewer_store_load :: "env \<Rightarrow> path \<Rightarrow> fsys \<Rightarrow> entries" where
  "reviewer_store_load E p fs = load_entries E p fs"

definition attachment_store_save :: "env \<Rightarrow> path \<Rightarrow> inbox \<Rightarrow> unit io" where
  "attachment_store_save E p att = save_inbox E p att"

definition attachment_store_load :: "env \<Rightarrow> path \<Rightarrow> fsys \<Rightarrow> inbox" where
  "attachment_store_load E p fs = load_inbox E p fs"

section \<open>The contract of a store\<close>

locale versioned_store =
  fixes look :: "'s \<Rightarrow> 'k \<Rightarrow> 'e option"
    and stamp :: "'e \<Rightarrow> int"
    and put :: "'k \<Rightarrow> 'e \<Rightarrow> 's \<Rightarrow> bool \<times> 's"
  assumes put_look: "put k e s = (True, s') \<Longrightarrow> look s' k' = (if k' = k then Some e else look s k')"
    and put_newer: "put k e s = (True, s') \<Longrightarrow> look s k = Some old \<Longrightarrow> stamp old < stamp e"
    and put_rejected: "put k e s = (False, s') \<Longrightarrow> look s' = look s"
begin

fun puts :: "('k \<times> 'e) list \<Rightarrow> 's \<Rightarrow> 's" where
  "puts [] s = s"
| "puts ((k, e) # kes) s = puts kes (snd (put k e s))"

lemma put_stays: "look s k = Some e \<Longrightarrow> \<exists>e'. look (snd (put k' x s)) k = Some e' \<and> stamp e \<le> stamp e'"
proof -
  assume l: "look s k = Some e"
  obtain b s' where p: "put k' x s = (b, s')" by (cases "put k' x s")
  show ?thesis
  proof (cases b)
    case True
    then show ?thesis using l p put_look [of k' x s s' k] put_newer [of k' x s s'] by (cases "k = k'") fastforce+
  next
    case False
    then show ?thesis using l p put_rejected [of k' x s s'] by simp
  qed
qed

text \<open>Whatever is put, a key that is present stays present and its stamp never goes back.\<close>

lemma puts_monotone: "look s k = Some e \<Longrightarrow> \<exists>e'. look (puts kes s) k = Some e' \<and> stamp e \<le> stamp e'"
proof (induction kes arbitrary: s e)
  case (Cons ke kes)
  obtain k' x where "ke = (k', x)" by (cases ke)
  then show ?case using put_stays [OF Cons.prems] Cons.IH by (metis order_trans puts.simps(2))
qed simp

text \<open>An entry that was not there before was put, and is the one looked up.\<close>

lemma puts_origin: "look (puts kes s) k = Some e \<Longrightarrow> look s k = Some e \<or> (k, e) \<in> set kes"
proof (induction kes arbitrary: s)
  case (Cons ke kes)
  obtain k' x where ke: "ke = (k', x)" by (cases ke)
  obtain b s' where p: "put k' x s = (b, s')" by (cases "put k' x s")
  have "look s' k = Some e \<or> (k, e) \<in> set kes" using Cons ke p by simp
  then show ?case
    using p put_look [of k' x s s' k] put_rejected [of k' x s s'] ke
    by (cases b) (auto split: if_split_asm)
qed simp

end

locale owned_store = versioned_store look stamp put
  for look :: "'s \<Rightarrow> 'k \<Rightarrow> 'e option" and stamp and put +
  fixes owner :: "'e \<Rightarrow> 'o"
  assumes put_owner: "put k e s = (True, s') \<Longrightarrow> look s k = Some old \<Longrightarrow> owner e = owner old"
begin

text \<open>The first entry fixes the owner of its key for ever.\<close>

lemma puts_owner: "look s k = Some e \<Longrightarrow> \<exists>e'. look (puts kes s) k = Some e' \<and> owner e' = owner e"
proof (induction kes arbitrary: s e)
  case (Cons ke kes)
  obtain k' x where ke: "ke = (k', x)" by (cases ke)
  obtain b s' where p: "put k' x s = (b, s')" by (cases "put k' x s")
  have "\<exists>e1. look s' k = Some e1 \<and> owner e1 = owner e"
    using Cons.prems p put_look [of k' x s s' k] put_owner [of k' x s s'] put_rejected [of k' x s s']
    by (cases b; cases "k = k'") auto
  then show ?case using Cons.IH ke p by fastforce
qed simp

end

definition stamp_of :: "entry \<Rightarrow> int" where
  "stamp_of e = (case ts_of (fst e) of Inr t \<Rightarrow> t | Inl x \<Rightarrow> 0)"

definition field_of :: "string \<Rightarrow> entry \<Rightarrow> json" where
  "field_of f e = (case py_get (fst e) f JNull of Inr v \<Rightarrow> v | Inl x \<Rightarrow> JNull)"

definition name_put :: "json \<Rightarrow> entry \<Rightarrow> entries \<Rightarrow> bool \<times> entries" where
  "name_put uri e recs =
     (case name_store_set recs uri (fst e) (snd e) of Inr ((ok, m), recs') \<Rightarrow> (ok, recs') | Inl x \<Rightarrow> (False, recs))"

definition reviewer_put :: "json \<Rightarrow> entry \<Rightarrow> entries \<Rightarrow> bool \<times> entries" where
  "reviewer_put pk e recs =
     (if py_get (fst e) ''public_key'' (JStr []) \<noteq> Inr pk then (False, recs)
      else case reviewer_store_set recs (fst e) (snd e) of Inr ((ok, m), recs') \<Rightarrow> (ok, recs') | Inl x \<Rightarrow> (False, recs))"

lemma name_store_set_cases:
  assumes "name_store_set recs uri r s = Inr ((ok, m), recs')"
  shows "ok \<and> recs' = AList.update uri (r, s) recs \<and>
      (\<forall>old. map_of recs uri = Some old \<longrightarrow> field_of ''public_key'' old = field_of ''public_key'' (r, s) \<and> stamp_of old < stamp_of (r, s))
    \<or> \<not> ok \<and> recs' = recs"
  using assms
  by (auto simp: name_store_set_def res_simps field_of_def stamp_of_def split: option.split_asm if_split_asm prod.split_asm)

interpretation name_st: owned_store map_of stamp_of name_put "field_of ''public_key''"
proof unfold_locales
  fix k and e :: entry and s s' k'
  assume "name_put k e s = (True, s')"
  then show "map_of s' k' = (if k' = k then Some e else map_of s k')"
    by (auto simp: name_put_def split: sum.split_asm prod.split_asm dest!: name_store_set_cases)
next
  fix k and e :: entry and s s' old
  assume "name_put k e s = (True, s')" "map_of s k = Some old"
  then show "stamp_of old < stamp_of e" "field_of ''public_key'' e = field_of ''public_key'' old"
    by (auto simp: name_put_def split: sum.split_asm prod.split_asm dest!: name_store_set_cases)
next
  fix k and e :: entry and s s'
  assume "name_put k e s = (False, s')"
  then show "map_of s' = map_of s"
    by (auto simp: name_put_def split: sum.split_asm prod.split_asm dest!: name_store_set_cases)
qed

lemma reviewer_store_set_cases:
  assumes "reviewer_store_set recs r s = Inr ((ok, m), recs')"
  shows "(\<exists>pk. py_get r ''public_key'' (JStr []) = Inr pk \<and> ok \<and> truthy pk \<and> recs' = AList.update pk (r, s) recs \<and>
      (\<forall>old. map_of recs pk = Some old \<longrightarrow> stamp_of old < stamp_of (r, s)))
    \<or> \<not> ok \<and> recs' = recs"
  using assms
  by (auto simp: reviewer_store_set_def res_simps stamp_of_def split: option.split_asm if_split_asm prod.split_asm)

interpretation reviewer_st: versioned_store map_of stamp_of reviewer_put
proof unfold_locales
  fix k and e :: entry and s s' k'
  assume "reviewer_put k e s = (True, s')"
  then show "map_of s' k' = (if k' = k then Some e else map_of s k')"
    by (auto simp: reviewer_put_def split: sum.split_asm prod.split_asm if_split_asm dest!: reviewer_store_set_cases)
next
  fix k and e :: entry and s s' old
  assume "reviewer_put k e s = (True, s')" "map_of s k = Some old"
  then show "stamp_of old < stamp_of e"
    by (auto simp: reviewer_put_def split: sum.split_asm prod.split_asm if_split_asm dest!: reviewer_store_set_cases)
next
  fix k and e :: entry and s s'
  assume "reviewer_put k e s = (False, s')"
  then show "map_of s' = map_of s"
    by (auto simp: reviewer_put_def split: sum.split_asm prod.split_asm if_split_asm dest!: reviewer_store_set_cases)
qed

lemma slot_set_default [simp]: "slot_of (set_default k ib) = slot_of ib"
  by (rule ext) (auto simp: slot_of_def set_default_def)

lemma entry_at_set_default [simp]: "entry_at (set_default k ib) = entry_at ib"
  by (intro ext) (simp add: entry_at_def)

lemma entry_at_put_slot [store_laws]:
  "entry_at (put_slot k k' e ib) x x' = (if x = k \<and> x' = k' then Some e else entry_at ib x x')"
  by (auto simp: entry_at_def put_slot_def slot_of_def)

lemma attach_cases:
  assumes "attachment_store_attach att r s = (res, att')"
  shows "(\<exists>ck rp. res = Inr (True, []) \<and> py_get r ''content_key'' (JStr []) = Inr ck \<and>
      py_get r ''reviewer_public_key'' (JStr []) = Inr rp \<and> truthy ck \<and> truthy rp \<and>
      entry_at att' = entry_at (put_slot ck rp (r, s) att) \<and>
      (\<forall>old. entry_at att ck rp = Some old \<longrightarrow> stamp_of old < stamp_of (r, s)))
    \<or> entry_at att' = entry_at att \<and> (\<exists>m. res = Inr (False, m)) \<or> entry_at att' = entry_at att \<and> (\<exists>x. res = Inl x)"
proof -
  have pd: "entry_at (put_slot ck rp e (set_default ck att)) = entry_at (put_slot ck rp e att)" for ck rp e
    by (intro ext) (simp add: entry_at_put_slot)
  show ?thesis
    using assms
    by (auto simp: attachment_store_attach_def res_simps Let_def stamp_of_def pd
        split: sum.split_asm if_split_asm option.split_asm prod.split_asm)
qed

definition attach_put :: "json \<times> json \<Rightarrow> entry \<Rightarrow> inbox \<Rightarrow> bool \<times> inbox" where
  "attach_put k e att =
     (if bindE (py_get (fst e) ''content_key'' (JStr [])) (\<lambda>ck.
           bindE (py_get (fst e) ''reviewer_public_key'' (JStr [])) (\<lambda>rp. Inr (ck, rp))) \<noteq> Inr k then (False, att)
      else case attachment_store_attach att (fst e) (snd e) of
          (Inr (True, m), att') \<Rightarrow> (True, att')
        | (r, att') \<Rightarrow> (False, att'))"

lemma attach_put_True:
  "attach_put k e att = (True, att') \<Longrightarrow> entry_at att' = entry_at (put_slot (fst k) (snd k) e att) \<and>
     (\<forall>old. entry_at att (fst k) (snd k) = Some old \<longrightarrow> stamp_of old < stamp_of e)"
  by (auto simp: attach_put_def res_simps split: if_split_asm prod.split_asm sum.split_asm bool.split_asm dest!: attach_cases)

lemma attach_put_False: "attach_put k e att = (False, att') \<Longrightarrow> entry_at att' = entry_at att"
  by (auto simp: attach_put_def split: if_split_asm prod.split_asm sum.split_asm bool.split_asm dest!: attach_cases)

interpretation attach_st: versioned_store "\<lambda>att k. entry_at att (fst k) (snd k)" stamp_of attach_put
proof unfold_locales
  fix k and e :: entry and s s' k'
  assume "attach_put k e s = (True, s')"
  then show "entry_at s' (fst k') (snd k') = (if k' = k then Some e else entry_at s (fst k') (snd k'))"
    using attach_put_True [of k e s s'] by (simp add: entry_at_put_slot prod_eq_iff)
qed (use attach_put_True attach_put_False in \<open>fastforce+\<close>)

text \<open>
  An assignment reaches exactly the inboxes it names: every listed reviewer then has it or one at
  least as new, and nothing else changes.
\<close>

lemma assign_one_Inr:
  assumes "assign_one ck t e ib r = (Inr u, ib')"
  shows "entry_at ib' = entry_at ib \<and> (\<exists>old. entry_at ib r ck = Some old \<and> t \<le> stamp_of old)
    \<or> entry_at ib' = entry_at (put_slot r ck e ib) \<and> (\<forall>old. entry_at ib r ck = Some old \<longrightarrow> stamp_of old < t)"
proof -
  have pd: "entry_at (put_slot k k' e (set_default k ib)) = entry_at (put_slot k k' e ib)" for k k'
    by (intro ext) (simp add: entry_at_put_slot)
  show ?thesis
    using assms
    by (auto simp: assign_one_def Let_def stamp_of_def pd split: sum.split_asm option.split_asm if_split_asm prod.split_asm)
qed

lemma assign_one_any:
  assumes "assign_one ck t e ib r = (res, ib')"
  shows "\<forall>x y. entry_at ib' x y = entry_at ib x y \<or> x = r \<and> y = ck \<and> entry_at ib' x y = Some e"
proof (cases res)
  case (Inl x)
  with assms show ?thesis
    by (auto simp: assign_one_def Let_def split: sum.split_asm option.split_asm if_split_asm prod.split_asm)
next
  case (Inr u)
  with assign_one_Inr [of ck t e ib r u ib'] assms show ?thesis
    by (auto simp: entry_at_put_slot split: if_split_asm)
qed

lemma assign_loop_any:
  assumes "assign_loop ck t e ib rs = (res, ib')"
  shows "\<forall>x y. entry_at ib' x y = entry_at ib x y \<or> x \<in> set rs \<and> y = ck \<and> entry_at ib' x y = Some e"
  using assms
proof (induction rs arbitrary: ib)
  case (Cons r rs)
  obtain r1 ib1 where o: "assign_one ck t e ib r = (r1, ib1)" by (cases "assign_one ck t e ib r")
  note a = assign_one_any [OF o]
  show ?case
  proof (cases r1)
    case (Inl x)
    then have "ib1 = ib'" using Cons.prems o by simp
    with a show ?thesis by (metis list.set_intros(1))
  next
    case (Inr u)
    then have "assign_loop ck t e ib1 rs = (res, ib')" using Cons.prems o by simp
    from Cons.IH [OF this] a show ?thesis by (metis list.set_intros)
  qed
qed simp

lemma assign_loop_delivers:
  assumes "assign_loop ck (stamp_of e) e ib rs = (Inr u, ib')" and "r \<in> set rs"
  shows "\<exists>e'. entry_at ib' r ck = Some e' \<and> stamp_of e \<le> stamp_of e'"
  using assms
proof (induction rs arbitrary: ib)
  case (Cons x rs)
  obtain r1 ib1 where o: "assign_one ck (stamp_of e) e ib x = (r1, ib1)" by (cases "assign_one ck (stamp_of e) e ib x")
  then obtain u1 where r1: "r1 = Inr u1" and rest: "assign_loop ck (stamp_of e) e ib1 rs = (Inr u, ib')"
    using Cons.prems(1) by (cases r1) auto
  show ?case
  proof (cases "r \<in> set rs")
    case True
    then show ?thesis using Cons.IH [OF rest] by blast
  next
    case False
    then have "r = x" using Cons.prems(2) by simp
    then have "\<exists>e'. entry_at ib1 r ck = Some e' \<and> stamp_of e \<le> stamp_of e'"
      using assign_one_Inr [OF o [unfolded r1]] by (cases e) (auto simp: entry_at_put_slot)
    moreover have "entry_at ib' r ck = entry_at ib1 r ck \<or> entry_at ib' r ck = Some e"
      using assign_loop_any [OF rest] by blast
    ultimately show ?thesis by (metis order_refl)
  qed
qed simp

text \<open>The inboxes after an addition: the assignment, or the one that was there and is at least as new.\<close>

lemma assign_loop_each:
  assumes "assign_loop ck (stamp_of e) e ib rs = (Inr u, ib')" and "r \<in> set rs"
  shows "entry_at ib' r ck = Some e \<or> (\<exists>old. entry_at ib r ck = Some old \<and> entry_at ib' r ck = Some old \<and> stamp_of e \<le> stamp_of old)"
proof -
  obtain e' where e': "entry_at ib' r ck = Some e'" "stamp_of e \<le> stamp_of e'"
    using assign_loop_delivers [OF assms] by blast
  moreover have "entry_at ib' r ck = entry_at ib r ck \<or> entry_at ib' r ck = Some e"
    using assign_loop_any [OF assms(1)] by blast
  ultimately show ?thesis by metis
qed

lemma assignment_add_delivers:
  assumes "assignment_store_add ib r s = (Inr (True, m), ib')" and "r = JDict d" and "map_of d ''content_key'' = Some ck"
    and "map_of d ''reviewer_public_keys'' = Some (JList revs)"
  shows "assign_loop ck (stamp_of (r, s)) (r, s) ib revs = (Inr (), ib')"
  using assms by (auto simp: assignment_store_add_def bindE_Inr_iff json_or_def stamp_of_def get_or_def
      split: if_split_asm sum.split_asm prod.split_asm)

section \<open>Saving the stores\<close>

lemma replaced_checked:
  assumes "p \<noteq> []"
  shows "store_replaced p text (save_checked ok p text)"
proof (cases ok)
  case False
  have "at_path fs' p = at_path fs p" if "mkdir_p (butlast p) fs = (r, fs')" for fs fs' r
  proof -
    have "\<not> prefix p (butlast p)" using assms by (cases p rule: rev_cases) (auto dest: prefix_length_le)
    then show ?thesis using mkdir_p_added [OF that] unfolding dirs_added_def by metis
  qed
  then show ?thesis using False
    by (auto simp: store_replaced_def save_checked_def io_bind_def split: prod.split_asm sum.split_asm sum.split)
qed (use replaced_atomic [OF assms] in \<open>simp add: save_checked_def\<close>)

text \<open>A dictionary whose keys are strings can be saved where the disk has room for it.\<close>

lemma save_inbox_result:
  assumes "p \<noteq> []" and "save_inbox E p ib fs = (Inr u, fs')"
  shows "at_path fs' p = Some (File (dumps_indent_sorted E (inbox_json E ib)))"
  using assms save_atomic_result [of p "''.tmp''" _ fs "Inr u" fs']
  by (auto simp: save_inbox_def save_checked_def io_bind_Inr split: if_split_asm)

lemma string_keys_sortable: "\<forall>k \<in> fst ` set es. is_str k \<Longrightarrow> keys_sortable (map fst (AList.update (JStr u) e es))"
  by (auto simp: keys_sortable_def list_all_iff dom_update)

lemma save_entries_ok:
  assumes "can_save ''.tmp'' p fs" "keys_sortable (map fst es)"
  shows "\<exists>fs'. save_entries E p es fs = (Inr (), fs') \<and> at_path fs' p = Some (File (dumps_indent_sorted E (entries_json E es)))"
proof -
  let ?text = "dumps_indent_sorted E (entries_json E es)"
  obtain fs' where s: "save_atomic ''.tmp'' p ?text fs = (Inr (), fs')" using save_atomic_ok [OF assms(1)] by blast
  moreover have "p \<noteq> []" using assms(1) by (simp add: can_save_def)
  ultimately have "at_path fs' p = Some (File ?text)" using save_atomic_result [OF _ _ s] by simp
  then show ?thesis using s assms(2) by (simp add: save_entries_def save_checked_def)
qed

lemma save_inbox_ok:
  assumes "can_save ''.tmp'' p fs" "keys_sortable (map fst ib)" "list_all (\<lambda>x. keys_sortable (map fst (snd x))) ib"
  shows "\<exists>fs'. save_inbox E p ib fs = (Inr (), fs')"
  using save_atomic_ok [OF assms(1)] assms(2,3) by (simp add: save_inbox_def save_checked_def)

lemma newer_registration:
  assumes "\<And>old. map_of recs (JStr u) = Some old \<Longrightarrow> field_of ''public_key'' old = pk \<and> (\<exists>t. ts_of (fst old) = Inr t \<and> t < n)"
    and "r = JDict d" "map_of d ''public_key'' = Some pk" "map_of d ''timestamp'' = Some (JInt n)" "pk \<noteq> JNull"
  shows "name_store_set recs (JStr u) r s = Inr ((True, []), AList.update (JStr u) (r, s) recs)"
proof (cases "map_of recs (JStr u)")
  case (Some e)
  obtain old sg where e: "e = (old, sg)" by (cases e)
  obtain t where "py_get old ''public_key'' JNull = Inr pk" "ts_of old = Inr t" "t < n"
    using assms(1) [OF Some] assms(5) e by (auto simp: field_of_def split: sum.split_asm)
  then show ?thesis
    using assms(2-4) Some e by (simp add: name_store_set_def ts_of_def [of "JDict d"] get_or_def)
qed (simp add: name_store_set_def)

section \<open>Stores only move forward\<close>

text \<open>What is held later: the same entry, or one with a strictly greater timestamp.\<close>

definition newer_or_same :: "entry option \<Rightarrow> entry option \<Rightarrow> bool" where
  "newer_or_same a b \<longleftrightarrow> (\<forall>e. a = Some e \<longrightarrow> (\<exists>e'. b = Some e' \<and> (e' = e \<or> stamp_of e < stamp_of e')))"

lemma newer_refl [simp]: "newer_or_same a a"
  by (simp add: newer_or_same_def)

lemma newer_trans: "newer_or_same a b \<Longrightarrow> newer_or_same b c \<Longrightarrow> newer_or_same a c"
  unfolding newer_or_same_def by (metis less_trans)

lemma newer_put: "(\<And>old. a = Some old \<Longrightarrow> stamp_of old < stamp_of e) \<Longrightarrow> newer_or_same a (Some e)"
  by (auto simp: newer_or_same_def)

lemma assign_one_newer:
  assumes "assign_one ck (stamp_of e) e ib r = (res, ib')"
  shows "newer_or_same (entry_at ib x y) (entry_at ib' x y)"
proof (cases res)
  case (Inl x)
  then have "entry_at ib' = entry_at ib"
    using assms by (auto simp: assign_one_def Let_def split: sum.split_asm option.split_asm if_split_asm prod.split_asm)
  then show ?thesis by simp
next
  case (Inr u)
  then show ?thesis
    using assign_one_Inr [of ck "stamp_of e" e ib r u ib'] assms by (cases e) (auto simp: entry_at_put_slot newer_or_same_def)
qed

lemma assign_loop_newer:
  assumes "assign_loop ck (stamp_of e) e ib rs = (res, ib')"
  shows "newer_or_same (entry_at ib x y) (entry_at ib' x y)"
  using assms
proof (induction rs arbitrary: ib)
  case (Cons r rs)
  obtain r1 ib1 where o: "assign_one ck (stamp_of e) e ib r = (r1, ib1)" by fastforce
  from newer_trans [OF assign_one_newer [OF o]] Cons o show ?case by (cases r1) auto
qed simp

lemma assignment_add_newer:
  assumes "assignment_store_add ib r s = (res, ib')"
  shows "newer_or_same (entry_at ib x y) (entry_at ib' x y)"
proof (cases "ib' = ib")
  case False
  then obtain ck t rs r1 where "ts_of r = Inr t" "assign_loop ck t (r, s) ib rs = (r1, ib')"
    using assms by (auto simp: assignment_store_add_def bindE_Inr_iff split: if_split_asm sum.split_asm prod.split_asm)
  then show ?thesis using assign_loop_newer [of ck "(r, s)"] by (simp add: stamp_of_def)
qed simp

section \<open>A restart keeps the records\<close>

lemma insort_key_map: "(\<And>y. f (g y) = f y) \<Longrightarrow> insort_key f (g x) (map g xs) = map g (insort_key f x xs)"
  by (induction xs) auto

lemma sort_key_map: "(\<And>y. f (g y) = f y) \<Longrightarrow> sort_key f (map g xs) = map g (sort_key f xs)"
  by (induction xs) (auto simp: insort_key_map)

lemma sort_keys_items_sort: "sort_keys_items (sort_key fst d) = sort_key fst (sort_keys_items d)"
  unfolding sort_keys_items_map by (rule sort_key_map [symmetric]) auto

lemma sort_keys_idem:
  "sort_keys (sort_keys j) = sort_keys j"
  "sort_keys_list (sort_keys_list xs) = sort_keys_list xs"
  "sort_keys_items (sort_keys_items d) = sort_keys_items d"
  by (induction j and xs and d rule: sort_keys_sort_keys_list_sort_keys_items.induct)
    (auto simp: sort_keys_items_sort sort_key_id_if_sorted)

lemma canonical_sorted [simp]: "canonical_json E (sort_keys j) = canonical_json E j"
  by (simp add: canonical_json_def sort_keys_idem)

text \<open>A store whose keys are strings and whose records are values that JSON can carry.\<close>

definition saveable :: "entries \<Rightarrow> bool" where
  "saveable es \<longleftrightarrow> dict_ok es \<and>
     (\<forall>(k, r, s) \<in> set es. (\<exists>u. k = JStr u \<and> utf8 u) \<and> jwf r \<and> no_float r \<and> jwf s \<and> no_float s)"

definition sorted_entry :: "entry \<Rightarrow> entry" where
  "sorted_entry e = (sort_keys (fst e), sort_keys (snd e))"

lemma saveable_update:
  assumes "saveable es" "utf8 u" "jwf r" "no_float r" "jwf s" "no_float s"
  shows "saveable (AList.update (JStr u) (r, s) es)"
proof -
  have "(k, e) \<in> set (AList.update (JStr u) (r, s) es) \<Longrightarrow> (k, e) = (JStr u, (r, s)) \<or> (k, e) \<in> set es" for k e
    using set_update_dict [of "JStr u" "(r, s)" es] by auto
  then show ?thesis
    using assms dict_ok_update [of es "JStr u" "(r, s)"] unfolding saveable_def by fast
qed



lemma key_text_inj: "\<forall>k \<in> K. \<exists>u. k = JStr u \<Longrightarrow> inj_on (key_text E) K"
proof (rule inj_onI)
  fix a b
  assume "\<forall>k \<in> K. \<exists>u. k = JStr u" "a \<in> K" "b \<in> K" "key_text E a = key_text E b"
  moreover from this obtain x y where "a = JStr x" "b = JStr y" by blast
  ultimately show "a = b" by (simp add: key_text_def)
qed

lemma keyed_json:
  assumes "dict_ok d" and "\<forall>(k, v) \<in> set d. (\<exists>u. k = JStr u \<and> utf8 u) \<and> jwf (f v) \<and> no_float (f v)"
  shows "jwf (JDict (map (\<lambda>(k, v). (key_text E k, f v)) d))" "no_float (JDict (map (\<lambda>(k, v). (key_text E k, f v)) d))"
proof -
  have k: "map fst (map (\<lambda>(k, v). (key_text E k, f v)) d) = map (key_text E) (map fst d)" by (induction d) auto
  have "inj_on (key_text E) (set (map fst d))" using assms(2) by (intro key_text_inj) auto
  then have "distinct (map fst (map (\<lambda>(k, v). (key_text E k, f v)) d))"
    unfolding k distinct_map [of "key_text E" "map fst d"] using assms(1) by (simp add: dict_ok_def)
  moreover have "\<forall>(k, v) \<in> set d. utf8 (key_text E k) \<and> jwf (f v) \<and> no_float (f v)"
    using assms(2) by (force simp: key_text_def)
  ultimately show "jwf (JDict (map (\<lambda>(k, v). (key_text E k, f v)) d))" "no_float (JDict (map (\<lambda>(k, v). (key_text E k, f v)) d))"
    by (auto simp: jwf_items_iff no_float_items_iff simp del: map_map)
qed

lemma saveable_json:
  assumes "saveable es"
  shows "jwf (entries_json E es)" and "no_float (entries_json E es)"
proof -
  have "utf8 ''record''" "utf8 ''signature''" by (auto intro!: utf8_ascii)
  then have "\<forall>(k, e) \<in> set es. (\<exists>u. k = JStr u \<and> utf8 u) \<and> jwf (entry_json e) \<and> no_float (entry_json e)"
    using assms by (force simp: saveable_def entry_json_def)
  moreover have "dict_ok es" using assms by (simp add: saveable_def)
  ultimately show "jwf (entries_json E es)" "no_float (entries_json E es)"
    unfolding entries_json_def by (rule keyed_json [rotated])+
qed

lemma entry_of_sorted: "entry_of_json (sort_keys (entry_json e)) = Inr (sorted_entry e)"
  by (simp add: entry_json_def entry_of_json_def sorted_entry_def)

lemma entries_of_sorted:
  assumes "saveable es"
  shows "\<exists>es'. entries_of_json (sort_keys (entries_json E es)) = Inr es' \<and>
    (\<forall>k. map_of es' k = map_option sorted_entry (map_of es k))"
proof -
  let ?items = "map (\<lambda>(k, e). (key_text E k, entry_json e)) es"
  let ?sorted = "sort_key fst (sort_keys_items ?items)"
  have d: "distinct (map fst ?items)" using saveable_json(1) [OF assms, of E] by (simp add: entries_json_def)
  have items: "(t, v) \<in> set ?sorted \<Longrightarrow> \<exists>e. v = sort_keys (entry_json e) \<and> (JStr t, e) \<in> set es" for t v
    using assms by (force simp: sort_keys_items_map saveable_def key_text_def)
  have m: "\<exists>ys. mapE (\<lambda>(k, x). bindE (entry_of_json x) (\<lambda>e. Inr (JStr k, e))) xs = Inr ys \<and>
      (\<forall>t. map_of ys (JStr t) = map_option (\<lambda>v. projr (entry_of_json v)) (map_of xs t)) \<and>
      (\<forall>k. map_of ys k \<noteq> None \<longrightarrow> (\<exists>t. k = JStr t))"
    if "\<forall>(t, v) \<in> set xs. \<exists>e. v = sort_keys (entry_json e)" for xs
    using that by (induction xs) (auto simp: entry_of_sorted)
  obtain ys where ys: "mapE (\<lambda>(k, x). bindE (entry_of_json x) (\<lambda>e. Inr (JStr k, e))) ?sorted = Inr ys"
      "\<And>t. map_of ys (JStr t) = map_option (\<lambda>v. projr (entry_of_json v)) (map_of ?sorted t)"
      "\<And>k. map_of ys k \<noteq> None \<Longrightarrow> \<exists>t. k = JStr t"
    using m [of ?sorted] items by blast
  have look: "map_of ?items t = map_option entry_json (map_of es (JStr t))" for t
    using assms unfolding saveable_def by (induction es) (auto simp: key_text_def dict_ok_def)
  have "map_of ys k = map_option sorted_entry (map_of es k)" for k
  proof (cases "\<exists>t. k = JStr t")
    case True
    then show ?thesis
      using ys(2) map_of_sort_keys [OF d] look by (auto simp: option.map_comp o_def entry_of_sorted)
  next
    case False
    then have "map_of es k = None" using assms by (auto simp: saveable_def map_of_eq_None_iff)
    then show ?thesis using ys(3) [of k] False by (cases "map_of ys k") auto
  qed
  then show ?thesis using ys(1) by (auto simp: entries_json_def entries_of_json_def)
qed

text \<open>
  What a server that restarts finds is what it had accepted: the same keys with the same records and
  signatures, up to the order of the fields.
\<close>

lemma load_saved_entries:
  assumes "p \<noteq> []" and "saveable es" and "save_entries E p es fs = (Inr u, fs')"
  shows "map_of (load_entries E p fs') k = map_option sorted_entry (map_of es k)"
proof -
  have a: "at_path fs' p = Some (File (dumps_indent_sorted E (entries_json E es)))"
  proof -
    have "list_all is_str (map fst es)" using assms(2) by (auto simp: saveable_def list_all_iff)
    then have "save_atomic ''.tmp'' p (dumps_indent_sorted E (entries_json E es)) fs = (Inr u, fs')"
      using assms(3) by (simp add: save_entries_def save_checked_def keys_sortable_def)
    from save_atomic_result [OF assms(1) _ this] show ?thesis by simp
  qed
  obtain es' where "entries_of_json (sort_keys (entries_json E es)) = Inr es'"
      "\<forall>k. map_of es' k = map_option sorted_entry (map_of es k)"
    using entries_of_sorted [OF assms(2)] by blast
  then show ?thesis
    using read_dumped [OF saveable_json [OF assms(2)] a] a
    by (simp add: load_entries_def fexists_def)
qed

text \<open>The two-level stores: strings as keys, and below each key a store that can be saved.\<close>

definition saveable_inbox :: "inbox \<Rightarrow> bool" where
  "saveable_inbox ib \<longleftrightarrow> dict_ok ib \<and> (\<forall>(k, es) \<in> set ib. (\<exists>u. k = JStr u \<and> utf8 u) \<and> saveable es)"

lemma saveable_inbox_json:
  assumes "saveable_inbox ib"
  shows "jwf (inbox_json E ib)" "no_float (inbox_json E ib)"
  unfolding inbox_json_def by (rule keyed_json; use assms saveable_json in \<open>force simp: saveable_inbox_def\<close>)+

lemma inbox_of_items_look:
  assumes "\<forall>(t, v) \<in> set items. \<exists>es. entries_of_json v = Inr es" and "distinct (map fst items)"
  shows "map_of (inbox_of_items ib items) (JStr t) =
    (case map_of items t of None \<Rightarrow> map_of ib (JStr t) | Some v \<Rightarrow> Some (projr (entries_of_json v)))"
    and "\<nexists>t. k = JStr t \<Longrightarrow> map_of (inbox_of_items ib items) k = map_of ib k"
  using assms by (induction ib items rule: inbox_of_items.induct) (auto simp: update_conv' map_of_eq_None_iff split: option.split, force+)

lemma load_saved_inbox:
  assumes "p \<noteq> []" and "saveable_inbox ib" and "save_inbox E p ib fs = (Inr u, fs')"
  shows "entry_at (load_inbox E p fs') k k' = map_option sorted_entry (entry_at ib k k')"
proof -
  let ?items = "map (\<lambda>(k, es). (key_text E k, entries_json E es)) ib"
  let ?sorted = "sort_key fst (sort_keys_items ?items)"
  note a = save_inbox_result [OF assms(1,3)]
  note wf = saveable_inbox_json [OF assms(2), of E]
  have d: "distinct (map fst ?items)" using wf(1) by (simp add: inbox_json_def)
  have ds: "distinct (map fst ?sorted)" using sort_keys_wf(1) [OF wf(1)] by (simp add: inbox_json_def)
  have each: "\<exists>es es'. v = sort_keys (entries_json E es) \<and> entries_of_json v = Inr es' \<and> (\<forall>x. map_of es' x = map_option sorted_entry (map_of es x))"
    if "(t, v) \<in> set ?sorted" for t v
    using that assms(2) entries_of_sorted by (force simp: sort_keys_items_map saveable_inbox_def)
  then have ok: "\<forall>(t, v) \<in> set ?sorted. \<exists>es. entries_of_json v = Inr es" by blast
  have look: "map_of ?items t = map_option (entries_json E) (map_of ib (JStr t))" for t
    using assms(2) unfolding saveable_inbox_def by (induction ib) (auto simp: key_text_def dict_ok_def)
  have "load_inbox E p fs' = inbox_of_items [] ?sorted"
    using read_dumped [OF wf a] a by (simp add: load_inbox_def fexists_def inbox_json_def)
  moreover have "map_of (slot_of (inbox_of_items [] ?sorted) k) k' = map_option sorted_entry (map_of (slot_of ib k) k')"
  proof (cases "\<exists>t. k = JStr t")
    case True
    then obtain t where t: "k = JStr t" by blast
    have m: "map_of (inbox_of_items [] ?sorted) k =
        (case map_of ?sorted t of None \<Rightarrow> None | Some v \<Rightarrow> Some (projr (entries_of_json v)))"
      using inbox_of_items_look(1) [OF ok ds, of "[]" t] t by (simp cong: option.case_cong)
    show ?thesis
    proof (cases "map_of ib k")
      case None
      then show ?thesis using m map_of_sort_keys [OF d, of t] look [of t] t by (simp add: slot_of_def)
    next
      case (Some es)
      then have "saveable es" using assms(2) map_of_SomeD [OF Some] by (auto simp: saveable_inbox_def)
      then show ?thesis
        using m map_of_sort_keys [OF d, of t] look [of t] t Some entries_of_sorted [of es E] by (auto simp: slot_of_def)
    qed
  next
    case False
    then have "map_of ib k = None" using assms(2) by (force simp: saveable_inbox_def map_of_eq_None_iff)
    then show ?thesis using inbox_of_items_look(2) [OF ok ds, of k "[]"] False by (simp add: slot_of_def)
  qed
  ultimately show ?thesis by (simp add: entry_at_def)
qed
lemma saveable_inbox_record:
  assumes "saveable_inbox ib" and "entry_at ib x y = Some e"
  shows "jwf (fst e)"
proof -
  obtain es where "map_of ib x = Some es" "map_of es y = Some e"
    using assms(2) by (auto simp: entry_at_def slot_of_def split: option.split_asm)
  then have "saveable es" "(y, e) \<in> set es"
    using assms(1) map_of_SomeD by (fastforce simp: saveable_inbox_def)+
  then show ?thesis by (auto simp: saveable_def)
qed

text \<open>A restart keeps every signature valid.\<close>

lemma sig_valid_sorted:
  assumes "jwf r" and "sig_valid E kf r s"
  shows "sig_valid E kf (sort_keys r) (sort_keys s)"
proof -
  obtain d k pk sg where *: "r = JDict d" "map_of d kf = Some k" "b64_to_public_key E k = Inr pk"
      "b64decode s = Inr sg" "ed_verify E pk sg (canonical_json E r)"
    using assms(2) by (auto simp: sig_valid_def)
  obtain t where t: "k = JStr t" using *(3) by (cases k) (auto simp: b64_to_public_key_def)
  obtain u where u: "s = JStr u" using *(4) by (cases s) auto
  have "map_of (sort_key fst (sort_keys_items d)) kf = Some (JStr t)"
    using map_of_sort_keys [of d kf] assms(1) * t by simp
  then show ?thesis
    using * t u unfolding sig_valid_def by (metis canonical_sorted sort_keys.simps(2,7))
qed

end
