(* ===== verification/Serialization.thy ===== *)
theory Serialization
  imports Manifest
begin

text \<open>
  bundle/serialization.py: a bundle on disk (\<open>manifest.json\<close> and \<open>manifest.sig\<close> beside the files), the
  dictionary shipped to peers, the checks on a received one and the swap that installs it.
\<close>

section \<open>On disk\<close>

definition save_bundle :: "env \<Rightarrow> path \<Rightarrow> json \<Rightarrow> json \<Rightarrow> unit io" where
  "save_bundle E site manifest signature =
     io_bind (write_bytes (site @ [''manifest.json'']) (dumps_indent E manifest)) (\<lambda>_.
     case signature of
       JStr s \<Rightarrow> write_bytes (site @ [''manifest.sig'']) s
     | _ \<Rightarrow> io_raise TypeError)"

definition load_bundle :: "env \<Rightarrow> path \<Rightarrow> (json \<times> string) io" where
  "load_bundle E site =
     io_bind (read_text (site @ [''manifest.json''])) (\<lambda>t.
     io_bind (io_lift (loads E t)) (\<lambda>manifest.
     io_bind (read_text (site @ [''manifest.sig''])) (\<lambda>s. io_ret (manifest, strip s))))"

definition bundle_file :: "path \<Rightarrow> json \<Rightarrow> (string \<times> json) io" where
  "bundle_file site entry =
     io_bind (io_lift (bindE (py_item entry ''path'') (\<lambda>v. bindE (validate_path site v) (\<lambda>p. Inr (v, p))))) (\<lambda>(v, p).
     io_bind (read_bytes p) (\<lambda>b. io_bind (io_lift (decode_utf8 b)) (\<lambda>s.
     io_ret (case v of JStr rel \<Rightarrow> rel | _ \<Rightarrow> [], JStr s))))"

definition bundle_to_dict :: "env \<Rightarrow> path \<Rightarrow> jdict io" where
  "bundle_to_dict E site =
     io_bind (load_bundle E site) (\<lambda>(manifest, signature).
     io_bind (io_lift (bindE (py_item manifest ''files'') py_iter)) (\<lambda>entries.
     io_bind (io_map (bundle_file site) entries) (\<lambda>files.
     io_ret [(''manifest'', manifest), (''signature'', JStr signature),
       (''files'', JDict (fold (\<lambda>(k, v). AList.update k v) files []))])))"

section \<open>Validation of a received bundle\<close>

fun payload_loop :: "path \<Rightarrow> nat \<Rightarrow> (string \<times> json) list \<Rightarrow> (string \<times> string) list res" where
  "payload_loop out used [] = Inr []"
| "payload_loop out used ((path, content) # items) =
     (case content of
        JStr raw \<Rightarrow>
          bindE (validate_path out (JStr path)) (\<lambda>_.
          if used + length raw > max_bundle_total_size
          then Inl (ValueError ''Actual content exceeds size limit'')
          else bindE (payload_loop out (used + length raw) items) (\<lambda>vs. Inr ((path, raw) # vs)))
      | _ \<Rightarrow> Inl (ValueError ''bundle files must map str paths to str contents''))"

fun expected_loop :: "(json \<times> json) list \<Rightarrow> json list \<Rightarrow> (json \<times> json) list res" where
  "expected_loop d [] = Inr d"
| "expected_loop d (e # es) =
     bindE (py_item e ''path'') (\<lambda>p. bindE (py_item e ''hash'') (\<lambda>h. bindE (hashable p) (\<lambda>_.
       expected_loop (AList.update p h d) es)))"

text \<open>\<open>sorted\<close> on the keys that are missing: it raises when they do not compare.\<close>

definition sortable :: "json list \<Rightarrow> bool" where
  "sortable xs \<longleftrightarrow> length xs \<le> 1 \<or> list_all is_str xs \<or> list_all (\<lambda>x. num x \<noteq> None) xs"

fun hash_loop :: "env \<Rightarrow> (json \<times> json) list \<Rightarrow> (string \<times> string) list \<Rightarrow> unit res" where
  "hash_loop E expected [] = Inr ()"
| "hash_loop E expected ((path, raw) # vs) =
     (if \<not> is_md path then Inl (ValueError ''only .md files are allowed in a bundle'')
      else if map_of expected (JStr path) \<noteq> Some (JStr (hexdigest E raw)) then Inl (ValueError ''CORRUPTED'')
      else hash_loop E expected vs)"

definition validate_bundle_payload :: "env \<Rightarrow> json \<Rightarrow> path \<Rightarrow> (string \<times> string) list res" where
  "validate_bundle_payload E data out =
     bindE (py_item data ''manifest'') (\<lambda>manifest.
     bindE (py_item data ''files'') (\<lambda>files_data.
     bindE (py_get manifest ''file_count'' JNull) (\<lambda>_.
     bindE (py_size files_data) (\<lambda>n.
     bindE (py_get manifest ''file_count'' (JInt (int n))) (\<lambda>file_count.
     bindE (num_gt file_count (int max_bundle_files)) (\<lambda>big.
     if big \<or> n > max_bundle_files then Inl (ValueError ''Too many files'') else
     bindE (py_items files_data) (\<lambda>items.
     bindE (payload_loop out 0 items) (\<lambda>validated.
     bindE (py_item manifest ''files'') (\<lambda>fs.
     bindE (bindE (py_iter fs) (expected_loop [])) (\<lambda>expected.
     if set (map (\<lambda>x. JStr (fst x)) items) \<noteq> set (map fst expected)
     then (if sortable (filter (\<lambda>k. k \<notin> set (map (\<lambda>x. JStr (fst x)) items)) (map fst expected))
           then Inl (ValueError ''files do not match manifest'') else Inl TypeError)
     else bindE (hash_loop E expected validated) (\<lambda>_. Inr validated)))))))))))"

section \<open>Installation\<close>

definition staging_of :: "nat \<Rightarrow> path \<Rightarrow> path" where
  "staging_of pid out = butlast out @ [''.'' @ last out @ ''.staging-'' @ str_of_nat pid]"

definition backup_of :: "nat \<Rightarrow> path \<Rightarrow> path" where
  "backup_of pid out = butlast out @ [''.'' @ last out @ ''.old-'' @ str_of_nat pid]"

definition swap_into_place :: "nat \<Rightarrow> path \<Rightarrow> path \<Rightarrow> unit io" where
  "swap_into_place pid staging out fs =
     (if \<not> fexists fs out then rename staging out fs
      else
        (let backup = backup_of pid out in
         io_bind (\<lambda>fs. if fexists fs backup then rmtree backup fs else (Inr (), fs)) (\<lambda>_.
         io_bind (rename out backup) (\<lambda>_.
         io_bind (io_try (rename staging out)
           (\<lambda>e. io_bind (rename backup out) (\<lambda>_. io_raise e))) (\<lambda>_.
         rmtree_quiet backup))) fs))"

definition write_payload :: "path \<Rightarrow> string \<times> string \<Rightarrow> unit io" where
  "write_payload staging x =
     io_bind (io_lift (validate_path staging (JStr (fst x)))) (\<lambda>fpath.
     io_bind (mkdir_p (butlast fpath)) (\<lambda>_. write_bytes fpath (snd x)))"

definition dict_to_bundle :: "env \<Rightarrow> nat \<Rightarrow> json \<Rightarrow> path \<Rightarrow> path io" where
  "dict_to_bundle E pid data out =
     io_bind (io_lift (validate_bundle_payload E data out)) (\<lambda>validated.
     io_bind (mkdir_p (butlast out)) (\<lambda>_.
     let staging = staging_of pid out in
     io_bind (\<lambda>fs. if fexists fs staging then rmtree staging fs else (Inr (), fs)) (\<lambda>_.
     io_bind (mkdir staging) (\<lambda>_.
     io_bind (io_try
       (io_bind (io_each (write_payload staging) validated) (\<lambda>_.
        io_bind (io_lift (bindE (py_item data ''manifest'') (\<lambda>m. bindE (py_item data ''signature'') (\<lambda>s. Inr (m, s))))) (\<lambda>(m, s).
        io_bind (save_bundle E staging m s) (\<lambda>_.
        swap_into_place pid staging out))))
       (\<lambda>e. io_bind (rmtree_quiet staging) (\<lambda>_. io_raise e))) (\<lambda>_.
     io_ret out)))))"

section \<open>What validation guarantees\<close>

lemma payload_loop_Inr:
  "payload_loop out used items = Inr vs \<longleftrightarrow>
     items = map (\<lambda>(p, c). (p, JStr c)) vs \<and> (\<forall>(p, c) \<in> set vs. rel_ok p) \<and>
     (vs = [] \<or> used + (\<Sum>x\<leftarrow>vs. length (snd x)) \<le> max_bundle_total_size)"
proof (induction out used items arbitrary: vs rule: payload_loop.induct)
  case (1 out used)
  then show ?case by auto
next
  case (2 out used path content items)
  show ?case
  proof (cases content)
    case (JStr raw)
    show ?thesis
    proof
      assume "payload_loop out used ((path, content) # items) = Inr vs"
      then obtain ws where w: "vs = (path, raw) # ws" "payload_loop out (used + length raw) items = Inr ws"
          "rel_ok path" "used + length raw \<le> max_bundle_total_size"
        using JStr by (auto simp: res_simps validate_path_iff split: if_split_asm)
      then show "(path, content) # items = map (\<lambda>(p, c). (p, JStr c)) vs \<and> (\<forall>(p, c) \<in> set vs. rel_ok p) \<and>
          (vs = [] \<or> used + (\<Sum>x\<leftarrow>vs. length (snd x)) \<le> max_bundle_total_size)"
        using 2 [OF JStr] JStr by (auto simp: validate_path_iff)
    next
      assume r: "(path, content) # items = map (\<lambda>(p, c). (p, JStr c)) vs \<and> (\<forall>(p, c) \<in> set vs. rel_ok p) \<and>
          (vs = [] \<or> used + (\<Sum>x\<leftarrow>vs. length (snd x)) \<le> max_bundle_total_size)"
      then obtain ws where "vs = (path, raw) # ws" "items = map (\<lambda>(p, c). (p, JStr c)) ws"
        using JStr by (cases vs) auto
      with r have "payload_loop out (used + length raw) items = Inr ws"
        using 2 [OF JStr] by (auto simp: validate_path_iff)
      then show "payload_loop out used ((path, content) # items) = Inr vs"
        using JStr r \<open>vs = (path, raw) # ws\<close> by (auto simp: res_simps validate_path_iff)
    qed
  qed (auto simp: Cons_eq_map_conv)
qed

lemma hash_loop_Inr:
  "hash_loop E expected vs = Inr u \<longleftrightarrow>
     (\<forall>(p, c) \<in> set vs. is_md p \<and> map_of expected (JStr p) = Some (JStr (hexdigest E c)))"
  by (induction vs) (auto split: if_split_asm)

lemma expected_loop_Inr:
  "expected_loop d es = Inr d' \<Longrightarrow>
     \<exists>phs. list_all2 (\<lambda>e ph. py_item e ''path'' = Inr (fst ph) \<and> py_item e ''hash'' = Inr (snd ph)) es phs \<and>
       d' = fold (\<lambda>ph. AList.update (fst ph) (snd ph)) phs d"
proof (induction d es rule: expected_loop.induct)
  case (2 d e es)
  then obtain p h where "py_item e ''path'' = Inr p" "py_item e ''hash'' = Inr h" "hashable p = Inr ()"
      "expected_loop (AList.update p h d) es = Inr d'"
    by (auto simp: res_simps)
  with 2(1) [of p h "()"] obtain phs where
    "list_all2 (\<lambda>e ph. py_item e ''path'' = Inr (fst ph) \<and> py_item e ''hash'' = Inr (snd ph)) es phs"
    "d' = fold (\<lambda>ph. AList.update (fst ph) (snd ph)) phs (AList.update p h d)"
    by auto
  then show ?case
    using \<open>py_item e ''path'' = Inr p\<close> \<open>py_item e ''hash'' = Inr h\<close>
    by (intro exI [of _ "(p, h) # phs"]) simp
qed simp

lemma keys_fold_update:
  "set (map fst (fold (\<lambda>x. AList.update (fst x) (snd x)) xs d)) = fst ` set d \<union> fst ` set xs"
  by (induction xs arbitrary: d) (auto simp: AList.dom_update)

lemma map_of_fold_update:
  assumes "distinct (map fst xs)" and "(k, v) \<in> set xs"
  shows "map_of (fold (\<lambda>x. AList.update (fst x) (snd x)) xs d) k = Some v"
  using assms
proof (induction xs arbitrary: d)
  case (Cons x xs)
  have other: "map_of (fold (\<lambda>x. AList.update (fst x) (snd x)) ys d) k = map_of d k" if "k \<notin> fst ` set ys" for ys d
    using that by (induction ys arbitrary: d) auto
  show ?case using Cons other [of xs] by (cases "x = (k, v)") (auto simp: image_iff)
qed simp

text \<open>
  \<open>accepted E data out vs\<close>: the payload \<open>vs\<close> is exactly the files of the dictionary, within the
  limits, under safe paths ending in \<open>.md\<close>, listed by the manifest and carrying the listed hashes.
\<close>

definition accepted :: "env \<Rightarrow> json \<Rightarrow> (string \<times> string) list \<Rightarrow> jdict \<Rightarrow> (json \<times> json) list \<Rightarrow> bool" where
  "accepted E data vs md phs \<longleftrightarrow>
     py_item data ''manifest'' = Inr (JDict md) \<and>
     py_item data ''files'' = Inr (JDict (map (\<lambda>(p, c). (p, JStr c)) vs)) \<and>
     length vs \<le> 1000 \<and> (\<Sum>x\<leftarrow>vs. length (snd x)) \<le> 52428800 \<and>
     (\<forall>(p, c) \<in> set vs. rel_ok p \<and> is_md p) \<and>
     (\<exists>entries. bindE (py_item (JDict md) ''files'') py_iter = Inr entries \<and>
       list_all2 (\<lambda>e ph. py_item e ''path'' = Inr (fst ph) \<and> py_item e ''hash'' = Inr (snd ph)) entries phs) \<and>
     JStr ` fst ` set vs = fst ` set phs \<and>
     (\<forall>(p, c) \<in> set vs. map_of (fold (\<lambda>ph. AList.update (fst ph) (snd ph)) phs []) (JStr p) = Some (JStr (hexdigest E c)))"

lemma bindE_InrE: "bindE m f = Inr y \<Longrightarrow> (\<And>x. m = Inr x \<Longrightarrow> f x = Inr y \<Longrightarrow> P) \<Longrightarrow> P"
  by (auto simp: bindE_Inr_iff)

lemma if_InlE: "(if c then Inl e else m) = Inr y \<Longrightarrow> (\<not> c \<Longrightarrow> m = Inr y \<Longrightarrow> P) \<Longrightarrow> P"
  by (simp split: if_split_asm)

lemma if2_InlE:
  "(if c then (if d then Inl e else Inl e') else m) = Inr y \<Longrightarrow> (\<not> c \<Longrightarrow> m = Inr y \<Longrightarrow> P) \<Longrightarrow> P"
  by (simp split: if_split_asm)

lemma validate_bundle_payload_accepted:
  assumes "validate_bundle_payload E data out = Inr vs"
  shows "\<exists>md phs. accepted E data vs md phs"
proof -
  obtain manifest files_data n items fs entries expected fc big u vs' where
      m: "py_item data ''manifest'' = Inr manifest" "py_item data ''files'' = Inr files_data"
      and mg: "py_get manifest ''file_count'' JNull = Inr fc"
      and n: "py_size files_data = Inr n" "\<not> (big \<or> n > max_bundle_files)" "py_items files_data = Inr items"
      and pl': "payload_loop out 0 items = Inr vs'"
      and e: "py_item manifest ''files'' = Inr fs" "py_iter fs = Inr entries" "expected_loop [] entries = Inr expected"
      and s: "\<not> set (map (\<lambda>x. JStr (fst x)) items) \<noteq> set (map fst expected)"
      and h': "hash_loop E expected vs' = Inr u"
      and v: "(Inr vs' :: (string \<times> string) list res) = Inr vs"
    using assms unfolding validate_bundle_payload_def
    by (elim bindE_InrE if_InlE if2_InlE) (rule that; assumption)
  have pl: "payload_loop out 0 items = Inr vs" and h: "hash_loop E expected vs = Inr u"
    using pl' h' v by simp_all
  obtain md where md: "manifest = JDict md" using mg by (cases manifest) auto
  have it: "items = map (\<lambda>(p, c). (p, JStr c)) vs" "files_data = JDict items"
    and ok: "\<forall>(p, c) \<in> set vs. rel_ok p" "vs = [] \<or> (\<Sum>x\<leftarrow>vs. length (snd x)) \<le> max_bundle_total_size"
    using pl n(3) by (auto simp: payload_loop_Inr py_items_Inr_iff)
  obtain phs where phs: "list_all2 (\<lambda>e ph. py_item e ''path'' = Inr (fst ph) \<and> py_item e ''hash'' = Inr (snd ph)) entries phs"
      "expected = fold (\<lambda>ph. AList.update (fst ph) (snd ph)) phs []"
    using expected_loop_Inr [OF e(3)] by blast
  have "JStr ` fst ` set vs = fst ` set phs"
  proof -
    have "JStr ` fst ` set vs = set (map (\<lambda>x. JStr (fst x)) items)"
      unfolding it(1) set_map image_image by (rule image_cong) auto
    also have "\<dots> = fst ` set phs"
      using s keys_fold_update [of phs "[]"] unfolding phs(2) by simp
    finally show ?thesis .
  qed
  moreover have "length vs \<le> 1000" "(\<Sum>x\<leftarrow>vs. length (snd x)) \<le> 52428800"
    using n it ok(2) by (auto simp: max_bundle_files_def max_bundle_total_size_def)
  moreover have "\<exists>es. bindE (py_item (JDict md) ''files'') py_iter = Inr es \<and>
      list_all2 (\<lambda>e ph. py_item e ''path'' = Inr (fst ph) \<and> py_item e ''hash'' = Inr (snd ph)) es phs"
    using e(1,2) md phs(1) by auto
  moreover have "\<forall>(p, c) \<in> set vs. rel_ok p \<and> is_md p"
    using h ok(1) unfolding hash_loop_Inr by blast
  moreover have "\<forall>(p, c) \<in> set vs. map_of (fold (\<lambda>ph. AList.update (fst ph) (snd ph)) phs []) (JStr p) = Some (JStr (hexdigest E c))"
    using h unfolding hash_loop_Inr phs(2) by blast
  moreover have "py_item data ''manifest'' = Inr (JDict md)"
    "py_item data ''files'' = Inr (JDict (map (\<lambda>(p, c). (p, JStr c)) vs))"
    using m md it by simp_all
  ultimately have "accepted E data vs md phs" unfolding accepted_def by (intro conjI)
  then show ?thesis by (intro exI)
qed

section \<open>Installation is all or nothing\<close>

lemma staging_backup:
  assumes "out \<noteq> []"
  obtains base o' s b where "out = base @ [o']" "butlast out = base"
    "staging_of pid out = base @ [s]" "backup_of pid out = base @ [b]" "o' \<noteq> s" "o' \<noteq> b" "s \<noteq> b"
proof
  show "out = butlast out @ [last out]" using assms by simp
  show "last out \<noteq> ''.'' @ last out @ ''.staging-'' @ str_of_nat pid"
    "last out \<noteq> ''.'' @ last out @ ''.old-'' @ str_of_nat pid"
    by (auto dest: arg_cong [where f = length])
qed (simp_all add: staging_of_def backup_of_def)

text \<open>Every call uses up the schedule of faults in order.\<close>

definition later :: "fsys \<Rightarrow> fsys \<Rightarrow> bool" where
  "later fs fs' \<longleftrightarrow> (\<exists>n. faults fs' = drop n (faults fs))"

lemma later_refl [simp]: "later fs fs" "later fs (tick fs)" "later fs (put p n (tick fs))"
    "later fs (remove_under p (tick fs))" "later fs (move_under p q (tick fs))"
    "later fs (tick fs\<lparr>nodes := ns\<rparr>)"
  by (auto simp: later_def tick_def put_def remove_under_def move_under_def drop_Suc
      intro: exI [of _ 0] exI [of _ 1])

lemma later_trans: "later fs fs' \<Longrightarrow> later fs' fs'' \<Longrightarrow> later fs fs''"
  by (auto simp: later_def)

definition trouble :: "fsys \<Rightarrow> nat" where
  "trouble fs = length (filter (\<lambda>f. f \<noteq> NoFault) (faults fs))"

lemma trouble_later: "later fs fs' \<Longrightarrow> trouble fs' \<le> trouble fs"
proof -
  assume "later fs fs'"
  then obtain n where n: "faults fs' = drop n (faults fs)" by (auto simp: later_def)
  have "filter P (faults fs) = filter P (take n (faults fs)) @ filter P (drop n (faults fs))" for P
    by (metis append_take_drop_id filter_append)
  then show ?thesis by (simp add: trouble_def n)
qed

lemma trouble_tick: "next_fault fs \<noteq> NoFault \<Longrightarrow> trouble fs = Suc (trouble (tick fs))"
  by (cases "faults fs") (auto simp: trouble_def next_fault_def tick_def)

lemma write_bytes_later: "write_bytes p c fs = (r, fs') \<Longrightarrow> later fs fs'"
  by (erule write_bytes_cases) auto

lemma mkdir_later: "mkdir p fs = (r, fs') \<Longrightarrow> later fs fs'"
  by (erule mkdir_cases) auto

lemma rmtree_later: "rmtree p fs = (r, fs') \<Longrightarrow> later fs fs'"
  by (erule rmtree_cases) auto

lemma rename_later: "rename p q fs = (r, fs') \<Longrightarrow> later fs fs'"
  by (auto simp: rename_def split: if_split_asm fault.split_asm)

lemma mkdir_p_later:
  assumes "mkdir_p p fs = (r, fs')"
  shows "later fs fs'"
  by (rule io_each_inv [where P = "later fs" and f = mkdir_step and xs = "prefixes p" and fs = fs and r = r])
    (use assms in \<open>auto simp: mkdir_p_def mkdir_step_def intro: later_trans mkdir_later split: if_split_asm\<close>)

lemma write_bytes_keeps_dir:
  "write_bytes p c fs = (r, fs') \<Longrightarrow> at_path fs x = Some Dir \<Longrightarrow> at_path fs' x = Some Dir"
  by (erule write_bytes_cases) (auto simp: at_put is_directory_def)

text \<open>
  While the staging directory \<open>S\<close> in \<open>base\<close> is being filled, nothing outside it changes, except that
  the directories above it may have been created.
\<close>

definition staging_state :: "path \<Rightarrow> path \<Rightarrow> fsys \<Rightarrow> fsys \<Rightarrow> bool" where
  "staging_state base S fs0 fs \<longleftrightarrow>
     same_except (\<lambda>r. prefix S r \<or> prefix r base) fs0 fs \<and> later fs0 fs \<and>
     at_path fs S = Some Dir \<and> at_path fs base = Some Dir"

lemma staging_write:
  assumes "staging_state base S fs0 fs" and "write_bytes (S @ r) c fs = (res, fs')"
  shows "staging_state base S fs0 fs'"
proof -
  have "same_except (\<lambda>r. prefix S r \<or> prefix r base) fs fs'"
    by (rule same_except_mono [OF write_bytes_frame [OF assms(2)]]) auto
  then show ?thesis
    using assms write_bytes_keeps_dir [OF assms(2)] write_bytes_later [OF assms(2)]
    unfolding staging_state_def by (meson same_except_trans later_trans)
qed

lemma prefix_below:
  assumes "S = base @ [s]" and "prefix x (S @ t)"
  shows "prefix S x \<or> prefix x base"
  using assms by (metis prefix_order.dual_order.refl prefix_same_cases prefix_snoc prefix_prefix append_Nil2 prefixI)

lemma staging_mkdir_p:
  assumes "S = base @ [s]" and "staging_state base S fs0 fs" and "mkdir_p (S @ t) fs = (res, fs')"
  shows "staging_state base S fs0 fs'"
proof -
  note d = mkdir_p_added [OF assms(3)]
  have "same_except (\<lambda>r. prefix S r \<or> prefix r base) fs fs'"
    by (rule same_except_mono [OF dirs_added_frame [OF d]]) (rule prefix_below [OF assms(1)])
  then show ?thesis
    using assms(2) dirs_added_keeps [OF d] mkdir_p_later [OF assms(3)]
    unfolding staging_state_def by (meson same_except_trans later_trans)
qed

definition content :: "fsys \<Rightarrow> path \<Rightarrow> path \<Rightarrow> string option" where
  "content fs S r = (case at_path fs (S @ r) of Some (File c) \<Rightarrow> Some c | _ \<Rightarrow> None)"

lemma content_eq_Some: "content fs S r = Some c \<longleftrightarrow> at_path fs (S @ r) = Some (File c)"
  by (auto simp: content_def split: option.split node.split)

lemma content_dirs_added:
  assumes "dirs_added p fs fs'"
  shows "content fs' S = content fs S"
proof
  fix r
  show "content fs' S r = content fs S r"
    using dirs_added_file [OF assms] by (metis content_eq_Some not_None_eq)
qed

lemma content_write:
  assumes "write_bytes (S @ r) c fs = (Inr u, fs')"
  shows "content fs' S = (content fs S)(r \<mapsto> c)"
  using assms by (cases rule: write_bytes_cases) (auto simp: content_def at_put)

lemma split_butlast: "butlast (S @ split_on c p) = S @ butlast (split_on c p)"
  by (simp add: butlast_append)

lemma write_payload_state:
  assumes "S = base @ [s]" and "staging_state base S fs0 fs" and "write_payload S x fs = (res, fs')"
  shows "staging_state base S fs0 fs'"
proof (cases "validate_path S (JStr (fst x))")
  case (Inl e)
  with assms show ?thesis by (simp add: write_payload_def io_bind_def io_lift_def)
next
  case (Inr p)
  then have p: "p = S @ split_on (CHR ''/'') (fst x)" by (auto simp: validate_path_iff)
  obtain r1 fs1 where m: "mkdir_p (butlast p) fs = (r1, fs1)" by (cases "mkdir_p (butlast p) fs")
  have s1: "staging_state base S fs0 fs1"
    using staging_mkdir_p [OF assms(1,2)] m unfolding p split_butlast by blast
  show ?thesis
  proof (cases r1)
    case (Inl e)
    with assms(3) Inr m s1 show ?thesis by (simp add: write_payload_def io_bind_def io_lift_def)
  next
    case (Inr u)
    then have "write_bytes p (snd x) fs1 = (res, fs')"
      using assms(3) \<open>validate_path S (JStr (fst x)) = Inr p\<close> m by (simp add: write_payload_def io_bind_def io_lift_def)
    then show ?thesis using staging_write [OF s1] unfolding p by blast
  qed
qed

lemma write_payload_content:
  assumes "write_payload S (p, c) fs = (Inr u, fs')"
  shows "content fs' S = (content fs S)(split_on (CHR ''/'') p \<mapsto> c)"
proof -
  from assms obtain u1 fs1 where m: "mkdir_p (butlast (S @ split_on (CHR ''/'') p)) fs = (Inr u1, fs1)"
      and w: "write_bytes (S @ split_on (CHR ''/'') p) c fs1 = (Inr u, fs')"
    by (auto simp: write_payload_def io_bind_Inr validate_path_iff)
  show ?thesis
    using content_write [OF w] content_dirs_added [OF mkdir_p_added [OF m], of S] by simp
qed

lemma write_all_content:
  assumes "io_each (write_payload S) vs fs = (Inr u, fs')"
  shows "content fs' S = content fs S ++ map_of (rev (map (\<lambda>(p, c). (split_on (CHR ''/'') p, c)) vs))"
  using assms
proof (induction vs arbitrary: fs)
  case (Cons x vs)
  obtain p c where x: "x = (p, c)" by (cases x)
  with Cons.prems obtain u1 fs1 where w: "write_payload S (p, c) fs = (Inr u1, fs1)"
      and rest: "io_each (write_payload S) vs fs1 = (Inr u, fs')"
    by (auto simp: io_bind_Inr)
  show ?case
    unfolding Cons.IH [OF rest] write_payload_content [OF w] x
    by (auto simp: fun_eq_iff map_add_def split: option.split)
qed simp

lemma save_bundle_state:
  assumes "staging_state base S fs0 fs" and "save_bundle E S m sg fs = (res, fs')"
  shows "staging_state base S fs0 fs'"
proof -
  obtain r1 fs1 where w: "write_bytes (S @ [''manifest.json'']) (dumps_indent E m) fs = (r1, fs1)"
    by (cases "write_bytes (S @ [''manifest.json'']) (dumps_indent E m) fs")
  have s1: "staging_state base S fs0 fs1" by (rule staging_write [OF assms(1) w])
  from assms(2) w s1 show ?thesis
    unfolding save_bundle_def
    by (cases r1; cases sg) (auto simp: io_bind_def s1 dest: staging_write [OF s1])
qed

lemma save_bundle_content:
  assumes "save_bundle E S m sg fs = (Inr u, fs')"
  shows "\<exists>t. sg = JStr t \<and>
    content fs' S = (content fs S)([''manifest.json''] \<mapsto> dumps_indent E m, [''manifest.sig''] \<mapsto> t)"
proof (cases sg)
  case (JStr t)
  with assms obtain u1 fs1 where
      w: "write_bytes (S @ [''manifest.json'']) (dumps_indent E m) fs = (Inr u1, fs1)"
        "write_bytes (S @ [''manifest.sig'']) t fs1 = (Inr u, fs')"
    by (auto simp: save_bundle_def io_bind_Inr)
  show ?thesis using JStr content_write [OF w(1)] content_write [OF w(2)] by simp
qed (use assms in \<open>auto simp: save_bundle_def io_bind_Inr\<close>)

lemma sibling: "prefix (base @ [x]) (base @ y # r) \<longleftrightarrow> x = y"
  by simp

lemma rename_failed:
  assumes "rename p q fs = (Inl e, fs')" and "rename_allowed fs p q"
  shows "next_fault fs \<noteq> NoFault" and "fs' = tick fs"
  using assms by (auto simp: rename_def split: fault.split_asm)

lemma rename_ok:
  assumes "rename p q fs = (Inr u, fs')" and "p \<noteq> q"
  shows "\<And>r. at_path fs' (q @ r) = at_path fs (p @ r)"
    and "\<And>r. \<not> prefix p r \<Longrightarrow> \<not> prefix q r \<Longrightarrow> at_path fs' r = at_path fs r"
    and "\<And>r. at_path fs' (p @ r) = None" and "later fs fs'"
proof -
  from rename_cases [OF assms] have *: "p \<noteq> []" "q \<noteq> []" "\<not> prefix p q" "\<not> prefix q p" "fs' = move_under p q (tick fs)"
    by (metis Inl_Inr_False)+
  show "\<And>r. at_path fs' (q @ r) = at_path fs (p @ r)"
    "\<And>r. \<not> prefix p r \<Longrightarrow> \<not> prefix q r \<Longrightarrow> at_path fs' r = at_path fs r" "later fs fs'"
    using * by (simp_all add: at_move_under)
  have "\<not> prefix q (p @ r)" for r
    using *(3,4) by (metis prefix_same_cases prefixI)
  then show "\<And>r. at_path fs' (p @ r) = None" using * by (simp add: at_move_under)
qed

lemma rename_Inl_same: "rename p q fs = (Inl e, fs') \<Longrightarrow> fs' = fs \<or> fs' = tick fs"
  by (auto simp: rename_def split: if_split_asm fault.split_asm)

definition kept :: "path \<Rightarrow> path \<Rightarrow> fsys \<Rightarrow> fsys \<Rightarrow> bool" where
  "kept O' B fs fs' \<longleftrightarrow>
     (\<forall>r. at_path fs' (O' @ r) = at_path fs (O' @ r)) \<or>
     2 \<le> trouble fs \<and> (\<forall>r. at_path fs' (B @ r) = at_path fs (O' @ r))"

text \<open>The second half of the swap: the old copy is at \<open>B\<close>, nothing is at \<open>O'\<close>.\<close>

lemma swap_second_half:
  assumes "S = base @ [s]" "O' = base @ [o']" "B = base @ [b]" "o' \<noteq> s" "o' \<noteq> b" "s \<noteq> b"
    and "at_path fs S = Some Dir" and "at_path fs base = Some Dir"
    and "at_path fs B \<noteq> None" and "\<And>r. at_path fs (O' @ r) = None"
    and "io_bind (io_try (rename S O') (\<lambda>e. io_bind (rename B O') (\<lambda>_. io_raise e))) (\<lambda>_. rmtree_quiet B) fs = (res, fs')"
  shows "(\<forall>u. res = Inr u \<longrightarrow> (\<forall>r. at_path fs' (O' @ r) = at_path fs (S @ r))) \<and>
    (\<forall>e. res = Inl e \<longrightarrow> (\<forall>r. at_path fs' (O' @ r) = at_path fs (B @ r)) \<or>
       2 \<le> trouble fs \<and> (\<forall>r. at_path fs' (B @ r) = at_path fs (B @ r)))"
proof -
  have ne: "S \<noteq> O'" "B \<noteq> O'" using assms by auto
  have al: "rename_allowed fs S O'"
    using assms(1-8) assms(10) [of "[]"] by (auto simp: rename_allowed_def is_directory_def)
  have "rename_allowed fs B O'"
    using assms(1-9) assms(10) [of "[]"] by (auto simp: rename_allowed_def is_directory_def split: node.split)
  then have al': "rename_allowed (tick fs) B O'"
    by (simp add: rename_allowed_def is_directory_def no_children_def split: option.split_asm node.split_asm)
  obtain r1 fs1 where r: "rename S O' fs = (r1, fs1)" by (cases "rename S O' fs")
  show ?thesis
  proof (cases r1)
    case (Inr u)
    with assms(11) r have "res = Inr ()" and f: "rmtree B fs1 = (fst (rmtree B fs1), fs')"
      by (auto simp: io_bind_def io_try_def rmtree_quiet_def)
    have "at_path fs' (O' @ r) = at_path fs (S @ r)" for r
    proof -
      have "\<not> prefix B (O' @ r)" using assms(2,3,5) by simp
      from same_exceptD [OF rmtree_frame [OF f] this] show ?thesis
        using rename_ok(1) [OF r [unfolded Inr] ne(1)] by simp
    qed
    with \<open>res = Inr ()\<close> show ?thesis by simp
  next
    case (Inl e)
    note t = rename_failed [OF r [unfolded Inl] al]
    obtain r2 fs2 where r2: "rename B O' (tick fs) = (r2, fs2)" by (cases "rename B O' (tick fs)")
    have "(res, fs') = (case r2 of Inl e' \<Rightarrow> (Inl e', fs2) | Inr u \<Rightarrow> (Inl e, fs2))"
      using assms(11) unfolding io_bind_def io_try_def r Inl prod.case sum.case t(2) r2
      by (cases r2) (auto simp: io_raise_def)
    then have res: "\<exists>e'. res = Inl e'" "fs' = fs2" by (simp_all split: sum.split_asm)
    show ?thesis
    proof (cases r2)
      case (Inr u)
      then show ?thesis using res rename_ok(1) [OF r2 [unfolded Inr] ne(2)] by auto
    next
      case (Inl e')
      note t2 = rename_failed [OF r2 [unfolded Inl] al']
      have "2 \<le> trouble fs" using trouble_tick [OF t(1)] trouble_tick [OF t2(1)] by simp
      then show ?thesis using res t2(2) by auto
    qed
  qed
qed

lemma swap_into_place_result:
  assumes "S = base @ [s]" "O' = base @ [o']" "backup_of pid O' = base @ [b]" "o' \<noteq> s" "o' \<noteq> b" "s \<noteq> b"
    and "at_path fs S = Some Dir" and "at_path fs base = Some Dir"
    and "swap_into_place pid S O' fs = (res, fs')"
  shows "(\<forall>u. res = Inr u \<longrightarrow> (\<forall>r. at_path fs' (O' @ r) = at_path fs (S @ r))) \<and>
    (\<forall>e. res = Inl e \<longrightarrow> kept O' (base @ [b]) fs fs')"
proof (cases "fexists fs O'")
  case False
  have ne: "S \<noteq> O'" using assms by auto
  have r: "rename S O' fs = (res, fs')" using assms(9) False by (simp add: swap_into_place_def)
  show ?thesis
  proof (cases res)
    case (Inl e)
    then show ?thesis using rename_Inl_same [OF r [unfolded Inl]] by (auto simp: kept_def)
  next
    case (Inr u)
    then show ?thesis using rename_ok(1) [OF r [unfolded Inr] ne] by simp
  qed
next
  case True
  define B where "B = base @ [b]"
  obtain r1 fs1 where
      d: "(if fexists fs B then rmtree B fs else (Inr (), fs)) = (r1, fs1)"
    by (cases "if fexists fs B then rmtree B fs else (Inr (), fs)")
  have f1: "same_except (prefix B) fs fs1" and l1: "later fs fs1"
    using d rmtree_frame [of B fs r1 fs1] rmtree_later [of B fs r1 fs1] by (auto split: if_split_asm)
  have np: "\<not> prefix B (O' @ r)" "\<not> prefix B (S @ r)" for r using assms(1-6) by (auto simp: B_def)
  have nb: "\<not> prefix B base" by (simp add: B_def)
  note at1 = same_exceptD [OF f1 np(1)] same_exceptD [OF f1 np(2)] same_exceptD [OF f1 nb]
  have sw: "io_bind (\<lambda>fs. if fexists fs B then rmtree B fs else (Inr (), fs)) (\<lambda>_.
         io_bind (rename O' B) (\<lambda>_.
         io_bind (io_try (rename S O') (\<lambda>e. io_bind (rename B O') (\<lambda>_. io_raise e))) (\<lambda>_.
         rmtree_quiet B))) fs = (res, fs')"
    using assms(9) True unfolding swap_into_place_def Let_def assms(3) B_def by simp
  show ?thesis
  proof (cases r1)
    case (Inl e)
    with sw d have "res = Inl e" "fs' = fs1" by (auto simp: io_bind_def)
    with at1 show ?thesis by (auto simp: kept_def)
  next
    case (Inr u)
    obtain r2 fs2 where r2: "rename O' B fs1 = (r2, fs2)" by (cases "rename O' B fs1")
    show ?thesis
    proof (cases r2)
      case (Inl e)
      with sw d Inr r2 have "res = Inl e" "fs' = fs2" by (auto simp: io_bind_def)
      with at1 rename_Inl_same [OF r2 [unfolded Inl]] show ?thesis by (auto simp: kept_def)
    next
      case (Inr u2)
      have ne: "O' \<noteq> B" using assms(2,5) by (simp add: B_def)
      note rok = rename_ok [OF r2 [unfolded Inr] ne]
      have s2: "at_path fs2 (S @ r) = at_path fs (S @ r)" for r
        using rok(2) [of "S @ r"] at1(2) [of r] assms(1,2,4,6) by (auto simp: B_def)
      have b2: "at_path fs2 base = Some Dir"
        using rok(2) [of base] at1(3) assms(2,8) by (simp add: B_def)
      have o2: "at_path fs2 (B @ r) = at_path fs (O' @ r)" for r
        using rok(1) [of r] at1(1) [of r] by simp
      have "at_path fs2 B \<noteq> None" using o2 [of "[]"] True by (simp add: fexists_def)
      moreover have "io_bind (io_try (rename S O') (\<lambda>e. io_bind (rename B O') (\<lambda>_. io_raise e))) (\<lambda>_. rmtree_quiet B) fs2 = (res, fs')"
        using sw d \<open>r1 = Inr u\<close> r2 Inr by (simp add: io_bind_def)
      ultimately have r3: "(\<forall>u. res = Inr u \<longrightarrow> (\<forall>r. at_path fs' (O' @ r) = at_path fs2 (S @ r))) \<and>
          (\<forall>e. res = Inl e \<longrightarrow> (\<forall>r. at_path fs' (O' @ r) = at_path fs2 (B @ r)) \<or>
             2 \<le> trouble fs2 \<and> (\<forall>r. at_path fs' (B @ r) = at_path fs2 (B @ r)))"
        using assms(7) s2 [of "[]"] b2 rok(3)
        by (intro swap_second_half [OF assms(1,2) B_def assms(4-6)]) auto
      have "trouble fs2 \<le> trouble fs" using trouble_later l1 rok(4) later_trans by blast
      then show ?thesis using r3 s2 o2 by (auto simp: kept_def B_def)
    qed
  qed
qed

text \<open>
  The outcome of \<open>dict_to_bundle\<close> under any schedule of faults: on success the files under \<open>out\<close>
  are the payload and the two manifest files; on failure what was under \<open>out\<close> is untouched, unless
  two calls failed, and then it is intact under the backup name.
\<close>

lemma io_try_Inl:
  "io_try m (\<lambda>e. io_bind (rmtree_quiet S) (\<lambda>_. io_raise e)) fs = (Inl e, fs') \<longleftrightarrow>
     (\<exists>fs1. m fs = (Inl e, fs1) \<and> fs' = snd (rmtree S fs1))"
  by (auto simp: io_try_def io_bind_def rmtree_quiet_def split: prod.split sum.split)

lemma io_try_Inr:
  "io_try m (\<lambda>e. io_bind (rmtree_quiet S) (\<lambda>_. io_raise e)) fs = (Inr x, fs') \<longleftrightarrow> m fs = (Inr x, fs')"
  by (auto simp: io_try_def io_bind_def rmtree_quiet_def split: prod.split sum.split)

definition fill_staging :: "env \<Rightarrow> json \<Rightarrow> path \<Rightarrow> (string \<times> string) list \<Rightarrow> unit io" where
  "fill_staging E data staging validated =
     io_bind (io_each (write_payload staging) validated) (\<lambda>_.
     io_bind (io_lift (bindE (py_item data ''manifest'') (\<lambda>m. bindE (py_item data ''signature'') (\<lambda>s. Inr (m, s))))) (\<lambda>(m, s).
     save_bundle E staging m s))"

lemma io_bind_assoc: "io_bind (io_bind m f) g = io_bind m (\<lambda>x. io_bind (f x) g)"
  by (rule ext) (auto simp: io_bind_def split: prod.split sum.split)

lemma install_split:
  "io_bind (io_each (write_payload staging) validated) (\<lambda>_.
        io_bind (io_lift (bindE (py_item data ''manifest'') (\<lambda>m. bindE (py_item data ''signature'') (\<lambda>s. Inr (m, s))))) (\<lambda>(m, s).
        io_bind (save_bundle E staging m s) (\<lambda>_. k)))
   = io_bind (fill_staging E data staging validated) (\<lambda>_. k)"
  by (simp add: fill_staging_def io_bind_assoc case_prod_unfold)

lemma fill_staging_state:
  assumes "S = base @ [s]" and "staging_state base S fs0 fs" and "fill_staging E data S vs fs = (res, fs')"
  shows "staging_state base S fs0 fs'"
proof -
  obtain r1 fs1 where w: "io_each (write_payload S) vs fs = (r1, fs1)" by (cases "io_each (write_payload S) vs fs")
  have s1: "staging_state base S fs0 fs1"
    by (rule io_each_inv [where P = "staging_state base S fs0", OF _ assms(2) w])
      (rule write_payload_state [OF assms(1)])
  show ?thesis
  proof (cases "bindE (py_item data ''manifest'') (\<lambda>m. bindE (py_item data ''signature'') (\<lambda>s. Inr (m, s)))")
    case (Inl e)
    then show ?thesis using assms(3) w s1
      by (cases r1) (auto simp: fill_staging_def io_bind_def io_lift_def)
  next
    case (Inr ms)
    then show ?thesis using assms(3) w s1 save_bundle_state [OF s1]
      by (cases r1) (auto simp: fill_staging_def io_bind_def io_lift_def case_prod_beta)
  qed
qed

lemma fill_staging_content:
  assumes "fill_staging E data S vs fs = (Inr u, fs')" and "content fs S = (\<lambda>_. None)"
  shows "\<exists>m t. py_item data ''manifest'' = Inr m \<and> py_item data ''signature'' = Inr (JStr t) \<and>
    content fs' S = (map_of (rev (map (\<lambda>(p, c). (split_on (CHR ''/'') p, c)) vs)))
      ([''manifest.json''] \<mapsto> dumps_indent E m, [''manifest.sig''] \<mapsto> t)"
proof -
  from assms(1) obtain u1 fs1 m sg where
      w: "io_each (write_payload S) vs fs = (Inr u1, fs1)"
      and ms: "py_item data ''manifest'' = Inr m" "py_item data ''signature'' = Inr sg"
      and sv: "save_bundle E S m sg fs1 = (Inr u, fs')"
    by (auto simp: fill_staging_def io_bind_Inr res_simps)
  from save_bundle_content [OF sv] write_all_content [OF w] assms(2) ms show ?thesis by auto
qed

lemma dict_to_bundle_unfold:
  "dict_to_bundle E pid data out =
     io_bind (io_lift (validate_bundle_payload E data out)) (\<lambda>validated.
     io_bind (mkdir_p (butlast out)) (\<lambda>_.
     io_bind (\<lambda>fs. if fexists fs (staging_of pid out) then rmtree (staging_of pid out) fs else (Inr (), fs)) (\<lambda>_.
     io_bind (mkdir (staging_of pid out)) (\<lambda>_.
     io_bind (io_try
       (io_bind (fill_staging E data (staging_of pid out) validated) (\<lambda>_. swap_into_place pid (staging_of pid out) out))
       (\<lambda>e. io_bind (rmtree_quiet (staging_of pid out)) (\<lambda>_. io_raise e))) (\<lambda>_. io_ret out)))))"
  unfolding dict_to_bundle_def Let_def install_split by (rule refl)

lemma kept_refl: "same_except (\<lambda>r. \<not> prefix O' r) fs fs' \<Longrightarrow> kept O' B fs fs'"
  by (simp add: kept_def same_except_def)

text \<open>The state when the staging directory has just been made.\<close>

lemma prepare_staging:
  assumes "S = base @ [s]" and "mkdir_p base fs = (Inr u1, fs1)"
    and "(if fexists fs1 S then rmtree S fs1 else (Inr (), fs1)) = (Inr u2, fs2)"
    and "mkdir S fs2 = (Inr u3, fs3)"
  shows "staging_state base S fs fs3" and "fs_wf fs \<Longrightarrow> content fs3 S = (\<lambda>_. None)"
proof -
  note d = mkdir_p_added [OF assms(2)]
  have f2: "same_except (prefix S) fs1 fs2" and l2: "later fs1 fs2"
    using assms(3) rmtree_frame [of S fs1 "Inr u2" fs2] rmtree_later [of S fs1 "Inr u2" fs2] by (auto split: if_split_asm)
  have b1: "at_path fs1 base = Some Dir" using mkdir_p_Inr [OF assms(2)] by simp
  have b2: "at_path fs2 base = Some Dir" using same_exceptD [OF f2, of base] b1 assms(1) by simp
  have m: "fs3 = put S Dir (tick fs2)" and none: "at_path fs2 S = None"
    using assms(4) by (auto elim!: mkdir_cases)
  have S: "S \<noteq> []" "base \<noteq> S" using assms(1) by auto
  have "same_except (\<lambda>r. prefix S r \<or> prefix r base) fs fs1"
    by (rule same_except_mono [OF dirs_added_frame [OF d]]) simp
  moreover have "same_except (\<lambda>r. prefix S r \<or> prefix r base) fs1 fs2"
    by (rule same_except_mono [OF f2]) simp
  moreover have "same_except (\<lambda>r. prefix S r \<or> prefix r base) fs2 fs3"
    using S by (simp add: m same_except_def at_put)
  moreover have "later fs fs3"
    using mkdir_p_later [OF assms(2)] l2 mkdir_later [OF assms(4)] later_trans by blast
  ultimately show "staging_state base S fs fs3"
    using b2 S unfolding staging_state_def by (auto simp: m at_put intro: same_except_trans)
  assume wf: "fs_wf fs"
  have "at_path fs3 (S @ r) = None" if "r \<noteq> []" for r
  proof (cases "fexists fs1 S")
    case True
    with assms(3) have "fs2 = remove_under S (tick fs1)" by (auto elim!: rmtree_cases)
    then show ?thesis using that S by (simp add: m at_put at_remove_under)
  next
    case False
    then have "fs2 = fs1" using assms(3) by simp
    have np: "\<not> prefix (S @ r) base" "\<not> prefix S base" using assms(1) by (auto simp: prefix_def)
    have "at_path fs S = None"
      using False dirs_added_keeps [OF d] by (metis fexists_def not_None_eq)
    then have "at_path fs (S @ r) = None" using at_path_below [OF wf] by blast
    moreover have "at_path fs1 (S @ r) = at_path fs (S @ r)"
      using d np(1) unfolding dirs_added_def by blast
    ultimately show ?thesis using that S by (simp add: m at_put \<open>fs2 = fs1\<close>)
  qed
  moreover have "at_path fs3 S = Some Dir" using S by (simp add: m at_put)
  ultimately have "content fs3 S r = None" for r
    by (cases "r = []") (simp_all add: content_def)
  then show "content fs3 S = (\<lambda>_. None)" by (intro ext)
qed

lemma map_of_rev_distinct: "distinct (map fst xs) \<Longrightarrow> map_of (rev xs) = map_of xs"
  by (rule map_of_inject_set [THEN iffD2]) (simp_all add: rev_map [symmetric])

definition installed :: "env \<Rightarrow> json \<Rightarrow> (string \<times> string) list \<Rightarrow> fsys \<Rightarrow> path \<Rightarrow> bool" where
  "installed E data vs fs out \<longleftrightarrow>
     (\<exists>m t. py_item data ''manifest'' = Inr m \<and> py_item data ''signature'' = Inr (JStr t) \<and>
       content fs out = (map_of (rev (map (\<lambda>(p, c). (split_on (CHR ''/'') p, c)) vs)))
         ([''manifest.json''] \<mapsto> dumps_indent E m, [''manifest.sig''] \<mapsto> t))"

lemma install_outcome:
  assumes "out = base @ [o']" "backup_of pid out = base @ [b]" "o' \<noteq> s" "o' \<noteq> b" "s \<noteq> b" "S = base @ [s]"
    and "staging_state base S fs fs3" and "content fs3 S = (\<lambda>_. None)"
    and "validate_bundle_payload E data out = Inr vs"
    and run: "io_bind (io_try
       (io_bind (fill_staging E data S vs) (\<lambda>_. swap_into_place pid S out))
       (\<lambda>e. io_bind (rmtree_quiet S) (\<lambda>_. io_raise e))) (\<lambda>_. io_ret out) fs3 = (res, fs')"
  shows "(\<forall>p. res = Inr p \<longrightarrow> p = out \<and>
      (\<exists>vs. validate_bundle_payload E data out = Inr vs \<and> installed E data vs fs' out)) \<and>
    (\<forall>e. res = Inl e \<longrightarrow> kept out (base @ [b]) fs fs')"
proof -
  obtain r4 fs4 where f: "fill_staging E data S vs fs3 = (r4, fs4)" by (cases "fill_staging E data S vs fs3")
  have st: "staging_state base S fs fs4" by (rule fill_staging_state [OF assms(6,7) f])
  have same: "at_path fs4 (out @ r) = at_path fs (out @ r)" for r
    using st assms(1,3,6) unfolding staging_state_def same_except_def by (auto simp: prefix_def)
  have clean: "at_path (snd (rmtree S g)) (out @ r) = at_path g (out @ r)"
    "at_path (snd (rmtree S g)) (base @ [b] @ r) = at_path g (base @ [b] @ r)" for g r
    using same_exceptD [OF rmtree_frame [of S g "fst (rmtree S g)" "snd (rmtree S g)"]] assms(1,3,5,6) by auto
  show ?thesis
  proof (cases r4)
    case (Inl e)
    with run f have "res = Inl e" "fs' = snd (rmtree S fs4)"
      by (auto simp: io_bind_def io_try_def rmtree_quiet_def io_raise_def)
    then show ?thesis by (auto simp: kept_def clean same)
  next
    case (Inr u)
    obtain r5 fs5 where sw: "swap_into_place pid S out fs4 = (r5, fs5)" by (cases "swap_into_place pid S out fs4")
    have "at_path fs4 S = Some Dir" "at_path fs4 base = Some Dir" using st by (auto simp: staging_state_def)
    note res5 = swap_into_place_result [OF assms(6,1,2,3,4,5) this sw]
    show ?thesis
    proof (cases r5)
      case (Inl e)
      with run f Inr sw have *: "res = Inl e" "fs' = snd (rmtree S fs5)"
        by (auto simp: io_bind_def io_try_def rmtree_quiet_def io_raise_def)
      have "trouble fs4 \<le> trouble fs" using st trouble_later by (auto simp: staging_state_def)
      with res5 Inl show ?thesis by (auto simp: * kept_def clean clean [simplified] same)
    next
      case (Inr u5)
      with run f \<open>r4 = Inr u\<close> sw have "res = Inr out" "fs' = fs5"
        by (auto simp: io_bind_def io_try_def io_ret_def)
      moreover have "content fs5 out = content fs4 S"
        using res5 Inr by (auto simp: content_def fun_eq_iff)
      ultimately show ?thesis
        using fill_staging_content [OF f [unfolded \<open>r4 = Inr u\<close>] assms(8)] assms(9) by (auto simp: installed_def)
    qed
  qed
qed

lemma dict_to_bundle_result:
  assumes "out \<noteq> []" and "fs_wf fs" and "dict_to_bundle E pid data out fs = (res, fs')"
  shows "(\<forall>p. res = Inr p \<longrightarrow> p = out \<and>
      (\<exists>vs. validate_bundle_payload E data out = Inr vs \<and> installed E data vs fs' out)) \<and>
    (\<forall>e. res = Inl e \<longrightarrow> kept out (backup_of pid out) fs fs')"
proof -
  obtain base o' s b where *: "out = base @ [o']" "butlast out = base" "staging_of pid out = base @ [s]"
      "backup_of pid out = base @ [b]" "o' \<noteq> s" "o' \<noteq> b" "s \<noteq> b"
    by (rule staging_backup [OF assms(1)])
  define S where S: "S = base @ [s]"
  have so: "staging_of pid out = S" using *(3) S by simp
  note run = assms(3) [unfolded dict_to_bundle_unfold so *(2)]
  show ?thesis
  proof (cases "validate_bundle_payload E data out")
    case (Inl e)
    with run show ?thesis by (auto simp: io_bind_def io_lift_def kept_def)
  next
    case (Inr vs)
    note val = this
    obtain r1 fs1 where m1: "mkdir_p base fs = (r1, fs1)" by (cases "mkdir_p base fs")
    have k1: "same_except (\<lambda>r. \<not> prefix out r) fs fs1"
      by (rule same_except_mono [OF dirs_added_frame [OF mkdir_p_added [OF m1]]]) (use *(1) in \<open>auto simp: prefix_def\<close>)
    show ?thesis
    proof (cases r1)
      case (Inl e)
      with run val m1 kept_refl [OF k1] show ?thesis by (auto simp: io_bind_def io_lift_def)
    next
      case (Inr u1)
      obtain r2 fs2 where m2: "(if fexists fs1 S then rmtree S fs1 else (Inr (), fs1)) = (r2, fs2)"
        by (cases "if fexists fs1 S then rmtree S fs1 else (Inr (), fs1)")
      have "same_except (prefix S) fs1 fs2"
        using m2 rmtree_frame [of S fs1 r2 fs2] by (auto split: if_split_asm)
      then have k2: "same_except (\<lambda>r. \<not> prefix out r) fs fs2"
        using k1 *(1,5) by (intro same_except_trans [OF k1]) (auto simp: S elim!: same_except_mono prefixE)
      show ?thesis
      proof (cases r2)
        case (Inl e)
        with run val m1 Inr m2 kept_refl [OF k2] show ?thesis by (auto simp: io_bind_def io_lift_def)
      next
        case (Inr u2)
        obtain r3 fs3 where m3: "mkdir S fs2 = (r3, fs3)" by (cases "mkdir S fs2")
        have k3: "same_except (\<lambda>r. \<not> prefix out r) fs fs3"
          using *(1,5) by (intro same_except_trans [OF k2] same_except_mono [OF mkdir_frame [OF m3]]) (auto simp: S)
        show ?thesis
        proof (cases r3)
          case (Inl e)
          with run val m1 \<open>r1 = Inr u1\<close> m2 Inr m3 kept_refl [OF k3] show ?thesis
            by (auto simp: io_bind_def io_lift_def)
        next
          case (Inr u3)
          note st = prepare_staging [OF S, of fs _ fs1 _ fs2 _ fs3] 
          have run2: "io_bind (io_try
               (io_bind (fill_staging E data S vs) (\<lambda>_. swap_into_place pid S out))
               (\<lambda>e. io_bind (rmtree_quiet S) (\<lambda>_. io_raise e))) (\<lambda>_. io_ret out) fs3 = (res, fs')"
            using run val m1 \<open>r1 = Inr u1\<close> m2 \<open>r2 = Inr u2\<close> m3 Inr by (simp add: io_bind_def io_lift_def)
          have st1: "staging_state base S fs fs3" and st2: "content fs3 S = (\<lambda>_. None)"
            using st m1 \<open>r1 = Inr u1\<close> m2 \<open>r2 = Inr u2\<close> m3 Inr assms(2) by blast+
          show ?thesis unfolding *(4) by (rule install_outcome [OF *(1,4-7) S st1 st2 val run2])
        qed
      qed
    qed
  qed
qed

end
