(* ===== verification/Trust.thy ===== *)
theory Trust
  imports JsonText FileSys
begin

text \<open>
  The trust package: signals (trust/signal.py), the user's policy (trust/policy.py), the per-peer store
  (trust/store.py) and the scorer (trust/scorer.py).  Scores are computed over the reals: the rounding
  of floating-point arithmetic is not modelled.  A policy read from JSON holds \<open>pyfloat\<close> values; the
  scorer works on a policy of real numbers, which \<open>finite_policy\<close> extracts when every knob is finite.
\<close>

section \<open>Signals and policy\<close>

record signal =
  sig_kind :: string
  sig_content_key :: string
  source_pubkey :: string
  sig_verdict :: string
  sig_reason :: json
  sig_timestamp :: int

record 'r moderator =
  mod_pubkey :: json
  mod_weight :: 'r
  mod_label :: json

record 'r policy =
  threshold_warn :: 'r
  threshold_hide :: 'r
  default_weight_unknown :: 'r
  max_weight_per_peer :: 'r
  learning_rate_per_signal :: 'r
  decay_half_life_days :: 'r
  severity :: "(string, 'r) dict"
  subscribed_moderators :: "'r moderator list"

definition default_policy :: "real policy" where
  "default_policy = \<lparr>threshold_warn = 2, threshold_hide = 5, default_weight_unknown = 1 / 10,
     max_weight_per_peer = 2, learning_rate_per_signal = 1 / 10, decay_half_life_days = 90,
     severity = [(''ok'', 0), (''warn'', 1), (''reject'', 3)], subscribed_moderators = []\<rparr>"

definition is_subscribed_moderator :: "'r policy \<Rightarrow> string \<Rightarrow> 'r option" where
  "is_subscribed_moderator pol pubkey =
     map_option mod_weight (List.find (\<lambda>m. mod_pubkey m = JStr pubkey) (subscribed_moderators pol))"

definition moderator_of :: "env \<Rightarrow> json \<Rightarrow> pyfloat moderator list res" where
  "moderator_of E s =
     (case s of
        JDict d \<Rightarrow>
          (case map_of d ''pubkey'' of
             None \<Rightarrow> Inr []
           | Some pk \<Rightarrow> bindE (py_float E (get_or d ''weight'' (JFloat (Fin 1)))) (\<lambda>w.
               Inr [\<lparr>mod_pubkey = pk, mod_weight = w, mod_label = get_or d ''label'' (JStr [])\<rparr>]))
      | _ \<Rightarrow> Inr [])"

definition knob :: "env \<Rightarrow> json \<Rightarrow> string \<Rightarrow> real \<Rightarrow> pyfloat res" where
  "knob E data k dflt = bindE (py_get data k (JFloat (Fin dflt))) (py_float E)"

definition policy_from_dict :: "env \<Rightarrow> json \<Rightarrow> pyfloat policy res" where
  "policy_from_dict E data =
     bindE (py_get data ''subscribed_moderators'' JNull) (\<lambda>raw.
     bindE (py_iter (json_or raw (JList []))) (\<lambda>items.
     bindE (mapE (moderator_of E) items) (\<lambda>subs.
     bindE (py_get data ''severity'' JNull) (\<lambda>sev.
     bindE (knob E data ''threshold_warn'' (threshold_warn default_policy)) (\<lambda>tw.
     bindE (knob E data ''threshold_hide'' (threshold_hide default_policy)) (\<lambda>th.
     bindE (knob E data ''default_weight_unknown'' (default_weight_unknown default_policy)) (\<lambda>dw.
     bindE (knob E data ''max_weight_per_peer'' (max_weight_per_peer default_policy)) (\<lambda>mw.
     bindE (knob E data ''learning_rate_per_signal'' (learning_rate_per_signal default_policy)) (\<lambda>lr.
     bindE (knob E data ''decay_half_life_days'' (decay_half_life_days default_policy)) (\<lambda>hl.
     bindE (case sev of
         JDict d \<Rightarrow> mapE (\<lambda>(k, v). bindE (py_float E v) (\<lambda>f. Inr (k, f))) d
       | _ \<Rightarrow> Inr (map (\<lambda>(k, x). (k, Fin x)) (severity default_policy))) (\<lambda>sv.
     Inr \<lparr>threshold_warn = tw, threshold_hide = th, default_weight_unknown = dw,
       max_weight_per_peer = mw, learning_rate_per_signal = lr, decay_half_life_days = hl,
       severity = sv, subscribed_moderators = concat subs\<rparr>)))))))))))"

definition load_policy :: "env \<Rightarrow> path \<Rightarrow> pyfloat policy io" where
  "load_policy E p fs =
     (if \<not> fexists fs p then io_lift (policy_from_dict E (JDict [])) fs
      else io_bind (read_text p) (\<lambda>t. io_lift (bindE (loads E t) (policy_from_dict E))) fs)"

definition policy_json :: "pyfloat policy \<Rightarrow> json" where
  "policy_json pol = JDict
     [(''threshold_warn'', JFloat (threshold_warn pol)), (''threshold_hide'', JFloat (threshold_hide pol)),
      (''default_weight_unknown'', JFloat (default_weight_unknown pol)),
      (''max_weight_per_peer'', JFloat (max_weight_per_peer pol)),
      (''learning_rate_per_signal'', JFloat (learning_rate_per_signal pol)),
      (''decay_half_life_days'', JFloat (decay_half_life_days pol)),
      (''severity'', JDict (map (\<lambda>(k, v). (k, JFloat v)) (severity pol))),
      (''subscribed_moderators'', JList (map (\<lambda>m.
         JDict [(''pubkey'', mod_pubkey m), (''weight'', JFloat (mod_weight m)), (''label'', mod_label m)])
         (subscribed_moderators pol)))]"

definition save_policy :: "env \<Rightarrow> pyfloat policy \<Rightarrow> path \<Rightarrow> unit io" where
  "save_policy E pol p =
     io_bind (mkdir_p (butlast p)) (\<lambda>_. write_bytes p (dumps_indent_sorted E (policy_json pol)))"

section \<open>The trust store\<close>

definition load_store :: "env \<Rightarrow> path \<Rightarrow> json io" where
  "load_store E p fs =
     (if \<not> fexists fs p then (Inr (JDict [(''peers'', JDict [])]), fs)
      else io_bind (read_text p) (\<lambda>t. io_lift (bindE (loads E t) (\<lambda>data.
        bindE (py_in ''peers'' data) (\<lambda>has.
        bindE (if has then bindE (py_item data ''peers'') (\<lambda>v. Inr (\<not> is_dict v)) else Inr True) (\<lambda>reset.
        if \<not> reset then Inr data
        else case data of
          JDict d \<Rightarrow> Inr (JDict (AList.update ''peers'' (JDict []) d))
        | _ \<Rightarrow> Inl TypeError))))) fs)"

definition save_store :: "env \<Rightarrow> json \<Rightarrow> path \<Rightarrow> unit io" where
  "save_store E store p =
     io_bind (mkdir_p (butlast p)) (\<lambda>_. write_bytes p (dumps_indent_sorted E store))"

definition neutral_peer :: jdict where
  "neutral_peer = [(''explicit_trust'', JNull), (''confirmed_signals'', JInt 0),
     (''disputed_signals'', JInt 0), (''last_seen'', JInt 0)]"

text \<open>\<open>get_peer\<close> returns the peer's record and the store, which it extends when the peer is new.\<close>

definition get_peer :: "jdict \<Rightarrow> string \<Rightarrow> (json \<times> jdict) res" where
  "get_peer store pubkey =
     (case get_or store ''peers'' (JDict []) of
        JDict peers \<Rightarrow>
          (if get_or peers pubkey JNull = JNull
           then Inr (JDict neutral_peer,
             AList.update ''peers'' (JDict (AList.update pubkey (JDict neutral_peer) peers)) store)
           else Inr (get_or peers pubkey JNull, AList.update ''peers'' (JDict peers) store))
      | _ \<Rightarrow> Inl AttributeError)"

text \<open>An assignment to fields of the record in place.\<close>

definition put_peer :: "jdict \<Rightarrow> string \<Rightarrow> jdict \<Rightarrow> jdict" where
  "put_peer store pubkey rec =
     (case get_or store ''peers'' (JDict []) of
        JDict peers \<Rightarrow> AList.update ''peers'' (JDict (AList.update pubkey (JDict rec) peers)) store
      | _ \<Rightarrow> store)"

definition bump :: "string \<Rightarrow> jdict \<Rightarrow> string \<Rightarrow> int \<Rightarrow> jdict res" where
  "bump field store pubkey now =
     bindE (get_peer store pubkey) (\<lambda>(rec, store').
     bindE (py_get rec field (JInt 0)) (\<lambda>v. bindE (py_int v) (\<lambda>n.
     case rec of
       JDict d \<Rightarrow> Inr (put_peer store' pubkey
         (AList.update ''last_seen'' (JInt now) (AList.update field (JInt (n + 1)) d)))
     | _ \<Rightarrow> Inl TypeError)))"

definition record_confirmed :: "jdict \<Rightarrow> string \<Rightarrow> int \<Rightarrow> jdict res" where
  "record_confirmed store pubkey now = bump ''confirmed_signals'' store pubkey now"

definition record_disputed :: "jdict \<Rightarrow> string \<Rightarrow> int \<Rightarrow> jdict res" where
  "record_disputed store pubkey now = bump ''disputed_signals'' store pubkey now"

definition set_explicit_trust :: "jdict \<Rightarrow> string \<Rightarrow> pyfloat option \<Rightarrow> jdict res" where
  "set_explicit_trust store pubkey value =
     bindE (get_peer store pubkey) (\<lambda>(rec, store').
     case rec of
       JDict d \<Rightarrow> Inr (put_peer store' pubkey
         (AList.update ''explicit_trust'' (case value of None \<Rightarrow> JNull | Some f \<Rightarrow> JFloat f) d))
     | _ \<Rightarrow> Inl TypeError)"

section \<open>The scorer\<close>

datatype decision = Show | Warn | Hide

instantiation decision :: linorder
begin

fun decision_rank :: "decision \<Rightarrow> nat" where
  "decision_rank Show = 0" | "decision_rank Warn = 1" | "decision_rank Hide = 2"

definition less_eq_decision :: "decision \<Rightarrow> decision \<Rightarrow> bool" where
  "less_eq_decision a b \<longleftrightarrow> decision_rank a \<le> decision_rank b"

definition less_decision :: "decision \<Rightarrow> decision \<Rightarrow> bool" where
  "less_decision a b \<longleftrightarrow> decision_rank a < decision_rank b"

instance
proof
  fix a b :: decision
  show "a \<le> b \<Longrightarrow> b \<le> a \<Longrightarrow> a = b"
    by (cases a; cases b) (simp_all add: less_eq_decision_def)
qed (auto simp: less_eq_decision_def less_decision_def)

end

record contribution =
  c_source :: string
  c_verdict :: string
  c_weight :: real
  c_severity :: real
  c_decay :: real
  c_contribution :: real

record score_result =
  score :: real
  decision :: decision
  breakdown :: "contribution list"

definition severity_of :: "real policy \<Rightarrow> signal \<Rightarrow> real" where
  "severity_of pol s = (case map_of (severity pol) (sig_verdict s) of None \<Rightarrow> 0 | Some x \<Rightarrow> x)"

text \<open>\<open>_clamp\<close> on any float: Python's \<open>min\<close> and \<open>max\<close> return their first argument on a NaN.\<close>

fun clamp :: "pyfloat \<Rightarrow> real \<Rightarrow> real \<Rightarrow> real" where
  "clamp (Fin x) low high = max low (min high x)"
| "clamp PosInf low high = max low high"
| "clamp NaN low high = max low high"
| "clamp NegInf low high = low"

definition weight_for :: "env \<Rightarrow> string \<Rightarrow> json \<Rightarrow> real policy \<Rightarrow> real res" where
  "weight_for E pubkey store pol =
     (case is_subscribed_moderator pol pubkey of
        Some w \<Rightarrow> Inr (clamp (Fin w) 0 (max_weight_per_peer pol))
      | None \<Rightarrow>
          bindE (py_get store ''peers'' (JDict [])) (\<lambda>peers.
          bindE (py_get peers pubkey JNull) (\<lambda>rec.
          if rec = JNull then Inr (default_weight_unknown pol)
          else bindE (py_get rec ''explicit_trust'' JNull) (\<lambda>ex.
            if ex \<noteq> JNull
            then bindE (py_float E ex) (\<lambda>f. Inr (clamp f 0 (max_weight_per_peer pol)))
            else bindE (bindE (py_get rec ''confirmed_signals'' (JInt 0)) py_int) (\<lambda>confirmed.
                 bindE (bindE (py_get rec ''disputed_signals'' (JInt 0)) py_int) (\<lambda>disputed.
                 Inr (clamp (Fin (default_weight_unknown pol +
                   learning_rate_per_signal pol * of_int (confirmed - disputed))) 0 (max_weight_per_peer pol))))))))"

definition time_decay :: "int \<Rightarrow> int \<Rightarrow> real \<Rightarrow> real" where
  "time_decay signal_ts now half_life_days =
     (if half_life_days \<le> 0 \<or> signal_ts \<le> 0 \<or> signal_ts \<ge> now then 1
      else (1 / 2) powr ((of_int (now - signal_ts) / 86400) / half_life_days))"

fun dedupe_step :: "real policy \<Rightarrow> (string, signal) dict \<Rightarrow> signal \<Rightarrow> (string, signal) dict" where
  "dedupe_step pol best s =
     (case map_of best (source_pubkey s) of
        None \<Rightarrow> AList.update (source_pubkey s) s best
      | Some cur \<Rightarrow>
          if severity_of pol s > severity_of pol cur then AList.update (source_pubkey s) s best else best)"

definition dedupe_by_source :: "signal list \<Rightarrow> real policy \<Rightarrow> signal list" where
  "dedupe_by_source signals pol = map snd (foldl (dedupe_step pol) [] signals)"

definition decide :: "real \<Rightarrow> real policy \<Rightarrow> decision" where
  "decide s pol = (if s \<ge> threshold_hide pol then Hide else if s \<ge> threshold_warn pol then Warn else Show)"

definition contribution_of :: "env \<Rightarrow> json \<Rightarrow> real policy \<Rightarrow> int \<Rightarrow> signal \<Rightarrow> contribution res" where
  "contribution_of E store pol now s =
     bindE (weight_for E (source_pubkey s) store pol) (\<lambda>w.
       let sv = severity_of pol s; dc = time_decay (sig_timestamp s) now (decay_half_life_days pol)
       in Inr \<lparr>c_source = source_pubkey s, c_verdict = sig_verdict s, c_weight = w, c_severity = sv,
            c_decay = dc, c_contribution = w * sv * dc\<rparr>)"

definition score_content :: "env \<Rightarrow> signal list \<Rightarrow> json \<Rightarrow> real policy \<Rightarrow> int \<Rightarrow> score_result res" where
  "score_content E signals store pol now =
     bindE (mapE (contribution_of E store pol now) (dedupe_by_source signals pol)) (\<lambda>cs.
       let total = sum_list (map c_contribution cs)
       in Inr \<lparr>score = total, decision = decide total pol, breakdown = cs\<rparr>)"

fun fin :: "pyfloat \<Rightarrow> real option" where
  "fin (Fin x) = Some x" | "fin f = None"

fun those_fin :: "('a \<times> pyfloat) list \<Rightarrow> ('a \<times> real) list option" where
  "those_fin [] = Some []"
| "those_fin ((k, f) # xs) =
     (case (fin f, those_fin xs) of (Some x, Some ys) \<Rightarrow> Some ((k, x) # ys) | _ \<Rightarrow> None)"

definition finite_policy :: "pyfloat policy \<Rightarrow> real policy option" where
  "finite_policy pol =
     (case (fin (threshold_warn pol), fin (threshold_hide pol), fin (default_weight_unknown pol),
            fin (max_weight_per_peer pol), fin (learning_rate_per_signal pol), fin (decay_half_life_days pol),
            those_fin (severity pol),
            those_fin (map (\<lambda>m. ((mod_pubkey m, mod_label m), mod_weight m)) (subscribed_moderators pol))) of
        (Some tw, Some th, Some dw, Some mw, Some lr, Some hl, Some sv, Some ms) \<Rightarrow>
          Some \<lparr>threshold_warn = tw, threshold_hide = th, default_weight_unknown = dw,
            max_weight_per_peer = mw, learning_rate_per_signal = lr, decay_half_life_days = hl, severity = sv,
            subscribed_moderators = map (\<lambda>((pk, l), w). \<lparr>mod_pubkey = pk, mod_weight = w, mod_label = l\<rparr>) ms\<rparr>
      | _ \<Rightarrow> None)"

section \<open>Properties of the scorer\<close>

lemma decide_mono: "s \<le> s' \<Longrightarrow> decide s pol \<le> decide s' pol"
  by (auto simp: decide_def less_eq_decision_def)

lemma time_decay_bounds: "0 < time_decay ts now hl" "time_decay ts now hl \<le> 1"
  by (auto simp: time_decay_def intro: powr_le1)

lemma time_decay_antitone: "now \<le> now' \<Longrightarrow> time_decay ts now' hl \<le> time_decay ts now hl"
proof (cases "hl \<le> 0 \<or> ts \<le> 0 \<or> ts \<ge> now")
  case True
  then have "time_decay ts now hl = 1" by (simp add: time_decay_def)
  then show ?thesis by (simp add: time_decay_bounds)
next
  case False
  assume "now \<le> now'"
  with False have "(of_int (now - ts) / 86400) / hl \<le> (of_int (now' - ts) / 86400) / hl"
    by (simp add: divide_right_mono)
  then show ?thesis using False \<open>now \<le> now'\<close> by (simp add: time_decay_def powr_mono')
qed

lemma time_decay_half_life:
  assumes "0 < days" and "0 < ts"
  shows "time_decay ts (ts + 86400 * int days) (real days) = 1 / 2"
  using assms by (simp add: time_decay_def)

lemma clamp_bounds: "low \<le> high \<Longrightarrow> low \<le> clamp f low high \<and> clamp f low high \<le> high"
  by (cases f) auto

lemma weight_for_bounds:
  assumes "weight_for E pk store pol = Inr w" and "0 \<le> max_weight_per_peer pol"
  shows "w = default_weight_unknown pol \<or> 0 \<le> w \<and> w \<le> max_weight_per_peer pol"
proof -
  note b = clamp_bounds [OF assms(2)]
  show ?thesis
    using assms(1) b unfolding weight_for_def
    by (auto simp: res_simps simp del: clamp.simps split: option.split_asm if_split_asm)
qed

text \<open>The invariant of the deduplication loop over the signals seen so far.\<close>

definition best_ok :: "real policy \<Rightarrow> signal list \<Rightarrow> (string, signal) dict \<Rightarrow> bool" where
  "best_ok pol seen best \<longleftrightarrow> dict_ok best \<and>
     (\<forall>k s. map_of best k = Some s \<longrightarrow> source_pubkey s = k \<and> s \<in> set seen) \<and>
     (\<forall>x \<in> set seen. \<exists>s. map_of best (source_pubkey x) = Some s \<and> severity_of pol x \<le> severity_of pol s)"

lemma best_ok_step: "best_ok pol seen best \<Longrightarrow> best_ok pol (seen @ [x]) (dedupe_step pol best x)"
  unfolding best_ok_def by (auto split: option.split intro: order_trans)

lemma best_ok_foldl: "best_ok pol seen best \<Longrightarrow> best_ok pol (seen @ xs) (foldl (dedupe_step pol) best xs)"
proof (induction xs arbitrary: seen best)
  case (Cons x xs)
  from Cons.IH [OF best_ok_step [OF Cons.prems, of x]] show ?case by simp
qed simp

lemma best_ok_dedupe: "best_ok pol xs (foldl (dedupe_step pol) [] xs)"
  using best_ok_foldl [of pol "[]" "[]" xs] by (simp add: best_ok_def)

lemma dedupe_facts:
  shows "set (dedupe_by_source xs pol) \<subseteq> set xs"
    and "distinct (map source_pubkey (dedupe_by_source xs pol))"
    and "x \<in> set xs \<Longrightarrow> \<exists>s \<in> set (dedupe_by_source xs pol). source_pubkey s = source_pubkey x \<and> severity_of pol x \<le> severity_of pol s"
proof -
  let ?b = "foldl (dedupe_step pol) [] xs"
  have ok: "best_ok pol xs ?b" by (rule best_ok_dedupe)
  have m: "(k, s) \<in> set ?b \<longleftrightarrow> map_of ?b k = Some s" for k s
    using ok by (simp add: best_ok_def dict_ok_def)
  show "set (dedupe_by_source xs pol) \<subseteq> set xs"
    using ok m by (fastforce simp: dedupe_by_source_def best_ok_def)
  have f: "map (source_pubkey \<circ> snd) ?b = map fst ?b"
    using ok m by (auto simp: best_ok_def)
  have "distinct (map fst ?b)" using ok by (simp add: best_ok_def dict_ok_def)
  then show "distinct (map source_pubkey (dedupe_by_source xs pol))"
    by (simp only: dedupe_by_source_def map_map f)
  assume "x \<in> set xs"
  then obtain s where "map_of ?b (source_pubkey x) = Some s" "severity_of pol x \<le> severity_of pol s"
    using ok by (auto simp: best_ok_def)
  then show "\<exists>s \<in> set (dedupe_by_source xs pol). source_pubkey s = source_pubkey x \<and> severity_of pol x \<le> severity_of pol s"
    using ok m [of "source_pubkey x" s] by (force simp: dedupe_by_source_def best_ok_def)
qed

text \<open>A signal no more severe than one already given by the same source changes nothing.\<close>

lemma dedupe_absorbs:
  assumes "x \<in> set xs" and "source_pubkey s = source_pubkey x" and "severity_of pol s \<le> severity_of pol x"
  shows "dedupe_by_source (xs @ [s]) pol = dedupe_by_source xs pol"
proof -
  obtain c where "map_of (foldl (dedupe_step pol) [] xs) (source_pubkey x) = Some c" "severity_of pol x \<le> severity_of pol c"
    using best_ok_dedupe [of pol xs] assms(1) by (auto simp: best_ok_def)
  with assms show ?thesis by (simp add: dedupe_by_source_def)
qed

lemma score_absorbs:
  assumes "x \<in> set xs" and "source_pubkey s = source_pubkey x" and "severity_of pol s \<le> severity_of pol x"
  shows "score_content E (xs @ [s]) store pol now = score_content E xs store pol now"
  by (simp add: score_content_def dedupe_absorbs [OF assms])

lemma contribution_of_Inr:
  "contribution_of E store pol now s = Inr c \<longleftrightarrow>
     (\<exists>w. weight_for E (source_pubkey s) store pol = Inr w \<and>
       c = \<lparr>c_source = source_pubkey s, c_verdict = sig_verdict s, c_weight = w, c_severity = severity_of pol s,
            c_decay = time_decay (sig_timestamp s) now (decay_half_life_days pol),
            c_contribution = w * severity_of pol s * time_decay (sig_timestamp s) now (decay_half_life_days pol)\<rparr>)"
  by (auto simp: contribution_of_def res_simps Let_def)

lemma score_content_Inr:
  "score_content E xs store pol now = Inr r \<longleftrightarrow>
     (\<exists>cs. list_all2 (\<lambda>s c. contribution_of E store pol now s = Inr c) (dedupe_by_source xs pol) cs \<and>
       r = \<lparr>score = sum_list (map c_contribution cs), decision = decide (sum_list (map c_contribution cs)) pol, breakdown = cs\<rparr>)"
  by (auto simp: score_content_def res_simps mapE_Inr_iff Let_def)

lemma breakdown_sources:
  assumes "score_content E xs store pol now = Inr r"
  shows "map c_source (breakdown r) = map source_pubkey (dedupe_by_source xs pol)"
proof -
  obtain cs where cs: "list_all2 (\<lambda>s c. contribution_of E store pol now s = Inr c) (dedupe_by_source xs pol) cs"
      "breakdown r = cs"
    using assms by (auto simp: score_content_Inr)
  have "map c_source ys = map source_pubkey ss"
    if "list_all2 (\<lambda>s c. contribution_of E store pol now s = Inr c) ss ys" for ss ys
    using that by (induction rule: list_all2_induct) (auto simp: contribution_of_Inr)
  with cs show ?thesis by simp
qed

definition policy_ok :: "real policy \<Rightarrow> real \<Rightarrow> bool" where
  "policy_ok pol smax \<longleftrightarrow> 0 \<le> default_weight_unknown pol \<and> default_weight_unknown pol \<le> max_weight_per_peer pol \<and>
     0 \<le> smax \<and> (\<forall>(v, x) \<in> set (severity pol). 0 \<le> x \<and> x \<le> smax)"

lemma severity_bounds: "policy_ok pol smax \<Longrightarrow> 0 \<le> severity_of pol s \<and> severity_of pol s \<le> smax"
  by (auto simp: policy_ok_def severity_of_def split: option.split dest!: map_of_SomeD)

lemma contribution_bounds:
  assumes "policy_ok pol smax" and "contribution_of E store pol now s = Inr c"
  shows "0 \<le> c_contribution c \<and> c_contribution c \<le> max_weight_per_peer pol * smax"
proof -
  obtain w where w: "weight_for E (source_pubkey s) store pol = Inr w"
      "c_contribution c = w * severity_of pol s * time_decay (sig_timestamp s) now (decay_half_life_days pol)"
    using assms(2) by (auto simp: contribution_of_Inr)
  have "0 \<le> w" "w \<le> max_weight_per_peer pol"
    using weight_for_bounds [OF w(1)] assms(1) by (auto simp: policy_ok_def)
  moreover have "w * severity_of pol s \<le> max_weight_per_peer pol * smax"
    using calculation severity_bounds [OF assms(1), of s] by (intro mult_mono) auto
  moreover have "0 \<le> w * severity_of pol s"
    using calculation severity_bounds [OF assms(1), of s] by simp
  ultimately show ?thesis
    unfolding w(2) using time_decay_bounds [of "sig_timestamp s" now "decay_half_life_days pol"]
    by (auto intro: mult_left_le order_trans)
qed

text \<open>However many signals are sent, the score is bounded by the number of distinct sources.\<close>

lemma score_bounds:
  assumes "policy_ok pol smax" and "score_content E xs store pol now = Inr r"
  shows "0 \<le> score r \<and> score r \<le> real (card (source_pubkey ` set xs)) * (max_weight_per_peer pol * smax)"
proof -
  obtain cs where cs: "list_all2 (\<lambda>s c. contribution_of E store pol now s = Inr c) (dedupe_by_source xs pol) cs"
      "score r = sum_list (map c_contribution cs)"
    using assms(2) by (auto simp: score_content_Inr)
  have "0 \<le> sum_list (map c_contribution ys) \<and>
      sum_list (map c_contribution ys) \<le> real (length ss) * (max_weight_per_peer pol * smax)"
    if "list_all2 (\<lambda>s c. contribution_of E store pol now s = Inr c) ss ys" for ss ys
    using that
  proof (induction rule: list_all2_induct)
    case (Cons s ss c cs)
    then show ?case using contribution_bounds [OF assms(1), of E store now s c] by (auto simp: algebra_simps)
  qed simp
  moreover have "length (dedupe_by_source xs pol) = card (source_pubkey ` set (dedupe_by_source xs pol))"
    using distinct_card [OF dedupe_facts(2)] by simp
  moreover have "source_pubkey ` set (dedupe_by_source xs pol) = source_pubkey ` set xs"
    using dedupe_facts(1) [of xs pol] dedupe_facts(3) [of _ xs pol] by (auto simp: image_iff; metis subsetD)
  ultimately show ?thesis using cs by metis
qed

section \<open>Properties of the trust store\<close>

definition peer_rec :: "jdict \<Rightarrow> string \<Rightarrow> json option" where
  "peer_rec store pk = (case get_or store ''peers'' (JDict []) of JDict ps \<Rightarrow> map_of ps pk | _ \<Rightarrow> None)"

lemma get_peer_Inr:
  assumes "get_peer store pk = Inr (rec, store')"
  shows "peer_rec store' pk = Some rec \<and> (\<forall>q. q \<noteq> pk \<longrightarrow> peer_rec store' q = peer_rec store q)"
  using assms
  by (auto simp: get_peer_def peer_rec_def get_or_def split: json.split_asm if_split_asm option.splits)

lemma put_peer_rec:
  assumes "peer_rec store pk = Some r"
  shows "peer_rec (put_peer store pk d) q = (if q = pk then Some (JDict d) else peer_rec store q)"
  using assms by (auto simp: put_peer_def peer_rec_def get_or_def split: json.splits option.splits)

lemma weight_for_explicit:
  assumes "is_subscribed_moderator pol pk = None" and "set_explicit_trust store pk (Some f) = Inr store'"
  shows "weight_for E pk (JDict store') pol = Inr (clamp f 0 (max_weight_per_peer pol))"
proof -
  obtain d st where g: "get_peer store pk = Inr (JDict d, st)"
      and s: "store' = put_peer st pk (AList.update ''explicit_trust'' (JFloat f) d)"
  proof -
    obtain rec st where g: "get_peer store pk = Inr (rec, st)"
        and c: "(case rec of JDict d \<Rightarrow> Inr (put_peer st pk
            (AList.update ''explicit_trust'' (case Some f of None \<Rightarrow> JNull | Some x \<Rightarrow> JFloat x) d)) | _ \<Rightarrow> Inl TypeError) = Inr store'"
      using assms(2) by (auto simp: set_explicit_trust_def res_simps)
    then show thesis using that by (cases rec) auto
  qed
  have "peer_rec store' pk = Some (JDict (AList.update ''explicit_trust'' (JFloat f) d))"
    using get_peer_Inr [OF g] by (simp add: s put_peer_rec)
  then show ?thesis
    using assms(1)
    by (auto simp: weight_for_def peer_rec_def get_or_def split: json.split_asm option.splits)
qed

end
