(* ===== verification/PeerChecks.thy ===== *)
theory PeerChecks
  imports ReviewRecords NamingStores Serialization Trust
begin

text \<open>
  The functions of peer/peer.py that judge what others sent: a downloaded bundle, the reviews attached
  to a content, and the listing of reviewers.  They only look; an exception that the code does not
  catch is their result.
\<close>

section \<open>Downloaded bundles\<close>

text \<open>The reason for discarding the bundle, or \<open>None\<close> when it is acceptable.\<close>

definition caught_content :: "exn \<Rightarrow> bool" where
  "caught_content e \<longleftrightarrow> is_value_error e \<or> e = TypeError \<or> (\<exists>k. e = KeyError k)"

definition check_downloaded_bundle ::
  "env \<Rightarrow> int \<Rightarrow> json \<Rightarrow> string \<Rightarrow> string \<Rightarrow> json \<Rightarrow> path \<Rightarrow> string option res" where
  "check_downloaded_bundle E now bundle_data uri trusted_key expected_ref site_dir =
     bindE (py_get bundle_data ''manifest'' JNull) (\<lambda>manifest.
     bindE (py_get bundle_data ''signature'' JNull) (\<lambda>sg.
     if \<not> is_dict manifest \<or> \<not> is_str sg then Inr (Some ''malformed bundle response'')
     else bindE (py_get bundle_data ''files'' JNull) (\<lambda>files.
     if \<not> is_dict files then Inr (Some ''malformed bundle files'')
     else case verify_manifest E manifest sg trusted_key of
       Inl e \<Rightarrow> Inr (Some ''manifest verification error'')
     | Inr False \<Rightarrow> Inr (Some ''manifest signature invalid'')
     | Inr True \<Rightarrow>
         bindE (py_get manifest ''uri'' JNull) (\<lambda>u.
         if u \<noteq> JStr uri then Inr (Some ''manifest is for another uri'')
         else if JStr (compute_manifest_ref E manifest) \<noteq> expected_ref then Inr (Some ''manifest ref mismatch'')
         else bindE (is_manifest_expired now manifest) (\<lambda>old.
           if old then Inr (Some ''manifest expired'')
           else case validate_bundle_payload E bundle_data site_dir of
             Inr vs \<Rightarrow> Inr None
           | Inl e \<Rightarrow> if caught_content e then Inr (Some ''bundle content rejected'') else Inl e)))))"

text \<open>What an acceptable bundle is: signed by the key, for the name, the one the record commits to.\<close>

lemma acceptable_bundle:
  assumes "check_downloaded_bundle E now data uri key ref site = Inr None"
  shows "\<exists>d md s sg vs. data = JDict d \<and> map_of d ''manifest'' = Some (JDict md) \<and> map_of d ''signature'' = Some (JStr s) \<and>
    b64decode (JStr s) = Inr sg \<and> ed_verify E key sg (canonical_json E (JDict md)) \<and>
    get_or md ''public_key'' (JStr []) = JStr (public_key_to_b64 key) \<and> map_of md ''uri'' = Some (JStr uri) \<and>
    ref = JStr (compute_manifest_ref E (JDict md)) \<and> is_manifest_expired now (JDict md) = Inr False \<and>
    validate_bundle_payload E data site = Inr vs"
proof -
  obtain manifest sg files where g: "py_get data ''manifest'' JNull = Inr manifest" "py_get data ''signature'' JNull = Inr sg"
      "is_dict manifest" "is_str sg"
    and rest: "verify_manifest E manifest sg key = Inr True" "py_get manifest ''uri'' JNull = Inr (JStr uri)"
      "JStr (compute_manifest_ref E manifest) = ref" "is_manifest_expired now manifest = Inr False"
      "\<exists>vs. validate_bundle_payload E data site = Inr vs"
    using assms unfolding check_downloaded_bundle_def
    by (elim bindE_InrE) (auto simp: bindE_Inr_iff split: if_split_asm sum.split_asm bool.split_asm)
  obtain d where d: "data = JDict d" "manifest = get_or d ''manifest'' JNull" "sg = get_or d ''signature'' JNull"
    using g(1,2) by (auto simp: py_get_Inr_iff)
  obtain md s where ms: "manifest = JDict md" "sg = JStr s" using g(3,4) by (cases manifest; cases sg) auto
  have "map_of d ''manifest'' = Some (JDict md)" "map_of d ''signature'' = Some (JStr s)"
    using d(2,3) ms by (auto simp: get_or_def split: option.split_asm)
  moreover have "map_of md ''uri'' = Some (JStr uri)"
    using rest(2) ms by (auto simp: get_or_def split: option.split_asm)
  ultimately show ?thesis
    using d(1) rest ms by (auto simp: verify_manifest_True)
qed

section \<open>Attached reviews\<close>

text \<open>What a loop collected came from one of its elements.\<close>

lemma mapE_concat:
  assumes "mapE f xs = Inr yss" and "y \<in> set (concat yss)"
  shows "\<exists>x \<in> set xs. \<exists>ys. f x = Inr ys \<and> y \<in> set ys"
proof -
  have "list_all2 (\<lambda>x ys. f x = Inr ys) xs yss" using assms(1) by (simp add: mapE_Inr_iff)
  then show ?thesis using assms(2) by (induction rule: list_all2_induct) auto
qed

definition text_of :: "json \<Rightarrow> string res" where
  "text_of v = (case v of JStr s \<Rightarrow> Inr s | _ \<Rightarrow> Inl TypeError)"

lemma text_of_Inr [simp]: "text_of v = Inr s \<longleftrightarrow> v = JStr s"
  by (cases v) (simp_all add: text_of_def)

definition signal_of_entry :: "env \<Rightarrow> string \<Rightarrow> json \<Rightarrow> signal list res" where
  "signal_of_entry E expected_ck entry =
     (case entry of
        JDict d \<Rightarrow>
          (let record = get_or d ''record'' JNull; signature = get_or d ''signature'' (JStr []) in
           if \<not> is_dict record \<or> \<not> truthy signature then Inr []
           else bindE (verify_review_record E 0 None record signature) (\<lambda>(ok, m).
             if \<not> ok then Inr []
             else bindE (py_get record ''content_key'' JNull) (\<lambda>k.
               if k \<noteq> JStr expected_ck then Inr []
               else bindE (bindE (py_get record ''reviewer_public_key'' (JStr [])) text_of) (\<lambda>source.
                 bindE (bindE (py_get record ''verdict'' (JStr ''ok'')) text_of) (\<lambda>verdict.
                 bindE (py_get record ''comment'' (JStr [])) (\<lambda>reason.
                 bindE (ts_of record) (\<lambda>t.
                 Inr [\<lparr>sig_kind = ''review'', sig_content_key = expected_ck, source_pubkey = source,
                   sig_verdict = verdict, sig_reason = reason, sig_timestamp = t\<rparr>])))))))
      | _ \<Rightarrow> Inr [])"

definition attachments_to_signals :: "env \<Rightarrow> json list \<Rightarrow> string \<Rightarrow> signal list res" where
  "attachments_to_signals E entries expected_ck =
     bindE (mapE (signal_of_entry E expected_ck) entries) (\<lambda>ss. Inr (concat ss))"

lemma py_get_present: "py_get (JDict r) f v = Inr w \<Longrightarrow> map_of r f \<noteq> None \<Longrightarrow> map_of r f = Some w"
  by (auto simp: get_or_def)

text \<open>Every signal stands for a review of this content that its source signed.\<close>

definition backed :: "env \<Rightarrow> string \<Rightarrow> json list \<Rightarrow> signal \<Rightarrow> bool" where
  "backed E ck entries s \<longleftrightarrow>
     (\<exists>d r sg. JDict d \<in> set entries \<and> get_or d ''record'' JNull = JDict r \<and> get_or d ''signature'' (JStr []) = sg \<and>
        sig_valid E ''reviewer_public_key'' (JDict r) sg \<and> review_wf r \<and> map_of r ''content_key'' = Some (JStr ck) \<and>
        map_of r ''reviewer_public_key'' = Some (JStr (source_pubkey s)) \<and> map_of r ''verdict'' = Some (JStr (sig_verdict s)) \<and>
        ts_of (JDict r) = Inr (sig_timestamp s) \<and> sig_content_key s = ck)"

lemma signal_of_entry_backed:
  assumes "signal_of_entry E ck entry = Inr ss" and "s \<in> set ss"
  shows "backed E ck [entry] s"
proof -
  obtain d where d: "entry = JDict d"
    using assms by (cases entry) (auto simp: signal_of_entry_def)
  let ?r = "get_or d ''record'' JNull" and ?sg = "get_or d ''signature'' (JStr [])"
  obtain m k source verdict reason t where v: "verify_review_record E 0 None ?r ?sg = Inr (True, m)"
      and k: "py_get ?r ''content_key'' JNull = Inr (JStr ck)"
      and g: "py_get ?r ''reviewer_public_key'' (JStr []) = Inr (JStr source)" "py_get ?r ''verdict'' (JStr ''ok'') = Inr (JStr verdict)"
        "ts_of ?r = Inr t"
      and s: "s = \<lparr>sig_kind = ''review'', sig_content_key = ck, source_pubkey = source,
                   sig_verdict = verdict, sig_reason = reason, sig_timestamp = t\<rparr>"
    using assms unfolding d
    by (auto simp: signal_of_entry_def Let_def bindE_Inr_iff split: if_split_asm)
  obtain r where r: "?r = JDict r" "review_wf r" using review.accepted_wf [OF v] by blast
  have n: "map_of r ''content_key'' \<noteq> None" "map_of r ''reviewer_public_key'' \<noteq> None" "map_of r ''verdict'' \<noteq> None"
    using r(2) by (simp_all add: review_wf_def review_fields_def del: not_None_eq)
  have "map_of r ''content_key'' = Some (JStr ck)" "map_of r ''reviewer_public_key'' = Some (JStr source)"
      "map_of r ''verdict'' = Some (JStr verdict)"
    using py_get_present [OF _ n(1)] py_get_present [OF _ n(2)] py_get_present [OF _ n(3)] k g unfolding r(1) by blast+
  then show ?thesis
    unfolding backed_def d s using r g(3) review.accepted_valid [OF v]
    by (intro exI [of _ d] exI [of _ r] exI [of _ ?sg]) simp
qed

lemma backed_mono: "backed E ck xs s \<Longrightarrow> set xs \<subseteq> set ys \<Longrightarrow> backed E ck ys s"
  by (fastforce simp: backed_def)

lemma attachments_to_signals_backed:
  assumes "attachments_to_signals E entries ck = Inr ss" and "s \<in> set ss"
  shows "backed E ck entries s"
proof -
  obtain sss where m: "mapE (signal_of_entry E ck) entries = Inr sss" and ss: "ss = concat sss"
    using assms(1) by (auto simp: attachments_to_signals_def bindE_Inr_iff)
  obtain x y where "x \<in> set entries" "signal_of_entry E ck x = Inr y" "s \<in> set y"
    using mapE_concat [OF m, of s] assms(2) unfolding ss by blast
  then show ?thesis
    using signal_of_entry_backed [of E ck x y s] backed_mono [of E ck "[x]" s entries] by simp
qed

section \<open>The reviewer pool\<close>

definition stale_reviewer :: "int \<Rightarrow> int option \<Rightarrow> json \<Rightarrow> bool res" where
  "stale_reviewer now freshness record =
     (case freshness of
        None \<Rightarrow> Inr False
      | Some f \<Rightarrow> bindE (ts_of record) (\<lambda>t. Inr (now - t > f)))"

text \<open>Two sets of categories meet, or the reviewer declares none; the sets are built only when both lists have elements.\<close>

definition fits_categories :: "json list option \<Rightarrow> json \<Rightarrow> bool res" where
  "fits_categories cats record =
     (case cats of
        None \<Rightarrow> Inr True
      | Some cs \<Rightarrow>
          bindE (py_get record ''categories'' JNull) (\<lambda>c0.
          bindE (py_iter (json_or c0 (JList []))) (\<lambda>mine.
          if mine = [] then Inr True
          else if cs = [] then Inr False
          else bindE (mapE hashable mine) (\<lambda>_. bindE (mapE hashable cs) (\<lambda>_.
            Inr (set mine \<inter> set cs \<noteq> {}))))))"

definition reviewer_of_entry ::
  "env \<Rightarrow> int \<Rightarrow> int option \<Rightarrow> json list option \<Rightarrow> json \<Rightarrow> json list res" where
  "reviewer_of_entry E now freshness cats entry =
     (case entry of
        JDict d \<Rightarrow>
          (let record = get_or d ''record'' JNull; signature = get_or d ''signature'' (JStr []) in
           if \<not> is_dict record \<or> \<not> truthy signature then Inr []
           else bindE (verify_reviewer_opt_in E 0 None record signature) (\<lambda>(ok, m).
             if \<not> ok then Inr []
             else bindE (stale_reviewer now freshness record) (\<lambda>stale.
               if stale then Inr []
               else bindE (py_get record ''public_key'' (JStr [])) (\<lambda>pk.
                 if \<not> truthy pk then Inr []
                 else bindE (fits_categories cats record) (\<lambda>fits. Inr (if fits then [pk] else []))))))
      | _ \<Rightarrow> Inr [])"

definition extract_fresh_reviewer_pool ::
  "env \<Rightarrow> int \<Rightarrow> json list \<Rightarrow> int option \<Rightarrow> json list option \<Rightarrow> json list res" where
  "extract_fresh_reviewer_pool E now entries freshness cats =
     bindE (mapE (reviewer_of_entry E now freshness cats) entries) (\<lambda>ps. Inr (concat ps))"

lemma reviewer_of_entry_sound:
  assumes "reviewer_of_entry E now freshness cats entry = Inr pks" and "pk \<in> set pks"
  shows "\<exists>d r. entry = JDict d \<and> get_or d ''record'' JNull = JDict r \<and> opt_in_wf r \<and>
    sig_valid E ''public_key'' (JDict r) (get_or d ''signature'' (JStr [])) \<and> map_of r ''public_key'' = Some pk \<and>
    (\<forall>f. freshness = Some f \<longrightarrow> (\<exists>t. ts_of (JDict r) = Inr t \<and> now - t \<le> f)) \<and>
    (\<forall>cs. cats = Some cs \<longrightarrow> (\<exists>mine. map_of r ''categories'' = Some (JList mine) \<and> (mine = [] \<or> set mine \<inter> set cs \<noteq> {})))"
proof -
  obtain d where d: "entry = JDict d"
    using assms by (cases entry) (auto simp: reviewer_of_entry_def)
  let ?r = "get_or d ''record'' JNull" and ?sg = "get_or d ''signature'' (JStr [])"
  obtain m where v: "verify_reviewer_opt_in E 0 None ?r ?sg = Inr (True, m)"
      and pk: "py_get ?r ''public_key'' (JStr []) = Inr pk"
      and fr: "stale_reviewer now freshness ?r = Inr False" and ct: "fits_categories cats ?r = Inr True"
    using assms unfolding d
    by (auto simp: reviewer_of_entry_def Let_def bindE_Inr_iff split: if_split_asm)
  obtain r where r: "?r = JDict r" "opt_in_wf r" using opt_in.accepted_wf [OF v] by blast
  have n: "map_of r ''public_key'' \<noteq> None" using r(2) by (simp add: opt_in_wf_def opt_in_fields_def del: not_None_eq)
  then have "map_of r ''public_key'' = Some pk" using pk py_get_present unfolding r(1) by blast
  moreover obtain mine where mine: "map_of r ''categories'' = Some (JList mine)" using r(2) by (auto simp: opt_in_wf_def)
  moreover have "mine = [] \<or> set mine \<inter> set cs \<noteq> {}" if "cats = Some cs" for cs
    using ct mine that unfolding r(1) fits_categories_def
    by (auto simp: json_or_def bindE_Inr_iff split: if_split_asm)
  moreover have "\<exists>t. ts_of (JDict r) = Inr t \<and> now - t \<le> f" if "freshness = Some f" for f
    using fr that unfolding r(1) stale_reviewer_def by (auto simp: bindE_Inr_iff)
  ultimately show ?thesis
    using r opt_in.accepted_valid [OF v] by (intro exI [of _ d] exI [of _ r]) (simp add: d)
qed

text \<open>
  A registered opt-in may hold an unhashable category, which the set of its categories then raises on:
  its verifier only asks for a list.
\<close>

lemma unhashable_category:
  assumes "map_of r ''categories'' = Some (JList mine)" and "mine \<noteq> []" and "cs \<noteq> []" and "mapE hashable mine = Inl e"
  shows "fits_categories (Some cs) (JDict r) = Inl e"
  using assms by (simp add: fits_categories_def json_or_def)

lemma extract_fresh_reviewer_pool_sound:
  assumes "extract_fresh_reviewer_pool E now entries freshness cats = Inr pool" and "pk \<in> set pool"
  shows "\<exists>entry pks. entry \<in> set entries \<and> reviewer_of_entry E now freshness cats entry = Inr pks \<and> pk \<in> set pks"
proof -
  obtain pss where m: "mapE (reviewer_of_entry E now freshness cats) entries = Inr pss" and ps: "pool = concat pss"
    using assms(1) by (auto simp: extract_fresh_reviewer_pool_def bindE_Inr_iff)
  show ?thesis using mapE_concat [OF m, of pk] assms(2) unfolding ps by blast
qed

end
