(* ===== verification/Wire.thy ===== *)
theory Wire
  imports JsonText
begin

text \<open>
  wire.py: length-prefixed JSON frames over a stream.  What a stream still holds for its reader is the
  list of chunks the transport will deliver: \<open>stream.read(k)\<close> returns at most \<open>k\<close> bytes of the first
  one and nothing when the list is empty.  The sender's result is the list of its writes.
\<close>

definition write_chunk_size :: nat where "write_chunk_size = 32 * 1024"

fun stream_read :: "nat \<Rightarrow> string list \<Rightarrow> string \<times> string list" where
  "stream_read k [] = ([], [])"
| "stream_read k (c # cs) = (take k c, if drop k c = [] then cs else drop k c # cs)"

function read_exact :: "nat \<Rightarrow> string \<Rightarrow> string list \<Rightarrow> string option \<times> string list" where
  "read_exact n buf cs =
     (if n \<le> length buf then (Some buf, cs)
      else (let (c, cs') = stream_read (n - length buf) cs
            in if c = [] then (None, cs') else read_exact n (buf @ c) cs'))"
  by pat_completeness auto
termination by (relation "measure (\<lambda>(n, buf, cs). n - length buf)") (auto simp: neq_Nil_conv)

declare read_exact.simps [simp del]

text \<open>\<open>struct.pack("!I", n)\<close> and its inverse on four bytes.\<close>

definition be32 :: "nat \<Rightarrow> string" where
  "be32 n = [char_of (n div 16777216 mod 256), char_of (n div 65536 mod 256), char_of (n div 256 mod 256), char_of (n mod 256)]"

definition of_be32 :: "string \<Rightarrow> nat" where
  "of_be32 s = foldl (\<lambda>a c. a * 256 + of_char c) 0 s"

function slices :: "nat \<Rightarrow> string \<Rightarrow> string list" where
  "slices k s = (if s = [] \<or> k = 0 then [] else take k s # slices k (drop k s))"
  by pat_completeness auto
termination by (relation "measure (\<lambda>(k, s). length s)") auto

declare slices.simps [simp del]

definition send_framed_json :: "env \<Rightarrow> json \<Rightarrow> nat \<Rightarrow> string list res" where
  "send_framed_json E obj max_size =
     (let payload = canonical_json E obj
      in if length payload > max_size then Inl (ValueError ''message too large'')
         else if length payload \<ge> 2 ^ 32 then Inl StructError
         else Inr (slices write_chunk_size (be32 (length payload) @ payload)))"

text \<open>\<open>None\<close>, for a stream that ends early or announces too much, is the value JSON \<open>null\<close> has too.\<close>

definition recv_framed_json :: "env \<Rightarrow> string list \<Rightarrow> nat \<Rightarrow> json res \<times> string list" where
  "recv_framed_json E cs max_size =
     (case read_exact 4 [] cs of
        (None, cs1) \<Rightarrow> (Inr JNull, cs1)
      | (Some header, cs1) \<Rightarrow>
          (let n = of_be32 header
           in if n > max_size then (Inr JNull, cs1)
              else (case read_exact n [] cs1 of
                  (None, cs2) \<Rightarrow> (Inr JNull, cs2)
                | (Some payload, cs2) \<Rightarrow> (bindE (decode_utf8 payload) (loads E), cs2))))"

section \<open>Properties\<close>

lemma concat_slices [simp]: "0 < k \<Longrightarrow> concat (slices k s) = s"
  by (induction k s rule: slices.induct) (subst slices.simps, simp)

lemma slices_bounded: "c \<in> set (slices k s) \<Longrightarrow> c \<noteq> [] \<and> length c \<le> k"
proof (induction k s rule: slices.induct)
  case (1 k s)
  then show ?case by (auto simp: slices.simps [of k s] split: if_split_asm)
qed

lemma length_be32 [simp]: "length (be32 n) = 4"
  by (simp add: be32_def)

lemma of_be32_be32:
  assumes "n < 2 ^ 32"
  shows "of_be32 (be32 n) = n"
proof -
  have d: "n div 65536 = n div 256 div 256" "n div 16777216 = n div 256 div 256 div 256"
    by (simp_all add: div_mult2_eq [symmetric])
  have a: "x = 256 * (x div 256) + x mod 256" for x :: nat by simp
  have "n div 256 div 256 div 256 < 256" using assms by (simp add: div_mult2_eq [symmetric] less_mult_imp_div_less)
  then have "((n div 16777216 mod 256 * 256 + n div 65536 mod 256) * 256 + n div 256 mod 256) * 256 + n mod 256 = n"
    unfolding d using a [of n] a [of "n div 256"] a [of "n div 256 div 256"] by (simp; linarith)
  then show ?thesis by (simp only: of_be32_def be32_def foldl.simps of_char_of mod_mod_trivial mult_0 add_0)
qed

text \<open>
  Reading \<open>n\<close> bytes returns the first \<open>n\<close> of what will be delivered, however it is cut into chunks.
\<close>

lemma read_exact_some:
  assumes "[] \<notin> set cs" and "length buf \<le> n" and "n \<le> length buf + length (concat cs)"
  shows "\<exists>cs'. read_exact n buf cs = (Some (buf @ take (n - length buf) (concat cs)), cs') \<and>
    concat cs' = drop (n - length buf) (concat cs) \<and> [] \<notin> set cs'"
  using assms
proof (induction "n - length buf" arbitrary: buf cs rule: less_induct)
  case less
  show ?case
  proof (cases "n \<le> length buf")
    case True
    then show ?thesis
      unfolding read_exact.simps [of n buf cs] using less.prems by simp
  next
    case False
    then obtain c cs1 where cs: "cs = c # cs1" and c: "c \<noteq> []" using less.prems by (cases cs) auto
    define k where "k = n - length buf"
    have k: "0 < k" using False by (simp add: k_def)
    define cs2 where "cs2 = (if drop k c = [] then cs1 else drop k c # cs1)"
    have r: "stream_read (n - length buf) cs = (take k c, cs2)" by (simp add: cs cs2_def k_def)
    have ne: "take k c \<noteq> []" using k c by simp
    have cat: "concat cs = take k c @ concat cs2"
      by (auto simp: cs cs2_def)
    have step: "read_exact n buf cs = read_exact n (buf @ take k c) cs2"
      using False ne by (simp add: read_exact.simps [of n buf cs] r)
    have le: "length (buf @ take k c) \<le> n" using False by (simp add: k_def)
    have lt: "n - length (buf @ take k c) < n - length buf"
      using k c by (cases c) (simp_all add: k_def)
    have "[] \<notin> set cs2" using less.prems(1) by (auto simp: cs2_def cs)
    moreover have "n \<le> length (buf @ take k c) + length (concat cs2)"
      using less.prems(3) unfolding cat by simp
    ultimately obtain cs' where IH: "read_exact n (buf @ take k c) cs2 =
        (Some ((buf @ take k c) @ take (n - length (buf @ take k c)) (concat cs2)), cs')"
        "concat cs' = drop (n - length (buf @ take k c)) (concat cs2)" "[] \<notin> set cs'"
      using less.hyps [OF lt _ le] by blast
    have l: "length (take k c) \<le> n - length buf" by (simp add: k_def)
    show ?thesis
      unfolding step IH(1) cat using IH(2,3) l by (intro exI [of _ cs']) (simp add: k_def)
  qed
qed

lemma read_exact_none:
  assumes "[] \<notin> set cs" and "length buf + length (concat cs) < n"
  shows "\<exists>cs'. read_exact n buf cs = (None, cs')"
  using assms
proof (induction cs arbitrary: buf)
  case Nil
  then show ?case by (simp add: read_exact.simps [of n buf])
next
  case (Cons c cs)
  have "drop (n - length buf) c = []" "take (n - length buf) c = c" using Cons.prems by simp_all
  moreover have "c \<noteq> []" using Cons.prems(1) by auto
  ultimately have "read_exact n buf (c # cs) = read_exact n (buf @ c) cs"
    using Cons.prems(2) by (simp add: read_exact.simps [of n buf "c # cs"])
  then show ?case using Cons.IH [of "buf @ c"] Cons.prems by simp
qed

text \<open>Without floats the text is ASCII, hence well-formed UTF-8.\<close>

definition ascii :: "string \<Rightarrow> bool" where
  "ascii s \<longleftrightarrow> (\<forall>c \<in> set s. of_char c < (128::nat))"

lemma ascii_simps [simp]:
  "ascii []" "ascii (c # s) \<longleftrightarrow> of_char c < (128::nat) \<and> ascii s" "ascii (s @ t) \<longleftrightarrow> ascii s \<and> ascii t"
  by (auto simp: ascii_def)

lemma ascii_hex_char: "d < 16 \<Longrightarrow> of_char (hex_char d) < (128::nat)"
  by (simp add: hex_char_def)

lemma ascii_hex4: "ascii (hex4 v)"
  unfolding hex4_def by (simp add: ascii_hex_char del: of_char_of)

lemma ascii_esc: "ascii (esc c)"
  using ascii_hex4 by (simp add: esc_def)

lemma ascii_quote: "ascii (quote s)"
proof -
  have "ascii (concat (map esc cs))" for cs
    by (induction cs) (simp_all add: ascii_esc)
  then show ?thesis by (simp add: quote_def)
qed

lemma ascii_str_of_nat: "ascii (str_of_nat n)"
  using str_of_nat_digits [of n] unfolding ascii_def is_digit_def Let_def by fastforce

lemma ascii_newline: "ascii (newline st l)" "ascii (colon st)"
  by (auto simp: newline_def colon_def ascii_def split: option.split)

lemma ascii_dumps:
  "no_float j \<Longrightarrow> ascii (dumps E st l j)"
  "no_float_list xs \<Longrightarrow> ascii (dumps_list E st l xs)"
  "no_float_items d \<Longrightarrow> ascii (dumps_items E st l d)"
  by (induction E st l j and E st l xs and E st l d rule: dumps_dumps_list_dumps_items.induct)
    (auto simp: ascii_quote ascii_newline str_of_int_def ascii_str_of_nat)

lemma utf8_canonical: "no_float j \<Longrightarrow> utf8 (canonical_json E j)"
  using ascii_dumps(1) [OF sort_keys_no_float(1)]
  by (intro utf8_ascii) (auto simp: canonical_json_def ascii_def)

text \<open>A frame is received as it was sent, whatever the transport did with its writes.\<close>

lemma frame_roundtrip:
  assumes "jwf obj" "no_float obj"
    and "send_framed_json E obj m = Inr ws" and "m \<le> m'"
    and "concat cs = concat ws @ rest" and "[] \<notin> set cs"
  shows "\<exists>cs'. recv_framed_json E cs m' = (Inr (sort_keys obj), cs') \<and> concat cs' = rest"
proof -
  let ?p = "canonical_json E obj"
  have len: "length ?p \<le> m" "length ?p < 2 ^ 32" and ws: "concat ws = be32 (length ?p) @ ?p"
    using assms(3) by (auto simp: send_framed_json_def Let_def write_chunk_size_def split: if_split_asm)
  have cat: "concat cs = be32 (length ?p) @ ?p @ rest" using assms(5) ws by simp
  obtain cs1 where h: "read_exact 4 [] cs = (Some (be32 (length ?p)), cs1)" "concat cs1 = ?p @ rest" "[] \<notin> set cs1"
    using read_exact_some [OF assms(6), of "[]" 4] cat by auto
  obtain cs2 where "read_exact (length ?p) [] cs1 = (Some ?p, cs2)" "concat cs2 = rest"
    using read_exact_some [OF h(3), of "[]" "length ?p"] h(2) by auto
  then show ?thesis
    using h(1) len assms(4) utf8_canonical [OF assms(2)] of_be32_be32 [OF len(2)] loads_canonical [OF assms(1,2)]
    by (simp add: recv_framed_json_def decode_utf8_def)
qed

text \<open>A frame above the reader's limit, and a stream that ends early, give nothing.\<close>

lemma frame_too_large:
  assumes "concat cs = be32 n @ rest" and "n < 2 ^ 32" and "m < n" and "[] \<notin> set cs"
  shows "fst (recv_framed_json E cs m) = Inr JNull"
proof -
  obtain cs1 where "read_exact 4 [] cs = (Some (be32 n), cs1)"
    using read_exact_some [OF assms(4), of "[]" 4] assms(1) by auto
  then show ?thesis using assms(3) of_be32_be32 [OF assms(2)] by (simp add: recv_framed_json_def)
qed

lemma frame_truncated:
  assumes "concat cs = be32 n @ rest" and "n < 2 ^ 32" and "length rest < n" and "[] \<notin> set cs"
  shows "fst (recv_framed_json E cs m) = Inr JNull"
proof -
  obtain cs1 where h: "read_exact 4 [] cs = (Some (be32 n), cs1)" "concat cs1 = rest" "[] \<notin> set cs1"
    using read_exact_some [OF assms(4), of "[]" 4] assms(1) by auto
  obtain cs2 where "read_exact n [] cs1 = (None, cs2)"
    using read_exact_none [OF h(3), of "[]" n] h(2) assms(3) by auto
  then show ?thesis using h(1) of_be32_be32 [OF assms(2)] by (simp add: recv_framed_json_def)
qed

text \<open>A message goes out exactly when its canonical text fits the frame.\<close>

definition frameable :: "env \<Rightarrow> nat \<Rightarrow> json \<Rightarrow> bool" where
  "frameable E m j \<longleftrightarrow> length (canonical_json E j) \<le> m"

lemma send_frameable: "m < 2 ^ 32 \<Longrightarrow> (\<exists>ws. send_framed_json E j m = Inr ws) \<longleftrightarrow> frameable E m j"
  by (auto simp: send_framed_json_def frameable_def Let_def)

end
