(* ===== verification/BundleProtocol.thy ===== *)
theory BundleProtocol
  imports Serialization Wire "HOL-Library.Multiset"
begin

text \<open>
  peer/bundle_protocol.py: what a seeder answers, the download from one seeder, and the race between
  seeders.  The transport is an argument: \<open>dial addr chunks\<close> connects to an address, writes the chunks
  and gives the chunks read back, or the exception that was raised.  The race is a step relation over
  the downloads that wait, run and have won; \<open>race_result\<close> is the outcome for a given order in which
  they end, and every run of the relation has such an order.
\<close>

definition max_bundle_msg_size :: nat where "max_bundle_msg_size = 100 * 1024 * 1024"
definition bundle_request_size :: nat where "bundle_request_size = 64 * 1024"
definition max_parallel_seeders :: nat where "max_parallel_seeders = 4"

section \<open>The seeder\<close>

type_synonym sites = "(string, path) dict"

definition bundle_error :: "string \<Rightarrow> json" where
  "bundle_error m = JDict [(''type'', JStr ''error''), (''msg'', JStr m)]"

definition sites_lookup :: "sites \<Rightarrow> json \<Rightarrow> path option res" where
  "sites_lookup ss uri =
     bindE (hashable uri) (\<lambda>_. Inr (case uri of JStr u \<Rightarrow> map_of ss u | _ \<Rightarrow> None))"

definition bundle_answer :: "env \<Rightarrow> sites \<Rightarrow> jdict \<Rightarrow> json io" where
  "bundle_answer E ss msg =
     (let kind = get_or msg ''type'' (JStr []); uri = get_or msg ''uri'' (JStr []) in
      io_bind (io_lift (sites_lookup ss uri)) (\<lambda>found.
      case found of
        None \<Rightarrow> io_ret (bundle_error ''site not found'')
      | Some site \<Rightarrow>
          if kind = JStr ''get_bundle''
          then io_bind (bundle_to_dict E site) (\<lambda>data. io_ret (JDict (AList.update ''type'' (JStr ''bundle'') data)))
          else if kind = JStr ''get_manifest''
          then io_bind (load_bundle E site) (\<lambda>(manifest, signature). io_ret
            (JDict [(''type'', JStr ''manifest''), (''manifest'', manifest), (''signature'', JStr signature)]))
          else io_ret (bundle_error ''unknown type'')))"

text \<open>The message sent back, if any: a request that is not an object is dropped without an answer.\<close>

definition bundle_handler :: "env \<Rightarrow> sites \<Rightarrow> string list option \<Rightarrow> fsys \<Rightarrow> json option \<times> fsys" where
  "bundle_handler E ss chunks fs =
     (case (case chunks of None \<Rightarrow> Inr JNull | Some cs \<Rightarrow> fst (recv_framed_json E cs bundle_request_size)) of
        Inl e \<Rightarrow> (Some (bundle_error ''internal error''), fs)
      | Inr (JDict msg) \<Rightarrow>
          (case bundle_answer E ss msg fs of
             (Inl e, fs') \<Rightarrow> (Some (bundle_error ''internal error''), fs')
           | (Inr resp, fs') \<Rightarrow>
               (case send_framed_json E resp max_bundle_msg_size of
                  Inl e \<Rightarrow> (Some (bundle_error ''internal error''), fs')
                | Inr ws \<Rightarrow> (Some resp, fs')))
      | Inr v \<Rightarrow> (None, fs))"

section \<open>One download\<close>

definition bundle_request :: "string \<Rightarrow> string \<Rightarrow> json" where
  "bundle_request kind uri = JDict [(''type'', JStr kind), (''uri'', JStr uri)]"

definition exchange :: "env \<Rightarrow> (string list \<Rightarrow> string list res) \<Rightarrow> json \<Rightarrow> json res" where
  "exchange E far request =
     bindE (send_framed_json E request max_bundle_msg_size) (\<lambda>ws.
     bindE (far ws) (\<lambda>cs. fst (recv_framed_json E cs max_bundle_msg_size)))"

definition download_one :: "env \<Rightarrow> (string \<Rightarrow> string list \<Rightarrow> string list res) \<Rightarrow> string \<Rightarrow> string \<Rightarrow> json option res" where
  "download_one E dial uri addr =
     bindE (exchange E (dial addr) (bundle_request ''get_bundle'' uri)) (\<lambda>response.
     Inr (case response of
            JDict d \<Rightarrow> if get_or d ''type'' JNull = JStr ''bundle'' then Some response else None
          | _ \<Rightarrow> None))"

section \<open>The race\<close>

datatype attempt = TimedOut | Ended "json option res"

text \<open>What the end of one download does to the winner: \<open>try_one\<close> with its guard.\<close>

definition try_one :: "(json \<Rightarrow> string option res) option \<Rightarrow> attempt \<Rightarrow> json option \<Rightarrow> json option" where
  "try_one validate a winner =
     (case a of
        TimedOut \<Rightarrow> winner
      | Ended (Inl e) \<Rightarrow> winner
      | Ended (Inr None) \<Rightarrow> winner
      | Ended (Inr (Some response)) \<Rightarrow>
          if winner \<noteq> None then winner
          else (case validate of
              None \<Rightarrow> Some response
            | Some check \<Rightarrow>
                (case check response of
                   Inl e \<Rightarrow> winner
                 | Inr (Some reason) \<Rightarrow> winner
                 | Inr None \<Rightarrow> Some response)))"

definition race_result :: "(json \<Rightarrow> string option res) option \<Rightarrow> (string \<Rightarrow> attempt) \<Rightarrow> string list \<Rightarrow> json option" where
  "race_result validate outcome order = fold (try_one validate) (map outcome order) None"

record race =
  waiting :: "string list"
  running :: "string list"
  winner :: "json option"

definition race_start :: "string list \<Rightarrow> race" where
  "race_start addrs = \<lparr>waiting = addrs, running = [], winner = None\<rparr>"

text \<open>
  Any waiting download may start while fewer than four run, and any running one may end; the first
  acceptable bundle cancels the rest.
\<close>

inductive race_step :: "(json \<Rightarrow> string option res) option \<Rightarrow> (string \<Rightarrow> attempt) \<Rightarrow> race \<Rightarrow> race \<Rightarrow> bool"
  for validate outcome where
  begins: "winner s = None \<Longrightarrow> waiting s = xs @ a # ys \<Longrightarrow> length (running s) < max_parallel_seeders \<Longrightarrow>
    race_step validate outcome s (s\<lparr>waiting := xs @ ys, running := running s @ [a]\<rparr>)"
| ends: "winner s = None \<Longrightarrow> running s = xs @ a # ys \<Longrightarrow>
    race_step validate outcome s (s\<lparr>running := xs @ ys, winner := try_one validate (outcome a) None\<rparr>)"

inductive race_run :: "(json \<Rightarrow> string option res) option \<Rightarrow> (string \<Rightarrow> attempt) \<Rightarrow> race \<Rightarrow> race \<Rightarrow> bool"
  for validate outcome s0 where
  here: "race_run validate outcome s0 s0"
| on: "race_run validate outcome s0 s \<Longrightarrow> race_step validate outcome s s' \<Longrightarrow> race_run validate outcome s0 s'"

definition race_over :: "race \<Rightarrow> bool" where
  "race_over s \<longleftrightarrow> winner s \<noteq> None \<or> waiting s = [] \<and> running s = []"

lemma try_one_Some:
  "try_one validate a None = Some r \<Longrightarrow> a = Ended (Inr (Some r)) \<and> (\<forall>check. validate = Some check \<longrightarrow> check r = Inr None)"
  by (auto simp: try_one_def split: attempt.splits sum.splits option.splits)

lemma try_one_kept [simp]: "try_one validate a (Some w) = Some w"
  by (auto simp: try_one_def split: attempt.split sum.split option.split)

lemma race_result_append:
  "race_result validate outcome (xs @ [a]) = try_one validate (outcome a) (race_result validate outcome xs)"
  by (simp add: race_result_def)

lemma race_result_None_iff:
  "race_result validate outcome order = None \<longleftrightarrow> (\<forall>a \<in> set order. try_one validate (outcome a) None = None)"
proof (induction order rule: rev_induct)
  case (snoc a xs)
  then show ?case
    by (cases "race_result validate outcome xs") (auto simp: race_result_append)
qed (simp add: race_result_def)

lemma race_result_Some:
  "race_result validate outcome order = Some r \<Longrightarrow> \<exists>a \<in> set order. try_one validate (outcome a) None = Some r"
proof (induction order rule: rev_induct)
  case (snoc a xs)
  then show ?case
    by (cases "race_result validate outcome xs") (auto simp: race_result_append)
qed (simp add: race_result_def)

text \<open>A run keeps at most four downloads going and is the fold over the order in which they ended.\<close>

lemma race_run_inv:
  assumes "race_run validate outcome (race_start addrs) s"
  shows "length (running s) \<le> max_parallel_seeders \<and>
    (\<exists>order. mset order + mset (running s) + mset (waiting s) = mset addrs \<and> winner s = race_result validate outcome order)"
  using assms
proof (induction rule: race_run.induct)
  case here
  show ?case by (simp add: race_start_def race_result_def)
next
  case (on s s')
  obtain order where o: "mset order + mset (running s) + mset (waiting s) = mset addrs"
      "winner s = race_result validate outcome order"
    using on.IH by blast
  from on.hyps(2) show ?case
  proof (cases rule: race_step.cases)
    case (begins xs a ys)
    then show ?thesis using o by (intro conjI exI [of _ order]) auto
  next
    case (ends xs a ys)
    then show ?thesis using o on.IH
      by (intro conjI exI [of _ "order @ [a]"]) (auto simp: race_result_append)
  qed
qed

lemma race_progress:
  assumes "\<not> race_over s" and "0 < length (running s) \<or> length (running s) < max_parallel_seeders"
  shows "\<exists>s'. race_step validate outcome s s'"
proof (cases "running s")
  case Nil
  then obtain a ys where "waiting s = [] @ a # ys"
    using assms(1) by (cases "waiting s") (auto simp: race_over_def)
  then show ?thesis
    using begins [of s "[]" a ys validate outcome] Nil assms(1) by (auto simp: race_over_def max_parallel_seeders_def)
next
  case (Cons a ys)
  then show ?thesis using ends [of s "[]" a ys validate outcome] assms(1) by (auto simp: race_over_def)
qed

text \<open>Every step uses up a start or an end, so a race is over after at most two steps per seeder.\<close>

definition race_measure :: "race \<Rightarrow> nat" where
  "race_measure s = 2 * length (waiting s) + length (running s)"

lemma race_step_measure: "race_step validate outcome s s' \<Longrightarrow> race_measure s' < race_measure s"
  by (cases rule: race_step.cases) (auto simp: race_measure_def)

lemma race_step_wfp: "wfp (\<lambda>b a. race_step validate outcome a b)"
  by (rule wfp_if_convertible_to_nat [of _ race_measure]) (rule race_step_measure)

lemma race_ends: "\<exists>s'. race_run validate outcome s s' \<and> race_over s'"
proof (induction "race_measure s" arbitrary: s rule: less_induct)
  case less
  show ?case
  proof (cases "race_over s")
    case False
    moreover have "0 < length (running s) \<or> length (running s) < max_parallel_seeders"
      by (auto simp: max_parallel_seeders_def)
    ultimately obtain s1 where s1: "race_step validate outcome s s1" using race_progress by blast
    then obtain s2 where s2: "race_run validate outcome s1 s2" "race_over s2"
      using less [OF race_step_measure] by blast
    have "race_run validate outcome s s2" using s2(1)
      by (induction rule: race_run.induct) (auto intro: race_run.intros s1)
    then show ?thesis using s2(2) by blast
  qed (auto intro: here)
qed

text \<open>A race that is over has a winner exactly when some seeder offered an acceptable bundle.\<close>

lemma race_over_winner:
  assumes "race_run validate outcome (race_start addrs) s" and "race_over s"
  shows "(winner s = None \<longleftrightarrow> (\<forall>a \<in> set addrs. try_one validate (outcome a) None = None)) \<and>
    (\<forall>r. winner s = Some r \<longrightarrow> (\<exists>a \<in> set addrs. try_one validate (outcome a) None = Some r))"
proof -
  obtain order where o: "mset order + mset (running s) + mset (waiting s) = mset addrs"
      "winner s = race_result validate outcome order"
    using race_run_inv [OF assms(1)] by blast
  have sub: "set order \<subseteq> set addrs"
    using arg_cong [OF o(1), of set_mset] by auto
  have "winner s = None \<Longrightarrow> set order = set addrs"
    using assms(2) arg_cong [OF o(1), of set_mset] by (auto simp: race_over_def)
  then show ?thesis
    using sub o(2) race_result_None_iff [of validate outcome order] race_result_Some [of validate outcome order]
    by (metis option.distinct(1) subset_iff)
qed

lemma race_winner_sound:
  assumes "race_run validate outcome (race_start addrs) s" and "winner s = Some r"
  shows "\<exists>a \<in> set addrs. outcome a = Ended (Inr (Some r)) \<and> (\<forall>check. validate = Some check \<longrightarrow> check r = Inr None)"
proof -
  obtain order where o: "mset order + mset (running s) + mset (waiting s) = mset addrs"
      "winner s = race_result validate outcome order"
    using race_run_inv [OF assms(1)] by blast
  have "race_result validate outcome order = Some r" using o(2) assms(2) by simp
  from race_result_Some [OF this] obtain a where a: "a \<in> set order" "try_one validate (outcome a) None = Some r" ..
  moreover have "set order \<subseteq> set addrs" using arg_cong [OF o(1), of set_mset] by auto
  ultimately show ?thesis using try_one_Some [OF a(2)] by blast
qed

section \<open>An honest seeder\<close>

text \<open>The far end of a stream that is handled by a seeder with the given sites and disk.\<close>

definition seeder_end :: "env \<Rightarrow> sites \<Rightarrow> fsys \<Rightarrow> string list \<Rightarrow> string list res" where
  "seeder_end E ss fs ws =
     (case fst (bundle_handler E ss (Some ws) fs) of
        None \<Rightarrow> Inr []
      | Some resp \<Rightarrow> (case send_framed_json E resp max_bundle_msg_size of Inl e \<Rightarrow> Inr [] | Inr cs \<Rightarrow> Inr cs))"

text \<open>What an honest seeder holds is what a client downloads, with sorted keys.\<close>

lemma send_other_limit:
  assumes "send_framed_json E j m = Inr ws" and "m \<le> m'"
  shows "send_framed_json E j m' = Inr ws"
  using assms by (auto simp: send_framed_json_def Let_def split: if_split_asm)

lemma sent_is_received:
  assumes "jwf j" "no_float j" and "send_framed_json E j m = Inr ws"
  shows "fst (recv_framed_json E ws m) = Inr (sort_keys j)"
proof -
  have "[] \<notin> set ws"
    using assms(3) slices_bounded [of "[]" write_chunk_size] by (auto simp: send_framed_json_def Let_def split: if_split_asm)
  from frame_roundtrip [OF assms order_refl _ this, of "[]"] show ?thesis by auto
qed

lemma download_from_seeder:
  assumes "map_of ss uri = Some site" and "bundle_to_dict E site fs = (Inr data, fs1)"
    and "utf8 uri" and "jwf (JDict data)" "no_float (JDict data)" and "map_of data ''type'' = None"
    and "send_framed_json E (bundle_request ''get_bundle'' uri) bundle_request_size = Inr ws"
    and "send_framed_json E (JDict (AList.update ''type'' (JStr ''bundle'') data)) max_bundle_msg_size = Inr cs"
  shows "download_one E (\<lambda>addr. seeder_end E ss fs) uri addr =
    Inr (Some (sort_keys (JDict (AList.update ''type'' (JStr ''bundle'') data))))"
proof -
  let ?resp = "JDict (AList.update ''type'' (JStr ''bundle'') data)"
  have new: "AList.update ''type'' (JStr ''bundle'') data = data @ [(''type'', JStr ''bundle'')]"
    using assms(6) by (intro update_new) (auto simp: map_of_eq_None_iff)
  have wf: "jwf ?resp" "no_float ?resp"
    using assms(4,5,6) unfolding new by (auto simp: jwf_items_iff no_float_items_iff map_of_eq_None_iff utf8_ascii)
  obtain d where d: "sort_keys ?resp = JDict d" by simp
  have ty: "map_of d ''type'' = Some (JStr ''bundle'')"
  proof -
    have "distinct (map fst (AList.update ''type'' (JStr ''bundle'') data))" using wf(1) by simp
    from map_of_sort_keys [OF this, of "''type''"] d show ?thesis by simp
  qed
  have req: "jwf (bundle_request ''get_bundle'' uri)" "no_float (bundle_request ''get_bundle'' uri)"
    using assms(3) by (simp_all add: bundle_request_def utf8_ascii)
  have rq: "fst (recv_framed_json E ws bundle_request_size) = Inr (JDict [(''type'', JStr ''get_bundle''), (''uri'', JStr uri)])"
    using sent_is_received [OF req assms(7)] by (simp add: bundle_request_def)
  have "bundle_handler E ss (Some ws) fs = (Some ?resp, fs1)"
    using assms(1,2,8) by (simp add: bundle_handler_def rq bundle_answer_def sites_lookup_def io_bind_def io_lift_def io_ret_def get_or_def)
  then have "seeder_end E ss fs ws = Inr cs" using assms(8) by (simp add: seeder_end_def)
  moreover have "send_framed_json E (bundle_request ''get_bundle'' uri) max_bundle_msg_size = Inr ws"
    using assms(7) by (rule send_other_limit) (simp add: bundle_request_size_def max_bundle_msg_size_def)
  ultimately show ?thesis
    using sent_is_received [OF wf assms(8)] d ty by (simp add: download_one_def exchange_def get_or_def)
qed

end
