(* ===== verification/NameRecords.thy ===== *)
theory NameRecords
  imports Crypto
begin

text \<open>
  bundle/name_records.py: registration proofs and naming records.  The current time is an argument; a
  drift bound of \<open>None\<close> skips the freshness check, as in the source.
\<close>

definition max_timestamp_drift_seconds :: int where "max_timestamp_drift_seconds = 300"

section \<open>Registration proofs\<close>

definition register_message :: "string \<Rightarrow> string \<Rightarrow> int \<Rightarrow> string" where
  "register_message uri author timestamp = ''REGISTER:'' @ author @ '':'' @ uri @ '':'' @ str_of_int timestamp"

definition create_register_proof ::
  "env \<Rightarrow> int \<Rightarrow> string \<Rightarrow> string \<Rightarrow> string \<Rightarrow> int option \<Rightarrow> string \<times> int" where
  "create_register_proof E now uri author sk timestamp =
     (let t = (case timestamp of None \<Rightarrow> now | Some t \<Rightarrow> t)
      in (b64_encode (ed_sign E sk (register_message uri author t)), t))"

definition verify_register_proof ::
  "env \<Rightarrow> int \<Rightarrow> string \<Rightarrow> string \<Rightarrow> json \<Rightarrow> json \<Rightarrow> int \<Rightarrow> int option \<Rightarrow> bool \<times> string" where
  "verify_register_proof E now uri author pk64 proof64 timestamp max_drift =
     (if (case max_drift of None \<Rightarrow> False | Some m \<Rightarrow> \<bar>now - timestamp\<bar> > m)
      then (False, ''Timestamp too old or in future'')
      else (case bindE (b64_to_public_key E pk64) (\<lambda>pk. bindE (b64decode proof64) (\<lambda>proof_bytes.
                if ed_verify E pk proof_bytes (register_message uri author timestamp) then Inr () else Inl InvalidSignature)) of
              Inr u \<Rightarrow> (True, [])
            | Inl InvalidSignature \<Rightarrow> (False, ''Invalid signature'')
            | Inl e \<Rightarrow> (False, ''Verification error'')))"

section \<open>Naming records\<close>

definition build_name_record :: "int \<Rightarrow> string \<Rightarrow> string \<Rightarrow> string \<Rightarrow> string \<Rightarrow> int option \<Rightarrow> jdict" where
  "build_name_record now uri author pk64 manifest_ref timestamp =
     [(''uri'', JStr uri), (''author'', JStr author), (''public_key'', JStr pk64),
      (''manifest_ref'', JStr manifest_ref),
      (''timestamp'', JInt (case timestamp of Some t \<Rightarrow> t | None \<Rightarrow> now))]"

definition sign_name_record :: "env \<Rightarrow> json \<Rightarrow> string \<Rightarrow> string res" where
  "sign_name_record E record sk = sign_by E ''public_key'' record sk"

definition name_record_fields :: "string list" where
  "name_record_fields = [''uri'', ''author'', ''public_key'', ''manifest_ref'', ''timestamp'']"

definition verify_name_record :: "env \<Rightarrow> int \<Rightarrow> int option \<Rightarrow> json \<Rightarrow> json \<Rightarrow> (bool \<times> string) res" where
  "verify_name_record E now max_drift record sig =
     bindE (missing_fields name_record_fields record) (\<lambda>missing.
       if missing \<noteq> [] then Inr (False, ''missing fields: '' @ join '', '' missing)
       else Inr (verify_tail E now max_drift ''public_key'' record sig))"

section \<open>Properties\<close>

lemma register_proof_verifies:
  assumes "ed25519_ok E" and "create_register_proof E now uri author sk timestamp = (proof64, t)"
    and "case md of None \<Rightarrow> True | Some m \<Rightarrow> \<bar>now' - t\<bar> \<le> m"
  shows "verify_register_proof E now' uri author (JStr (public_key_to_b64 (pub_of E sk))) (JStr proof64) t md = (True, [])"
  using assms
  by (auto simp: create_register_proof_def verify_register_proof_def ed25519_ok_def Let_def split: option.split_asm)

definition name_record_wf :: "jdict \<Rightarrow> bool" where
  "name_record_wf d \<longleftrightarrow> (\<forall>f \<in> set name_record_fields. map_of d f \<noteq> None)"

interpretation name_rec: record_verifier E "''public_key''" "verify_name_record E" "sign_name_record E" name_record_wf
  for E
proof unfold_locales
  fix now md d s m
  show "verify_name_record E now md (JDict d) s = Inr (True, m) \<longleftrightarrow>
      m = [] \<and> name_record_wf d \<and> fresh now md (JDict d) \<and> sig_valid E ''public_key'' (JDict d) s"
    by (auto simp: verify_name_record_def missing_fields_dict filter_empty_conv name_record_wf_def
        verify_tail_True)
next
  fix now md r s m
  assume "verify_name_record E now md r s = Inr (True, m)"
  then have "sig_valid E ''public_key'' r s"
    by (auto simp: verify_name_record_def res_simps verify_tail_True split: if_split_asm)
  then show "\<exists>d. r = JDict d" by (auto simp: sig_valid_def)
next
  show "sign_name_record E = sign_by E ''public_key''"
    by (intro ext) (simp add: sign_name_record_def)
qed

lemma build_name_record_wf: "name_record_wf (build_name_record now uri author pk ref t)"
  by (simp add: name_record_wf_def name_record_fields_def build_name_record_def)

text \<open>A record built and signed with one key is accepted by everybody within the drift bound.\<close>

lemma built_name_record_verifies:
  assumes "ed25519_ok E" and "\<bar>now' - now\<bar> \<le> m"
  shows "\<exists>s. sign_name_record E (JDict (build_name_record now uri author (public_key_to_b64 (pub_of E sk)) ref None)) sk = Inr s \<and>
    verify_name_record E now' (Some m) (JDict (build_name_record now uri author (public_key_to_b64 (pub_of E sk)) ref None)) (JStr s)
      = Inr (True, [])"
proof -
  let ?r = "build_name_record now uri author (public_key_to_b64 (pub_of E sk)) ref None"
  obtain s where s: "sign_name_record E (JDict ?r) sk = Inr s"
    by (simp add: sign_name_record_def sign_by_def build_name_record_def get_or_def)
  moreover have "fresh now' (Some m) (JDict ?r)"
    using assms(2) by (simp add: fresh_Some build_name_record_def)
  ultimately show ?thesis
    using name_rec.sign_then_verify [OF assms(1) s build_name_record_wf] by blast
qed

end
