(* ===== verification/NamingServer.thy ===== *)
theory NamingServer
  imports NamingStores NameRecords ReviewRecords Wire
begin

text \<open>
  The naming server of naming.py: its state (four stores, two flags worth of configuration and the
  disk), one definition per message handler, pagination, and the stream handler that reads a request,
  dispatches it and turns every exception into an error answer.  The step relation \<open>serves\<close> and its
  closure \<open>server_run\<close> quantify over every request that may arrive, well-formed or not.
\<close>

definition max_msg_size :: nat where "max_msg_size = 1024 * 1024"
definition max_request_size :: nat where "max_request_size = 64 * 1024"
definition default_page_size :: int where "default_page_size = 500"
definition max_page_size :: int where "max_page_size = 1000"
definition max_reviewers_per_assignment :: nat where "max_reviewers_per_assignment = 16"

record server =
  name_recs :: entries
  reviewer_recs :: "entries option"
  assignments :: "inbox option"
  attachments :: "inbox option"
  strict_reviews :: bool
  names_path :: path
  reviewers_path :: path
  assignments_path :: path
  attachments_path :: path
  disk :: fsys

definition err_resp :: "string \<Rightarrow> json" where
  "err_resp m = JDict [(''type'', JStr ''error''), (''msg'', JStr m)]"

definition run_disk :: "unit io \<Rightarrow> server \<Rightarrow> unit res \<times> server" where
  "run_disk m srv = (case m (disk srv) of (r, d) \<Rightarrow> (r, srv\<lparr>disk := d\<rparr>))"

definition msg_record :: "jdict \<Rightarrow> json" where
  "msg_record msg = json_or (get_or msg ''record'' JNull) (JDict [])"

definition msg_signature :: "jdict \<Rightarrow> json" where
  "msg_signature msg = get_or msg ''signature'' (JStr [])"

definition sliceable :: "json \<Rightarrow> unit res" where
  "sliceable v = (if is_str v \<or> is_list v then Inr () else Inl TypeError)"

section \<open>Names\<close>

text \<open>
  The log call after a registration slices \<open>manifest_ref\<close>, which raises on a value that is neither a
  string nor a list, after the record has been stored.
\<close>

definition handle_register :: "env \<Rightarrow> int \<Rightarrow> jdict \<Rightarrow> server \<Rightarrow> json res \<times> server" where
  "handle_register E now msg srv =
     (let r = msg_record msg; s = msg_signature msg in
      if \<not> truthy r \<or> \<not> truthy s then (Inr (err_resp ''record and signature required''), srv)
      else case py_get r ''uri'' (JStr []) of
        Inl e \<Rightarrow> (Inl e, srv)
      | Inr uri \<Rightarrow>
          (case validate_uri uri of
             Inl e \<Rightarrow> (Inr (err_resp ''invalid URI''), srv)
           | Inr _ \<Rightarrow>
               (case verify_name_record E now (Some max_timestamp_drift_seconds) r s of
                  Inl e \<Rightarrow> (Inl e, srv)
                | Inr (False, m) \<Rightarrow> (Inr (err_resp (''invalid signature: '' @ m)), srv)
                | Inr (True, _) \<Rightarrow>
                    (case name_store_set (name_recs srv) uri r s of
                       Inl e \<Rightarrow> (Inl e, srv)
                     | Inr ((False, m), _) \<Rightarrow> (Inr (err_resp m), srv)
                     | Inr ((True, _), recs) \<Rightarrow>
                         (case run_disk (save_entries E (names_path srv) recs) (srv\<lparr>name_recs := recs\<rparr>) of
                            (Inl e, srv') \<Rightarrow> (Inl e, srv')
                          | (Inr _, srv') \<Rightarrow>
                              (bindE (py_get r ''manifest_ref'' (JStr [])) (\<lambda>ref. bindE (sliceable ref) (\<lambda>_.
                                 Inr (JDict [(''type'', JStr ''ok''), (''uri'', uri)]))), srv'))))))"

definition handle_resolve :: "jdict \<Rightarrow> server \<Rightarrow> json res \<times> server" where
  "handle_resolve msg srv =
     (let uri = get_or msg ''uri'' (JStr []) in
      case validate_uri uri of
        Inl e \<Rightarrow> (Inr (err_resp ''invalid URI''), srv)
      | Inr _ \<Rightarrow>
          (case map_of (name_recs srv) uri of
             None \<Rightarrow> (Inr (err_resp ''unknown uri''), srv)
           | Some (r, s) \<Rightarrow>
               (Inr (JDict [(''type'', JStr ''record''), (''record'', r), (''signature'', s)]), srv)))"

text \<open>\<open>_paginate\<close>: the page and \<open>next_offset\<close>.\<close>

definition page_bounds :: "jdict \<Rightarrow> (int \<times> int) res" where
  "page_bounds msg =
     (case bindE (py_int (get_or msg ''offset'' (JInt 0))) (\<lambda>off.
           bindE (py_int (get_or msg ''limit'' (JInt default_page_size))) (\<lambda>lim. Inr (max 0 off, lim))) of
        Inr b \<Rightarrow> Inr b
      | Inl TypeError \<Rightarrow> Inr (0, default_page_size)
      | Inl e \<Rightarrow> if is_value_error e then Inr (0, default_page_size) else Inl e)"

definition paginate :: "'a list \<Rightarrow> jdict \<Rightarrow> ('a list \<times> int option) res" where
  "paginate items msg =
     bindE (page_bounds msg) (\<lambda>(offset, limit0).
       let limit = min (max 1 limit0) max_page_size
       in Inr (take (nat limit) (drop (nat offset) items),
               if offset + limit < int (length items) then Some (offset + limit) else None))"

definition next_json :: "int option \<Rightarrow> json" where
  "next_json n = (case n of None \<Rightarrow> JNull | Some i \<Rightarrow> JInt i)"

definition page_resp :: "string \<Rightarrow> json list \<Rightarrow> jdict \<Rightarrow> json res" where
  "page_resp kind items msg =
     bindE (paginate items msg) (\<lambda>(page, nxt).
       Inr (JDict [(''type'', JStr kind), (''records'', JList page), (''next_offset'', next_json nxt)]))"

definition handle_list :: "jdict \<Rightarrow> server \<Rightarrow> json res \<times> server" where
  "handle_list msg srv = (page_resp ''names'' (map fst (list_records (name_recs srv))) msg, srv)"

section \<open>Reviewers\<close>

definition handle_register_reviewer :: "env \<Rightarrow> int \<Rightarrow> jdict \<Rightarrow> server \<Rightarrow> json res \<times> server" where
  "handle_register_reviewer E now msg srv =
     (case reviewer_recs srv of
        None \<Rightarrow> (Inr (err_resp ''reviewer registry disabled on this server''), srv)
      | Some recs \<Rightarrow>
          (let r = msg_record msg; s = msg_signature msg in
           if \<not> truthy r \<or> \<not> truthy s then (Inr (err_resp ''record and signature required''), srv)
           else case verify_reviewer_opt_in E now (Some max_review_drift_seconds) r s of
             Inl e \<Rightarrow> (Inl e, srv)
           | Inr (False, m) \<Rightarrow> (Inr (err_resp (''invalid signature: '' @ m)), srv)
           | Inr (True, _) \<Rightarrow>
               (case reviewer_store_set recs r s of
                  Inl e \<Rightarrow> (Inl e, srv)
                | Inr ((False, m), _) \<Rightarrow> (Inr (err_resp m), srv)
                | Inr ((True, _), recs') \<Rightarrow>
                    (case run_disk (reviewer_store_save E (reviewers_path srv) recs') (srv\<lparr>reviewer_recs := Some recs'\<rparr>) of
                       (Inl e, srv') \<Rightarrow> (Inl e, srv')
                     | (Inr _, srv') \<Rightarrow>
                         (bindE (py_get r ''public_key'' (JStr [])) (\<lambda>pk. bindE (sliceable pk) (\<lambda>_.
                            Inr (JDict [(''type'', JStr ''ok''), (''public_key'', pk)]))), srv')))))"

definition handle_list_reviewers :: "jdict \<Rightarrow> server \<Rightarrow> json res \<times> server" where
  "handle_list_reviewers msg srv =
     (case reviewer_recs srv of
        None \<Rightarrow> (Inr (JDict [(''type'', JStr ''reviewers''), (''records'', JList []), (''next_offset'', JNull)]), srv)
      | Some recs \<Rightarrow> (page_resp ''reviewers'' (map entry_json (list_records recs)) msg, srv))"

section \<open>Assignments\<close>

definition check_assignment_reviewers :: "server \<Rightarrow> json \<Rightarrow> string res" where
  "check_assignment_reviewers srv r =
     bindE (py_get r ''reviewer_public_keys'' JNull) (\<lambda>rv0.
     let rv = json_or rv0 (JList []) in
     bindE (py_size rv) (\<lambda>n.
     if n > max_reviewers_per_assignment then Inr ''too many reviewers''
     else bindE (py_iter rv) (\<lambda>revs. bindE (mapE hashable revs) (\<lambda>_.
       if \<not> distinct revs then Inr ''duplicate reviewer in assignment''
       else case reviewer_recs srv of
         None \<Rightarrow> Inr []
       | Some recs \<Rightarrow>
           if filter (\<lambda>k. map_of recs k = None) revs \<noteq> [] then Inr ''reviewer(s) are not registered''
           else Inr []))))"

definition handle_post_assignment :: "env \<Rightarrow> int \<Rightarrow> jdict \<Rightarrow> server \<Rightarrow> json res \<times> server" where
  "handle_post_assignment E now msg srv =
     (case assignments srv of
        None \<Rightarrow> (Inr (err_resp ''assignment inbox disabled on this server''), srv)
      | Some ib \<Rightarrow>
          (let r = msg_record msg; s = msg_signature msg in
           if \<not> truthy r \<or> \<not> truthy s then (Inr (err_resp ''record and signature required''), srv)
           else case verify_review_assignment E now (Some max_review_drift_seconds) r s of
             Inl e \<Rightarrow> (Inl e, srv)
           | Inr (False, m) \<Rightarrow> (Inr (err_resp (''invalid signature: '' @ m)), srv)
           | Inr (True, _) \<Rightarrow>
               (case (if strict_reviews srv then check_assignment_reviewers srv r else Inr []) of
                  Inl e \<Rightarrow> (Inl e, srv)
                | Inr err \<Rightarrow>
                    if err \<noteq> [] then (Inr (err_resp err), srv)
                    else (case assignment_store_add ib r s of
                        (Inl e, ib') \<Rightarrow> (Inl e, srv\<lparr>assignments := Some ib'\<rparr>)
                      | (Inr (False, m), ib') \<Rightarrow> (Inr (err_resp m), srv\<lparr>assignments := Some ib'\<rparr>)
                      | (Inr (True, _), ib') \<Rightarrow>
                          (case run_disk (save_inbox E (assignments_path srv) ib') (srv\<lparr>assignments := Some ib'\<rparr>) of
                             (Inl e, srv') \<Rightarrow> (Inl e, srv')
                           | (Inr _, srv') \<Rightarrow>
                               (bindE (py_get r ''content_key'' (JStr [])) (\<lambda>ck. bindE (sliceable ck) (\<lambda>_.
                                  Inr (JDict [(''type'', JStr ''ok''), (''content_key'', ck)]))), srv'))))))"

definition records_resp :: "string \<Rightarrow> entry list \<Rightarrow> json" where
  "records_resp kind es = JDict [(''type'', JStr kind), (''records'', JList (map entry_json es))]"

definition handle_list_assignments :: "jdict \<Rightarrow> server \<Rightarrow> json res \<times> server" where
  "handle_list_assignments msg srv =
     (case assignments srv of
        None \<Rightarrow> (Inr (records_resp ''assignments'' []), srv)
      | Some ib \<Rightarrow>
          (let pk = get_or msg ''reviewer_public_key'' (JStr []) in
           if \<not> truthy pk then (Inr (err_resp ''reviewer_public_key required''), srv)
           else (bindE (hashable pk) (\<lambda>_. Inr (records_resp ''assignments'' (assignment_for ib pk))), srv)))"

section \<open>Reviews\<close>

definition check_review_was_assigned :: "server \<Rightarrow> json \<Rightarrow> string res" where
  "check_review_was_assigned srv r =
     (case assignments srv of
        None \<Rightarrow> Inr ''reviews require an assignment inbox on this server''
      | Some ib \<Rightarrow>
          bindE (py_get r ''reviewer_public_key'' (JStr [])) (\<lambda>rp.
          bindE (py_get r ''content_key'' (JStr [])) (\<lambda>ck.
          bindE (hashable rp) (\<lambda>_. bindE (hashable ck) (\<lambda>_.
          case assignment_get ib rp ck of
            None \<Rightarrow> Inr ''reviewer was not assigned this content''
          | Some a \<Rightarrow>
              bindE (ts_of r) (\<lambda>t. bindE (bindE (py_get a ''deadline'' (JInt 0)) py_int) (\<lambda>dl.
              if t > dl then Inr ''review submitted after the assignment deadline'' else Inr [])))))))"

definition handle_attach_review :: "env \<Rightarrow> int \<Rightarrow> jdict \<Rightarrow> server \<Rightarrow> json res \<times> server" where
  "handle_attach_review E now msg srv =
     (case attachments srv of
        None \<Rightarrow> (Inr (err_resp ''attachment store disabled on this server''), srv)
      | Some att \<Rightarrow>
          (let r = msg_record msg; s = msg_signature msg in
           if \<not> truthy r \<or> \<not> truthy s then (Inr (err_resp ''record and signature required''), srv)
           else case verify_review_record E now (Some max_review_drift_seconds) r s of
             Inl e \<Rightarrow> (Inl e, srv)
           | Inr (False, m) \<Rightarrow> (Inr (err_resp (''invalid signature: '' @ m)), srv)
           | Inr (True, _) \<Rightarrow>
               (case (if strict_reviews srv then check_review_was_assigned srv r else Inr []) of
                  Inl e \<Rightarrow> (Inl e, srv)
                | Inr err \<Rightarrow>
                    if err \<noteq> [] then (Inr (err_resp err), srv)
                    else (case attachment_store_attach att r s of
                        (Inl e, att') \<Rightarrow> (Inl e, srv\<lparr>attachments := Some att'\<rparr>)
                      | (Inr (False, m), att') \<Rightarrow> (Inr (err_resp m), srv\<lparr>attachments := Some att'\<rparr>)
                      | (Inr (True, _), att') \<Rightarrow>
                          (case run_disk (attachment_store_save E (attachments_path srv) att') (srv\<lparr>attachments := Some att'\<rparr>) of
                             (Inl e, srv') \<Rightarrow> (Inl e, srv')
                           | (Inr _, srv') \<Rightarrow>
                               (bindE (py_get r ''content_key'' (JStr [])) (\<lambda>ck. bindE (sliceable ck) (\<lambda>_.
                                bindE (py_get r ''reviewer_public_key'' (JStr [])) (\<lambda>rp. bindE (sliceable rp) (\<lambda>_.
                                  Inr (JDict [(''type'', JStr ''ok''), (''content_key'', ck)]))))), srv'))))))"

definition handle_get_attachments :: "jdict \<Rightarrow> server \<Rightarrow> json res \<times> server" where
  "handle_get_attachments msg srv =
     (case attachments srv of
        None \<Rightarrow> (Inr (records_resp ''attachments'' []), srv)
      | Some att \<Rightarrow>
          (let ck = get_or msg ''content_key'' (JStr []) in
           if \<not> truthy ck then (Inr (err_resp ''content_key required''), srv)
           else (bindE (hashable ck) (\<lambda>_. Inr (records_resp ''attachments'' (attachments_for att ck))), srv)))"

section \<open>Streams\<close>

definition dispatch :: "env \<Rightarrow> int \<Rightarrow> jdict \<Rightarrow> server \<Rightarrow> json res \<times> server" where
  "dispatch E now msg srv =
     (let t = get_or msg ''type'' JNull in
      if t = JStr ''register'' then handle_register E now msg srv
      else if t = JStr ''resolve'' then handle_resolve msg srv
      else if t = JStr ''list'' then handle_list msg srv
      else if t = JStr ''register_reviewer'' then handle_register_reviewer E now msg srv
      else if t = JStr ''list_reviewers'' then handle_list_reviewers msg srv
      else if t = JStr ''post_assignment'' then handle_post_assignment E now msg srv
      else if t = JStr ''list_assignments'' then handle_list_assignments msg srv
      else if t = JStr ''attach_review'' then handle_attach_review E now msg srv
      else if t = JStr ''get_attachments'' then handle_get_attachments msg srv
      else (Inr (err_resp ''unknown type''), srv))"

text \<open>
  The request is what the stream delivers within the read timeout (\<open>None\<close> when it does not); the answer
  is the message that goes back.  An answer too large to frame is replaced by an error.
\<close>

definition handle_stream :: "env \<Rightarrow> int \<Rightarrow> string list option \<Rightarrow> server \<Rightarrow> json \<times> server" where
  "handle_stream E now chunks srv =
     (case (case chunks of None \<Rightarrow> Inr JNull | Some cs \<Rightarrow> fst (recv_framed_json E cs max_request_size)) of
        Inl e \<Rightarrow> (err_resp ''internal error'', srv)
      | Inr (JDict msg) \<Rightarrow>
          (case dispatch E now msg srv of
             (Inl e, srv') \<Rightarrow> (err_resp ''internal error'', srv')
           | (Inr resp, srv') \<Rightarrow>
               (case send_framed_json E resp max_msg_size of
                  Inl e \<Rightarrow> (err_resp ''internal error'', srv')
                | Inr ws \<Rightarrow> (resp, srv')))
      | Inr v \<Rightarrow> (err_resp ''empty, oversized or malformed request'', srv))"

inductive serves :: "env \<Rightarrow> server \<Rightarrow> server \<Rightarrow> bool" for E where
  serve: "handle_stream E now chunks srv = (resp, srv') \<Longrightarrow> serves E srv srv'"

inductive server_run :: "env \<Rightarrow> server \<Rightarrow> server \<Rightarrow> bool" for E and srv0 where
  start: "server_run E srv0 srv0"
| again: "server_run E srv0 srv \<Longrightarrow> serves E srv srv' \<Longrightarrow> server_run E srv0 srv'"

inductive_cases servesE: "serves E srv srv'"

section \<open>What a handler does to the state\<close>

text \<open>Everything but the named part of the state, and the disk, is as before.\<close>

definition same_except_names :: "server \<Rightarrow> server \<Rightarrow> bool" where
  "same_except_names a b \<longleftrightarrow> reviewer_recs b = reviewer_recs a \<and> assignments b = assignments a \<and>
     attachments b = attachments a \<and> strict_reviews b = strict_reviews a"

definition same_stores :: "server \<Rightarrow> server \<Rightarrow> bool" where
  "same_stores a b \<longleftrightarrow> name_recs b = name_recs a \<and> same_except_names a b"

lemma same_stores_refl [simp]: "same_stores a a"
  by (simp add: same_stores_def same_except_names_def)

lemma run_disk_eq: "run_disk m srv = (r, srv') \<longleftrightarrow> (\<exists>d. m (disk srv) = (r, d) \<and> srv' = srv\<lparr>disk := d\<rparr>)"
  by (auto simp: run_disk_def split: prod.split)

definition good_name :: "env \<Rightarrow> json \<Rightarrow> entry \<Rightarrow> bool" where
  "good_name E k e \<longleftrightarrow> (\<exists>u d. k = JStr u \<and> uri_ok u \<and> fst e = JDict d \<and> map_of d ''uri'' = Some (JStr u) \<and>
     name_record_wf d \<and> sig_valid E ''public_key'' (fst e) (snd e))"

definition good_reviewer :: "env \<Rightarrow> json \<Rightarrow> entry \<Rightarrow> bool" where
  "good_reviewer E k e \<longleftrightarrow> (\<exists>d. fst e = JDict d \<and> map_of d ''public_key'' = Some k \<and>
     opt_in_wf d \<and> sig_valid E ''public_key'' (fst e) (snd e))"

definition good_assignment :: "env \<Rightarrow> json \<Rightarrow> json \<Rightarrow> entry \<Rightarrow> bool" where
  "good_assignment E reviewer ck e \<longleftrightarrow> (\<exists>d revs. fst e = JDict d \<and> map_of d ''content_key'' = Some ck \<and>
     map_of d ''reviewer_public_keys'' = Some (JList revs) \<and> reviewer \<in> set revs \<and>
     assignment_wf E d \<and> sig_valid E ''publisher_public_key'' (fst e) (snd e))"

definition good_review :: "env \<Rightarrow> json \<Rightarrow> json \<Rightarrow> entry \<Rightarrow> bool" where
  "good_review E ck reviewer e \<longleftrightarrow> (\<exists>d. fst e = JDict d \<and> map_of d ''content_key'' = Some ck \<and>
     map_of d ''reviewer_public_key'' = Some reviewer \<and> review_wf d \<and>
     sig_valid E ''reviewer_public_key'' (fst e) (snd e))"

lemma handle_register_cases:
  assumes "handle_register E now msg srv = (res, srv')"
  shows "srv' = srv \<or> same_except_names srv srv' \<and>
    (\<exists>k e. good_name E k e \<and> name_store_set (name_recs srv) k (fst e) (snd e) = Inr ((True, []), name_recs srv') \<and>
      e = (msg_record msg, msg_signature msg) \<and> verify_name_record E now (Some 300) (fst e) (snd e) = Inr (True, []))"
proof (cases "srv' = srv")
  case False
  let ?r = "msg_record msg" and ?s = "msg_signature msg"
  obtain uri u m m' recs where u: "py_get ?r ''uri'' (JStr []) = Inr uri" "validate_uri uri = Inr u"
      and v: "verify_name_record E now (Some max_timestamp_drift_seconds) ?r ?s = Inr (True, m)"
      and st: "name_store_set (name_recs srv) uri ?r ?s = Inr ((True, m'), recs)"
      and rest: "same_except_names srv srv'" "name_recs srv' = recs"
    using assms False
    by (auto simp: handle_register_def Let_def run_disk_eq same_except_names_def
        split: if_split_asm sum.split_asm prod.split_asm bool.split_asm)
  have v': "verify_name_record E now (Some 300) ?r ?s = Inr (True, [])" and vs: "sig_valid E ''public_key'' ?r ?s"
    using v name_rec.accepted_valid [OF v] name_rec.accepts_dict [OF v] name_rec.accepts_iff
    by (auto simp: max_timestamp_drift_seconds_def)
  obtain d where d: "?r = JDict d" "name_record_wf d" using name_rec.accepted_wf [OF v] by blast
  have "map_of d ''uri'' = Some uri"
    using u(1) d by (auto simp: get_or_def name_record_wf_def name_record_fields_def)
  then have g: "good_name E uri (?r, ?s)"
    using u(2) d vs by (auto simp: good_name_def validate_uri_iff)
  have "m' = []" using st by (auto simp: name_store_set_def res_simps split: option.split_asm if_split_asm prod.split_asm)
  then show ?thesis using g st rest v' by auto
qed simp

lemma handle_register_reviewer_cases:
  assumes "handle_register_reviewer E now msg srv = (res, srv')"
  shows "srv' = srv \<or> name_recs srv' = name_recs srv \<and> assignments srv' = assignments srv \<and>
    attachments srv' = attachments srv \<and> strict_reviews srv' = strict_reviews srv \<and>
    (\<exists>recs k e. reviewer_recs srv = Some recs \<and> good_reviewer E k e \<and> reviewer_recs srv' = Some (AList.update k e recs) \<and>
      (\<forall>old. map_of recs k = Some old \<longrightarrow> stamp_of old < stamp_of e))"
proof (cases "srv' = srv")
  case False
  let ?r = "msg_record msg" and ?s = "msg_signature msg"
  obtain recs recs' m m' where rc: "reviewer_recs srv = Some recs"
      and v: "verify_reviewer_opt_in E now (Some max_review_drift_seconds) ?r ?s = Inr (True, m)"
      and st: "reviewer_store_set recs ?r ?s = Inr ((True, m'), recs')"
      and rest: "name_recs srv' = name_recs srv" "assignments srv' = assignments srv"
        "attachments srv' = attachments srv" "strict_reviews srv' = strict_reviews srv" "reviewer_recs srv' = Some recs'"
    using assms False
    by (auto simp: handle_register_reviewer_def Let_def run_disk_eq
        split: if_split_asm sum.split_asm prod.split_asm bool.split_asm option.split_asm)
  obtain pk where pk: "py_get ?r ''public_key'' (JStr []) = Inr pk" "recs' = AList.update pk (?r, ?s) recs"
      "\<forall>old. map_of recs pk = Some old \<longrightarrow> stamp_of old < stamp_of (?r, ?s)"
    using reviewer_store_set_cases [OF st] by auto
  obtain d where d: "?r = JDict d" "opt_in_wf d" using opt_in.accepted_wf [OF v] by blast
  have "map_of d ''public_key'' = Some pk"
    using pk(1) d by (auto simp: get_or_def opt_in_wf_def opt_in_fields_def)
  then have "good_reviewer E pk (?r, ?s)"
    using d opt_in.accepted_valid [OF v] by (auto simp: good_reviewer_def)
  then show ?thesis using rc rest pk by blast
qed simp

lemma check_assignment_reviewers_ok:
  assumes "check_assignment_reviewers srv (JDict d) = Inr []"
    and "map_of d ''reviewer_public_keys'' = Some (JList revs)"
  shows "length revs \<le> 16 \<and> distinct revs \<and>
    (\<forall>recs. reviewer_recs srv = Some recs \<longrightarrow> (\<forall>k \<in> set revs. map_of recs k \<noteq> None))"
proof -
  have "json_or (JList revs) (JList []) = JList revs" by (simp add: json_or_def)
  then show ?thesis
    using assms
    by (auto simp: check_assignment_reviewers_def Let_def max_reviewers_per_assignment_def filter_empty_conv res_simps
        split: if_split_asm option.split_asm)
qed

lemma handle_post_assignment_cases:
  assumes "handle_post_assignment E now msg srv = (res, srv')"
  shows "srv' = srv \<or> name_recs srv' = name_recs srv \<and> reviewer_recs srv' = reviewer_recs srv \<and>
    attachments srv' = attachments srv \<and> strict_reviews srv' = strict_reviews srv \<and>
    (\<exists>ib ib' e ck revs. assignments srv = Some ib \<and> assignments srv' = Some ib' \<and>
      (\<forall>r \<in> set revs. good_assignment E r ck e) \<and>
      (strict_reviews srv \<longrightarrow> (\<forall>recs. reviewer_recs srv = Some recs \<longrightarrow> (\<forall>k \<in> set revs. map_of recs k \<noteq> None))) \<and>
      (\<forall>x y. entry_at ib' x y = entry_at ib x y \<or> x \<in> set revs \<and> y = ck \<and> entry_at ib' x y = Some e))"
proof (cases "srv' = srv")
  case False
  let ?r = "msg_record msg" and ?s = "msg_signature msg"
  obtain ib ib' m res1 where rc: "assignments srv = Some ib"
      and v: "verify_review_assignment E now (Some max_review_drift_seconds) ?r ?s = Inr (True, m)"
      and chk: "strict_reviews srv \<Longrightarrow> check_assignment_reviewers srv ?r = Inr []"
      and st: "assignment_store_add ib ?r ?s = (res1, ib')"
      and rest: "name_recs srv' = name_recs srv" "reviewer_recs srv' = reviewer_recs srv"
        "attachments srv' = attachments srv" "strict_reviews srv' = strict_reviews srv" "assignments srv' = Some ib'"
    using assms False
    by (auto simp: handle_post_assignment_def Let_def run_disk_eq
        split: if_split_asm sum.split_asm prod.split_asm bool.split_asm option.split_asm)
  obtain d where d: "?r = JDict d" "assignment_wf E d" using assignment.accepted_wf [OF v] by blast
  obtain revs ck where revs: "map_of d ''reviewer_public_keys'' = Some (JList revs)" and ck: "map_of d ''content_key'' = Some (JStr ck)"
    using d(2) unfolding assignment_wf_def by blast
  have good: "\<forall>r \<in> set revs. good_assignment E r (JStr ck) (?r, ?s)"
    using d revs ck assignment.accepted_valid [OF v] by (auto simp: good_assignment_def)
  have reg: "strict_reviews srv \<longrightarrow> (\<forall>recs. reviewer_recs srv = Some recs \<longrightarrow> (\<forall>k \<in> set revs. map_of recs k \<noteq> None))"
    using check_assignment_reviewers_ok [OF _ revs, of srv] chk d(1) by auto
  have ch: "\<forall>x y. entry_at ib' x y = entry_at ib x y \<or> x \<in> set revs \<and> y = JStr ck \<and> entry_at ib' x y = Some (?r, ?s)"
  proof (cases "ib' = ib")
    case False
    then obtain t r1 where "assign_loop (JStr ck) t (?r, ?s) ib revs = (r1, ib')"
      using st revs ck d(1)
      by (auto simp: assignment_store_add_def json_or_def res_simps
          split: if_split_asm sum.split_asm prod.split_asm)
    from assign_loop_any [OF this] show ?thesis .
  qed simp
  show ?thesis using rc rest good reg ch by blast
qed simp

lemma handle_attach_review_cases:
  assumes "handle_attach_review E now msg srv = (res, srv')"
  shows "srv' = srv \<or> name_recs srv' = name_recs srv \<and> reviewer_recs srv' = reviewer_recs srv \<and>
    assignments srv' = assignments srv \<and> strict_reviews srv' = strict_reviews srv \<and>
    (\<exists>att att'. attachments srv = Some att \<and> attachments srv' = Some att' \<and>
      (entry_at att' = entry_at att \<or>
       (\<exists>ck rp e. good_review E ck rp e \<and> entry_at att' = entry_at (put_slot ck rp e att) \<and>
         (\<forall>old. entry_at att ck rp = Some old \<longrightarrow> stamp_of old < stamp_of e) \<and>
         (strict_reviews srv \<longrightarrow> (\<exists>ib a dl. assignments srv = Some ib \<and> entry_at ib rp ck = Some a \<and>
            bindE (py_get (fst a) ''deadline'' (JInt 0)) py_int = Inr dl \<and> stamp_of e \<le> dl)))))"
proof (cases "srv' = srv")
  case False
  let ?r = "msg_record msg" and ?s = "msg_signature msg"
  obtain att att' m res1 where rc: "attachments srv = Some att"
      and v: "verify_review_record E now (Some max_review_drift_seconds) ?r ?s = Inr (True, m)"
      and chk: "strict_reviews srv \<Longrightarrow> check_review_was_assigned srv ?r = Inr []"
      and st: "attachment_store_attach att ?r ?s = (res1, att')"
      and rest: "name_recs srv' = name_recs srv" "reviewer_recs srv' = reviewer_recs srv"
        "assignments srv' = assignments srv" "strict_reviews srv' = strict_reviews srv" "attachments srv' = Some att'"
    using assms False
    by (auto simp: handle_attach_review_def Let_def run_disk_eq
        split: if_split_asm sum.split_asm prod.split_asm bool.split_asm option.split_asm)
  obtain d where d: "?r = JDict d" "review_wf d" using review.accepted_wf [OF v] by blast
  show ?thesis
  proof (cases "entry_at att' = entry_at att")
    case True
    then show ?thesis using rc rest by blast
  next
    case False
    then obtain ck rp where k: "py_get ?r ''content_key'' (JStr []) = Inr ck" "py_get ?r ''reviewer_public_key'' (JStr []) = Inr rp"
        "entry_at att' = entry_at (put_slot ck rp (?r, ?s) att)"
        "\<forall>old. entry_at att ck rp = Some old \<longrightarrow> stamp_of old < stamp_of (?r, ?s)"
      using attach_cases [OF st] by blast
    have "map_of d ''content_key'' = Some ck" "map_of d ''reviewer_public_key'' = Some rp"
      using k(1,2) d by (auto simp: get_or_def review_wf_def review_fields_def)
    then have g: "good_review E ck rp (?r, ?s)"
      using d review.accepted_valid [OF v] by (auto simp: good_review_def)
    have "\<exists>ib a dl. assignments srv = Some ib \<and> entry_at ib rp ck = Some a \<and>
            bindE (py_get (fst a) ''deadline'' (JInt 0)) py_int = Inr dl \<and> stamp_of (?r, ?s) \<le> dl" if "strict_reviews srv"
      using chk [OF that] k(1,2)
      by (auto simp: check_review_was_assigned_def res_simps assignment_get_def stamp_of_def
          split: option.split_asm if_split_asm)
    then show ?thesis using rc rest k(3,4) g by blast
  qed
qed simp

section \<open>The invariant of the server\<close>

text \<open>
  Every record stored is verified and filed under the key it is about; with strict reviews, every
  inbox belongs to a registered reviewer and every attached review to an assignment that names its
  author and content.
\<close>

definition server_inv :: "env \<Rightarrow> server \<Rightarrow> bool" where
  "server_inv E srv \<longleftrightarrow>
     (\<forall>k e. map_of (name_recs srv) k = Some e \<longrightarrow> good_name E k e) \<and>
     (\<forall>recs k e. reviewer_recs srv = Some recs \<longrightarrow> map_of recs k = Some e \<longrightarrow> good_reviewer E k e) \<and>
     (\<forall>ib r ck e. assignments srv = Some ib \<longrightarrow> entry_at ib r ck = Some e \<longrightarrow> good_assignment E r ck e) \<and>
     (\<forall>att ck r e. attachments srv = Some att \<longrightarrow> entry_at att ck r = Some e \<longrightarrow> good_review E ck r e) \<and>
     (strict_reviews srv \<longrightarrow> (\<forall>ib recs r ck. assignments srv = Some ib \<longrightarrow> reviewer_recs srv = Some recs \<longrightarrow>
        entry_at ib r ck \<noteq> None \<longrightarrow> map_of recs r \<noteq> None)) \<and>
     (strict_reviews srv \<longrightarrow> (\<forall>att ck r. attachments srv = Some att \<longrightarrow> entry_at att ck r \<noteq> None \<longrightarrow>
        (\<exists>ib. assignments srv = Some ib \<and> entry_at ib r ck \<noteq> None)))"

lemma server_invD:
  assumes "server_inv E srv"
  shows "map_of (name_recs srv) k = Some e \<Longrightarrow> good_name E k e"
    and "reviewer_recs srv = Some recs \<Longrightarrow> map_of recs k = Some e \<Longrightarrow> good_reviewer E k e"
    and "assignments srv = Some ib \<Longrightarrow> entry_at ib r ck = Some e \<Longrightarrow> good_assignment E r ck e"
    and "attachments srv = Some att \<Longrightarrow> entry_at att ck r = Some e \<Longrightarrow> good_review E ck r e"
    and "strict_reviews srv \<Longrightarrow> assignments srv = Some ib \<Longrightarrow> reviewer_recs srv = Some recs \<Longrightarrow>
      entry_at ib r ck \<noteq> None \<Longrightarrow> map_of recs r \<noteq> None"
    and "strict_reviews srv \<Longrightarrow> attachments srv = Some att \<Longrightarrow> entry_at att ck r \<noteq> None \<Longrightarrow>
      \<exists>ib. assignments srv = Some ib \<and> entry_at ib r ck \<noteq> None"
  subgoal by (rule server_inv_def [THEN iffD1, OF assms, THEN conjunct1, rule_format])
  subgoal by (rule server_inv_def [THEN iffD1, OF assms, THEN conjunct2, THEN conjunct1, rule_format])
  subgoal by (rule server_inv_def [THEN iffD1, OF assms, THEN conjunct2, THEN conjunct2, THEN conjunct1, rule_format])
  subgoal by (rule server_inv_def [THEN iffD1, OF assms, THEN conjunct2, THEN conjunct2, THEN conjunct2, THEN conjunct1, rule_format])
  subgoal by (rule server_inv_def [THEN iffD1, OF assms, THEN conjunct2, THEN conjunct2, THEN conjunct2, THEN conjunct2, THEN conjunct1, rule_format])
  subgoal by (rule server_inv_def [THEN iffD1, OF assms, THEN conjunct2, THEN conjunct2, THEN conjunct2, THEN conjunct2, THEN conjunct2, rule_format])
  done

lemma server_invI:
  assumes "\<And>k e. map_of (name_recs srv) k = Some e \<Longrightarrow> good_name E k e"
    and "\<And>recs k e. reviewer_recs srv = Some recs \<Longrightarrow> map_of recs k = Some e \<Longrightarrow> good_reviewer E k e"
    and "\<And>ib r ck e. assignments srv = Some ib \<Longrightarrow> entry_at ib r ck = Some e \<Longrightarrow> good_assignment E r ck e"
    and "\<And>att r ck e. attachments srv = Some att \<Longrightarrow> entry_at att ck r = Some e \<Longrightarrow> good_review E ck r e"
    and "\<And>ib recs r ck. strict_reviews srv \<Longrightarrow> assignments srv = Some ib \<Longrightarrow> reviewer_recs srv = Some recs \<Longrightarrow>
      entry_at ib r ck \<noteq> None \<Longrightarrow> map_of recs r \<noteq> None"
    and "\<And>att r ck. strict_reviews srv \<Longrightarrow> attachments srv = Some att \<Longrightarrow> entry_at att ck r \<noteq> None \<Longrightarrow>
      \<exists>ib. assignments srv = Some ib \<and> entry_at ib r ck \<noteq> None"
  shows "server_inv E srv"
  unfolding server_inv_def by (intro conjI allI impI; rule assms; assumption)

lemma server_keys: "server_inv E srv \<Longrightarrow> \<forall>k \<in> fst ` set (name_recs srv). is_str k"
proof
  fix k
  assume "server_inv E srv" "k \<in> fst ` set (name_recs srv)"
  then obtain e where "map_of (name_recs srv) k = Some e" by (metis map_of_eq_None_iff not_None_eq)
  from server_invD(1) [OF \<open>server_inv E srv\<close> this] show "is_str k" by (auto simp: good_name_def)
qed

lemma server_inv_cong:
  assumes "server_inv E srv" and "name_recs srv' = name_recs srv" "reviewer_recs srv' = reviewer_recs srv"
    "assignments srv' = assignments srv" "attachments srv' = attachments srv" "strict_reviews srv' = strict_reviews srv"
  shows "server_inv E srv'"
  using assms by (simp add: server_inv_def)

lemma inv_register:
  assumes "server_inv E srv" and "handle_register E now msg srv = (res, srv')"
  shows "server_inv E srv'"
  using handle_register_cases [OF assms(2)]
proof (elim disjE conjE exE)
  fix k e
  assume "same_except_names srv srv'" "good_name E k e"
    and st: "name_store_set (name_recs srv) k (fst e) (snd e) = Inr ((True, []), name_recs srv')"
  moreover have "name_recs srv' = AList.update k e (name_recs srv)"
    using name_store_set_cases [OF st] by simp
  ultimately show ?thesis
    using assms(1) by (auto simp: server_inv_def same_except_names_def)
qed (use assms(1) in simp)

lemma inv_register_reviewer:
  assumes "server_inv E srv" and "handle_register_reviewer E now msg srv = (res, srv')"
  shows "server_inv E srv'"
  using handle_register_reviewer_cases [OF assms(2)]
proof (elim disjE conjE exE)
  fix recs k e
  assume eq: "name_recs srv' = name_recs srv" "assignments srv' = assignments srv"
      "attachments srv' = attachments srv" "strict_reviews srv' = strict_reviews srv"
    and rc: "reviewer_recs srv = Some recs" "reviewer_recs srv' = Some (AList.update k e recs)"
    and good: "good_reviewer E k e"
  have a: "good_reviewer E k' e'" if "map_of (AList.update k e recs) k' = Some e'" for k' e'
    using good server_invD(2) [OF assms(1) rc(1)] that by (cases "k' = k") (auto simp: update_conv')
  have b: "map_of (AList.update k e recs) r \<noteq> None"
    if "strict_reviews srv" "assignments srv = Some ib" "entry_at ib r c \<noteq> None" for ib r c
    using server_invD(5) [OF assms(1) that(1,2) rc(1) that(3)] by (simp add: update_conv')
  show ?thesis
    by (rule server_invI) (use a b server_invD(1,3,4,6) [OF assms(1)] in \<open>simp_all add: eq rc\<close>)
qed (use assms(1) in simp)

lemma inv_post_assignment:
  assumes "server_inv E srv" and "handle_post_assignment E now msg srv = (res, srv')"
  shows "server_inv E srv'"
  using handle_post_assignment_cases [OF assms(2)]
proof (elim disjE conjE exE)
  fix ib ib' e ck revs
  assume eq: "name_recs srv' = name_recs srv" "reviewer_recs srv' = reviewer_recs srv"
      "attachments srv' = attachments srv" "strict_reviews srv' = strict_reviews srv"
    and ib: "assignments srv = Some ib" "assignments srv' = Some ib'"
    and good: "\<forall>r \<in> set revs. good_assignment E r ck e"
    and reg: "strict_reviews srv \<longrightarrow> (\<forall>recs. reviewer_recs srv = Some recs \<longrightarrow> (\<forall>k \<in> set revs. map_of recs k \<noteq> None))"
    and ch: "\<forall>x y. entry_at ib' x y = entry_at ib x y \<or> x \<in> set revs \<and> y = ck \<and> entry_at ib' x y = Some e"
  have a: "good_assignment E r c e'" if "entry_at ib' r c = Some e'" for r c e'
    using ch [rule_format, of r c] good server_invD(3) [OF assms(1) ib(1)] that by (metis option.inject)
  have b: "map_of recs r \<noteq> None"
    if "strict_reviews srv" "reviewer_recs srv = Some recs" "entry_at ib' r c \<noteq> None" for recs r c
    using ch [rule_format, of r c] reg server_invD(5) [OF assms(1) that(1) ib(1) that(2)] that by metis
  have c: "entry_at ib' x y \<noteq> None" if "entry_at ib x y \<noteq> None" for x y
    using ch [rule_format, of x y] that by auto
  show ?thesis
  proof (rule server_invI)
    fix att r c
    assume *: "strict_reviews srv'" "attachments srv' = Some att" "entry_at att c r \<noteq> None"
    from server_invD(6) [OF assms(1), of att c r] * c ib
    show "\<exists>ib. assignments srv' = Some ib \<and> entry_at ib r c \<noteq> None" unfolding eq by force
  qed (use a b server_invD(1,2,4) [OF assms(1)] in \<open>simp_all add: eq ib\<close>)
qed (use assms(1) in simp)

lemma inv_attach_review:
  assumes "server_inv E srv" and "handle_attach_review E now msg srv = (res, srv')"
  shows "server_inv E srv'"
  using handle_attach_review_cases [OF assms(2)]
proof (elim disjE conjE exE)
  fix att att'
  assume eq: "name_recs srv' = name_recs srv" "reviewer_recs srv' = reviewer_recs srv"
      "assignments srv' = assignments srv" "strict_reviews srv' = strict_reviews srv"
    and att: "attachments srv = Some att" "attachments srv' = Some att'" "entry_at att' = entry_at att"
  then show ?thesis using assms(1) unfolding server_inv_def by simp
next
  fix att att' ck rp e
  assume eq: "name_recs srv' = name_recs srv" "reviewer_recs srv' = reviewer_recs srv"
      "assignments srv' = assignments srv" "strict_reviews srv' = strict_reviews srv"
    and att: "attachments srv = Some att" "attachments srv' = Some att'" "entry_at att' = entry_at (put_slot ck rp e att)"
    and good: "good_review E ck rp e"
    and as: "strict_reviews srv \<longrightarrow> (\<exists>ib a dl. assignments srv = Some ib \<and> entry_at ib rp ck = Some a \<and>
            bindE (py_get (fst a) ''deadline'' (JInt 0)) py_int = Inr dl \<and> stamp_of e \<le> dl)"
  have a: "good_review E c r e'" if "entry_at att' c r = Some e'" for c r e'
    using good server_invD(4) [OF assms(1) att(1)] that unfolding att(3) entry_at_put_slot
    by (cases "c = ck \<and> r = rp") auto
  have b: "\<exists>ib. assignments srv = Some ib \<and> entry_at ib r c \<noteq> None"
    if st: "strict_reviews srv" and n: "entry_at att' c r \<noteq> None" for c r
  proof (cases "c = ck \<and> r = rp")
    case True
    then show ?thesis using as st by auto
  next
    case False
    then have "entry_at att c r \<noteq> None" using n unfolding att(3) entry_at_put_slot by auto
    then show ?thesis using server_invD(6) [OF assms(1) st att(1)] by blast
  qed
  show ?thesis
    by (rule server_invI) (use a b server_invD(1,2,3,5) [OF assms(1)] in \<open>simp_all add: eq att(1,2)\<close>)
qed (use assms(1) in simp)

lemma read_only_handlers [simp]:
  "snd (handle_resolve msg srv) = srv" "snd (handle_list msg srv) = srv" "snd (handle_list_reviewers msg srv) = srv"
  "snd (handle_list_assignments msg srv) = srv" "snd (handle_get_attachments msg srv) = srv"
  by (auto simp: handle_resolve_def handle_list_def handle_list_reviewers_def handle_list_assignments_def
      handle_get_attachments_def Let_def split: sum.split option.split prod.split)

text \<open>Every request is a state-changing one or leaves the state alone.\<close>

lemma dispatch_cases:
  assumes "dispatch E now msg srv = (res, srv')"
  obtains (reg) "handle_register E now msg srv = (res, srv')"
    | (reviewer) "handle_register_reviewer E now msg srv = (res, srv')"
    | (assign) "handle_post_assignment E now msg srv = (res, srv')"
    | (attach) "handle_attach_review E now msg srv = (res, srv')"
    | (same) "srv' = srv"
proof -
  have ro: "srv' = srv"
    if "handle_resolve msg srv = (res, srv') \<or> handle_list msg srv = (res, srv') \<or>
      handle_list_reviewers msg srv = (res, srv') \<or> handle_list_assignments msg srv = (res, srv') \<or>
      handle_get_attachments msg srv = (res, srv') \<or> (Inr (err_resp ''unknown type''), srv) = (res, srv')"
    using that read_only_handlers [of msg srv] by (metis snd_conv)
  have "dispatch E now msg srv = handle_register E now msg srv \<or>
      dispatch E now msg srv = handle_register_reviewer E now msg srv \<or>
      dispatch E now msg srv = handle_post_assignment E now msg srv \<or>
      dispatch E now msg srv = handle_attach_review E now msg srv \<or>
      dispatch E now msg srv = handle_resolve msg srv \<or> dispatch E now msg srv = handle_list msg srv \<or>
      dispatch E now msg srv = handle_list_reviewers msg srv \<or> dispatch E now msg srv = handle_list_assignments msg srv \<or>
      dispatch E now msg srv = handle_get_attachments msg srv \<or>
      dispatch E now msg srv = (Inr (err_resp ''unknown type''), srv)"
    by (simp add: dispatch_def Let_def)
  then show thesis
    unfolding assms using that(1-4) that(5) [OF ro] by (elim disjE) simp_all
qed

lemma inv_dispatch:
  assumes "server_inv E srv" and "dispatch E now msg srv = (res, srv')"
  shows "server_inv E srv'"
  using assms(2)
proof (cases rule: dispatch_cases)
  case reg
  then show ?thesis by (rule inv_register [OF assms(1)])
next
  case reviewer
  then show ?thesis by (rule inv_register_reviewer [OF assms(1)])
next
  case assign
  then show ?thesis by (rule inv_post_assignment [OF assms(1)])
next
  case attach
  then show ?thesis by (rule inv_attach_review [OF assms(1)])
qed (use assms(1) in simp)

lemma handle_stream_state:
  assumes "handle_stream E now chunks srv = (resp, srv')"
  shows "srv' = srv \<or> (\<exists>msg res. dispatch E now msg srv = (res, srv'))"
proof -
  let ?in = "case chunks of None \<Rightarrow> Inr JNull | Some cs \<Rightarrow> fst (recv_framed_json E cs max_request_size)"
  show ?thesis
  proof (cases "\<exists>msg. ?in = Inr (JDict msg)")
    case True
    then obtain msg where m: "?in = Inr (JDict msg)" by blast
    obtain res srv1 where d: "dispatch E now msg srv = (res, srv1)" by fastforce
    have "srv' = srv1"
      using assms unfolding handle_stream_def m sum.case json.case d prod.case by (auto split: sum.split_asm)
    then show ?thesis using d by blast
  next
    case False
    then have "srv' = srv"
      using assms unfolding handle_stream_def by (simp split: sum.split_asm json.split_asm)
    then show ?thesis by simp
  qed
qed

lemma inv_serves: "serves E srv srv' \<Longrightarrow> server_inv E srv \<Longrightarrow> server_inv E srv'"
  by (elim servesE) (blast dest: handle_stream_state intro: inv_dispatch)

lemma inv_run: "server_run E srv0 srv \<Longrightarrow> server_inv E srv0 \<Longrightarrow> server_inv E srv"
  by (induction rule: server_run.induct) (auto intro: inv_serves)

section \<open>Names along a run\<close>

lemma dispatch_names:
  assumes "dispatch E now msg srv = (res, srv')"
  shows "name_recs srv' = name_recs srv \<or> (\<exists>k e. name_put k e (name_recs srv) = (True, name_recs srv'))"
  using assms
proof (cases rule: dispatch_cases)
  case reg
  from handle_register_cases [OF this] show ?thesis
  proof (elim disjE conjE exE)
    fix k e
    assume "name_store_set (name_recs srv) k (fst e) (snd e) = Inr ((True, []), name_recs srv')"
    then have "name_put k e (name_recs srv) = (True, name_recs srv')" by (simp add: name_put_def)
    then show ?thesis by blast
  qed simp
qed (blast dest: handle_register_reviewer_cases handle_post_assignment_cases handle_attach_review_cases | simp)+

lemma run_names: "server_run E srv0 srv \<Longrightarrow> \<exists>kes. name_recs srv = name_st.puts kes (name_recs srv0)"
proof (induction rule: server_run.induct)
  case start
  show ?case by (rule exI [of _ "[]"]) simp
next
  case (again srv srv')
  then obtain kes where k: "name_recs srv = name_st.puts kes (name_recs srv0)" by blast
  have app: "name_st.puts (xs @ ys) s = name_st.puts ys (name_st.puts xs s)" for xs ys s
    by (induction xs arbitrary: s) auto
  obtain now chunks resp where "handle_stream E now chunks srv = (resp, srv')" using again(2) by (elim servesE)
  then have "srv' = srv \<or> (\<exists>k e. name_put k e (name_recs srv) = (True, name_recs srv')) \<or> name_recs srv' = name_recs srv"
    using handle_stream_state dispatch_names by blast
  then show ?case
  proof (elim disjE exE)
    fix k' e
    assume p: "name_put k' e (name_recs srv) = (True, name_recs srv')"
    show ?thesis by (rule exI [of _ "kes @ [(k', e)]"]) (simp add: app k [symmetric] p)
  qed (use k in auto)
qed

text \<open>The registration of a name is never taken over and never goes back in time.\<close>

lemma run_name_kept:
  assumes "server_run E srv0 srv" and "map_of (name_recs srv0) k = Some e"
  shows "\<exists>e'. map_of (name_recs srv) k = Some e' \<and> field_of ''public_key'' e' = field_of ''public_key'' e \<and>
    stamp_of e \<le> stamp_of e'"
proof -
  obtain kes where k: "name_recs srv = name_st.puts kes (name_recs srv0)" using run_names [OF assms(1)] by blast
  obtain e1 where "map_of (name_recs srv) k = Some e1" "field_of ''public_key'' e1 = field_of ''public_key'' e"
    using name_st.puts_owner [OF assms(2), of kes] k by auto
  moreover obtain e2 where "map_of (name_recs srv) k = Some e2" "stamp_of e \<le> stamp_of e2"
    using name_st.puts_monotone [OF assms(2), of kes] k by auto
  ultimately show ?thesis by auto
qed

section \<open>The stores along a run\<close>

text \<open>
  Whatever the requests are, accepted or not, no store loses an entry or goes back in time, and none
  appears or disappears.
\<close>

definition stores_advance :: "server \<Rightarrow> server \<Rightarrow> bool" where
  "stores_advance a b \<longleftrightarrow>
     (\<forall>k. newer_or_same (map_of (name_recs a) k) (map_of (name_recs b) k)) \<and>
     rel_option (\<lambda>x y. \<forall>k. newer_or_same (map_of x k) (map_of y k)) (reviewer_recs a) (reviewer_recs b) \<and>
     rel_option (\<lambda>x y. \<forall>k k'. newer_or_same (entry_at x k k') (entry_at y k k')) (assignments a) (assignments b) \<and>
     rel_option (\<lambda>x y. \<forall>k k'. newer_or_same (entry_at x k k') (entry_at y k k')) (attachments a) (attachments b)"

lemma stores_advance_refl [simp]: "stores_advance a a"
  by (simp add: stores_advance_def option.rel_refl)

lemma rel_option_trans:
  "rel_option R a b \<Longrightarrow> rel_option R b c \<Longrightarrow> (\<And>x y z. R x y \<Longrightarrow> R y z \<Longrightarrow> R x z) \<Longrightarrow> rel_option R a c"
  by (cases a; cases b; cases c) auto

lemma stores_advance_trans:
  assumes "stores_advance a b" and "stores_advance b c"
  shows "stores_advance a c"
  using assms unfolding stores_advance_def
  by (elim conjE, intro conjI)
    (metis newer_trans, (erule (1) rel_option_trans, metis newer_trans)+)

lemma register_advances:
  assumes "handle_register E now msg srv = (res, srv')"
  shows "stores_advance srv srv'"
  using handle_register_cases [OF assms]
proof (elim disjE conjE exE)
  fix k e
  assume "same_except_names srv srv'"
    and "name_store_set (name_recs srv) k (fst e) (snd e) = Inr ((True, []), name_recs srv')"
  then show ?thesis
    using name_store_set_cases [of "name_recs srv" k "fst e" "snd e" True "[]" "name_recs srv'"]
    by (auto simp: stores_advance_def same_except_names_def update_conv' option.rel_refl intro: newer_put)
qed simp

lemma register_reviewer_advances:
  assumes "handle_register_reviewer E now msg srv = (res, srv')"
  shows "stores_advance srv srv'"
  using handle_register_reviewer_cases [OF assms]
  by (elim disjE conjE exE) (auto simp: stores_advance_def update_conv' option.rel_refl intro: newer_put)

lemma post_assignment_advances:
  assumes "handle_post_assignment E now msg srv = (res, srv')"
  shows "stores_advance srv srv'"
proof (cases "srv' = srv")
  case False
  then obtain ib ib' r1 where "assignments srv = Some ib" "assignments srv' = Some ib'"
      "assignment_store_add ib (msg_record msg) (msg_signature msg) = (r1, ib')"
      "name_recs srv' = name_recs srv" "reviewer_recs srv' = reviewer_recs srv" "attachments srv' = attachments srv"
    using assms
    by (auto simp: handle_post_assignment_def Let_def run_disk_eq
        split: if_split_asm sum.split_asm prod.split_asm bool.split_asm option.split_asm)
  then show ?thesis
    using assignment_add_newer by (auto simp: stores_advance_def option.rel_refl)
qed simp

lemma attach_review_advances:
  assumes "handle_attach_review E now msg srv = (res, srv')"
  shows "stores_advance srv srv'"
  using handle_attach_review_cases [OF assms]
  by (elim disjE conjE exE) (auto simp: stores_advance_def entry_at_put_slot option.rel_refl intro: newer_put)

lemma serves_advances:
  assumes "serves E srv srv'"
  shows "stores_advance srv srv'"
proof -
  obtain now chunks resp where "handle_stream E now chunks srv = (resp, srv')" using assms by (elim servesE)
  from handle_stream_state [OF this] show ?thesis
  proof (elim disjE exE)
    fix msg res
    assume "dispatch E now msg srv = (res, srv')"
    then show ?thesis
      by (cases rule: dispatch_cases)
        (auto intro: register_advances register_reviewer_advances post_assignment_advances attach_review_advances)
  qed simp
qed

lemma run_advances: "server_run E srv0 srv \<Longrightarrow> stores_advance srv0 srv"
  by (induction rule: server_run.induct) (auto intro: stores_advance_trans serves_advances)

section \<open>Delivery\<close>

text \<open>An assignment that is answered by \<open>ok\<close> is in every inbox it names and on the disk, and is listed to its reviewers.\<close>

lemma post_assignment_delivers:
  assumes "handle_post_assignment E now msg srv = (Inr (JDict a), srv')" and "map_of a ''type'' = Some (JStr ''ok'')"
    and "assignments_path srv \<noteq> []"
  obtains d ck revs ib ib' where "msg_record msg = JDict d" "map_of d ''content_key'' = Some (JStr ck)"
    "map_of d ''reviewer_public_keys'' = Some (JList (map JStr revs))"
    "assignments srv = Some ib" "assignments srv' = Some ib'"
    "assign_loop (JStr ck) (stamp_of (msg_record msg, msg_signature msg)) (msg_record msg, msg_signature msg) ib (map JStr revs) = (Inr (), ib')"
    "at_path (disk srv') (assignments_path srv) = Some (File (dumps_indent_sorted E (inbox_json E ib')))"
    "good_assignment E r (JStr ck) (msg_record msg, msg_signature msg) \<or> r \<notin> set (map JStr revs)"
proof -
  let ?r = "msg_record msg" and ?s = "msg_signature msg"
  have ne: "a \<noteq> [(''type'', JStr ''error''), (''msg'', JStr m)]" for m using assms(2) by auto
  obtain ib ib' m m' u fs' where ib: "assignments srv = Some ib" "assignments srv' = Some ib'"
      and v: "verify_review_assignment E now (Some max_review_drift_seconds) ?r ?s = Inr (True, m)"
      and st: "assignment_store_add ib ?r ?s = (Inr (True, m'), ib')"
      and sv: "save_inbox E (assignments_path srv) ib' (disk srv) = (Inr u, disk srv')"
    using assms(1) ne
    by (auto simp: handle_post_assignment_def Let_def run_disk_eq err_resp_def
        split: if_split_asm sum.split_asm prod.split_asm bool.split_asm option.split_asm)
  obtain d where d: "?r = JDict d" "assignment_wf E d" using assignment.accepted_wf [OF v] by blast
  obtain revs ck where revs: "map_of d ''reviewer_public_keys'' = Some (JList (map JStr revs))" and ck: "map_of d ''content_key'' = Some (JStr ck)"
    using d(2) unfolding assignment_wf_def by blast
  show thesis
    by (rule that [OF d(1) ck revs ib assignment_add_delivers [OF st d(1) ck revs] save_inbox_result [OF assms(3) sv]])
      (use d revs ck assignment.accepted_valid [OF v] in \<open>auto simp: good_assignment_def\<close>)
qed

lemma list_assignments_answer:
  assumes "assignments srv = Some ib" and "entry_at ib (JStr r) ck = Some e" and "r \<noteq> []"
  shows "\<exists>es. handle_list_assignments [(''type'', JStr ''list_assignments''), (''reviewer_public_key'', JStr r)] srv =
      (Inr (records_resp ''assignments'' es), srv) \<and> e \<in> set es"
proof -
  have "e \<in> set (assignment_for ib (JStr r))"
    using assms(2) unfolding entry_at_def assignment_for_def by (force dest: map_of_SomeD)
  then show ?thesis using assms(1,3) by (auto simp: handle_list_assignments_def get_or_def)
qed

section \<open>Errors and pages\<close>

text \<open>A request that raises before a store is changed leaves the server as it was.\<close>

lemma error_unchanged:
  assumes "handle_register E now msg srv = (Inr (err_resp m), srv')"
  shows "srv' = srv"
  using assms
  by (auto simp: handle_register_def Let_def run_disk_eq err_resp_def res_simps
      split: if_split_asm sum.split_asm prod.split_asm bool.split_asm)

lemma paginate_ok:
  assumes "get_or msg ''offset'' (JInt 0) = JInt off" and "get_or msg ''limit'' (JInt default_page_size) = JInt lm" and "0 \<le> off"
  shows "paginate items msg =
    (let n = nat (min (max 1 lm) 1000) in
     Inr (take n (drop (nat off) items),
       if nat off + n < length items then Some (off + int n) else None))"
proof -
  have l: "0 \<le> min (max 1 lm) (1000::int)" by simp
  then have "off + min (max 1 lm) 1000 < int (length items) \<longleftrightarrow> nat off + nat (min (max 1 lm) 1000) < length items"
    using assms(3) by linarith
  then show ?thesis
    using assms l by (simp add: paginate_def page_bounds_def Let_def max_page_size_def)
qed

end
