(* ===== verification/NamingClient.thy ===== *)
theory NamingClient
  imports NamingServer
begin

text \<open>
  The client side of naming.py: one remote call over a fresh stream, the merging of pages, a helper per
  message type, the persisted key seed of the server and its start-up.  The far end of a stream is an
  argument: a function from the chunks the client writes to the chunks it reads, or to the exception
  that connecting raises; \<open>server_end\<close> is the model of the server at that place.  The lemmas say what an
  honest registration, its resolution and a listing give when the server is there: a listing ends at the
  page limit of the client or at the first page that does not fit the frame.
\<close>

type_synonym 's far = "string list \<Rightarrow> 's \<Rightarrow> string list res \<times> 's"

definition rpc :: "env \<Rightarrow> 's far \<Rightarrow> jdict \<Rightarrow> 's \<Rightarrow> json res \<times> 's" where
  "rpc E far request s =
     (case send_framed_json E (JDict request) max_msg_size of
        Inl e \<Rightarrow> (Inl e, s)
      | Inr ws \<Rightarrow>
          (case far ws s of
             (Inl e, s') \<Rightarrow> (Inl e, s')
           | (Inr cs, s') \<Rightarrow>
               (case fst (recv_framed_json E cs max_msg_size) of
                  Inl e \<Rightarrow> (Inl e, s')
                | Inr JNull \<Rightarrow> (Inl (RuntimeError ''no response from naming server''), s')
                | Inr response \<Rightarrow> (Inr response, s'))))"

definition signed_request :: "string \<Rightarrow> json \<Rightarrow> json \<Rightarrow> jdict" where
  "signed_request kind record signature =
     [(''type'', JStr kind), (''record'', record), (''signature'', signature)]"

definition client_register :: "env \<Rightarrow> 's far \<Rightarrow> json \<Rightarrow> json \<Rightarrow> 's \<Rightarrow> json res \<times> 's" where
  "client_register E far record signature = rpc E far (signed_request ''register'' record signature)"

definition client_resolve :: "env \<Rightarrow> 's far \<Rightarrow> string \<Rightarrow> 's \<Rightarrow> json res \<times> 's" where
  "client_resolve E far uri = rpc E far [(''type'', JStr ''resolve''), (''uri'', JStr uri)]"

definition client_register_reviewer :: "env \<Rightarrow> 's far \<Rightarrow> json \<Rightarrow> json \<Rightarrow> 's \<Rightarrow> json res \<times> 's" where
  "client_register_reviewer E far record signature = rpc E far (signed_request ''register_reviewer'' record signature)"

definition client_post_assignment :: "env \<Rightarrow> 's far \<Rightarrow> json \<Rightarrow> json \<Rightarrow> 's \<Rightarrow> json res \<times> 's" where
  "client_post_assignment E far record signature = rpc E far (signed_request ''post_assignment'' record signature)"

definition client_list_assignments :: "env \<Rightarrow> 's far \<Rightarrow> string \<Rightarrow> 's \<Rightarrow> json res \<times> 's" where
  "client_list_assignments E far reviewer_public_key =
     rpc E far [(''type'', JStr ''list_assignments''), (''reviewer_public_key'', JStr reviewer_public_key)]"

definition client_attach_review :: "env \<Rightarrow> 's far \<Rightarrow> json \<Rightarrow> json \<Rightarrow> 's \<Rightarrow> json res \<times> 's" where
  "client_attach_review E far record signature = rpc E far (signed_request ''attach_review'' record signature)"

definition client_get_attachments :: "env \<Rightarrow> 's far \<Rightarrow> string \<Rightarrow> 's \<Rightarrow> json res \<times> 's" where
  "client_get_attachments E far content_key =
     rpc E far [(''type'', JStr ''get_attachments''), (''content_key'', JStr content_key)]"

text \<open>
  \<open>_rpc_all_pages\<close>: the loop over at most \<open>n\<close> pages, with the records collected so far and the last
  response, which the code starts as an empty dictionary.  A next offset is followed when it is an
  \<open>int\<close> (a \<open>bool\<close> is one).
\<close>

fun pages_loop ::
  "env \<Rightarrow> 's far \<Rightarrow> jdict \<Rightarrow> nat \<Rightarrow> json \<Rightarrow> json list \<Rightarrow> jdict \<Rightarrow> 's \<Rightarrow> json res \<times> 's" where
  "pages_loop E far request 0 offset records response s =
     (Inr (JDict (AList.update ''next_offset'' JNull (AList.update ''records'' (JList records) response))), s)"
| "pages_loop E far request (Suc n) offset records response0 s =
     (case rpc E far (AList.update ''offset'' offset request) s of
        (Inl e, s') \<Rightarrow> (Inl e, s')
      | (Inr (JDict response), s') \<Rightarrow>
          (if get_or response ''type'' JNull = JStr ''error'' then (Inr (JDict response), s')
           else (case py_iter (json_or (get_or response ''records'' JNull) (JList [])) of
               Inl e \<Rightarrow> (Inl e, s')
             | Inr page \<Rightarrow>
                 (let next_off = get_or response ''next_offset'' JNull
                  in if \<not> is_int next_off
                     then pages_loop E far request 0 next_off (records @ page) response s'
                     else pages_loop E far request n next_off (records @ page) response s')))
      | (Inr v, s') \<Rightarrow> (Inl AttributeError, s'))"

definition rpc_all_pages :: "env \<Rightarrow> 's far \<Rightarrow> jdict \<Rightarrow> nat \<Rightarrow> 's \<Rightarrow> json res \<times> 's" where
  "rpc_all_pages E far request max_pages s = pages_loop E far request max_pages (JInt 0) [] [] s"

definition client_list :: "env \<Rightarrow> 's far \<Rightarrow> 's \<Rightarrow> json res \<times> 's" where
  "client_list E far = rpc_all_pages E far [(''type'', JStr ''list'')] 1000"

definition client_list_reviewers :: "env \<Rightarrow> 's far \<Rightarrow> 's \<Rightarrow> json res \<times> 's" where
  "client_list_reviewers E far = rpc_all_pages E far [(''type'', JStr ''list_reviewers'')] 1000"

section \<open>The server at the far end\<close>

definition server_end :: "env \<Rightarrow> int \<Rightarrow> server far" where
  "server_end E now ws srv =
     (case handle_stream E now (Some ws) srv of
        (resp, srv') \<Rightarrow>
          (case send_framed_json E resp max_msg_size of Inl e \<Rightarrow> (Inr [], srv') | Inr cs \<Rightarrow> (Inr cs, srv')))"

text \<open>The key seed of the server: 32 bytes, read back when the file is there.\<close>

definition load_or_create_peer_seed :: "string \<Rightarrow> nat list \<Rightarrow> path \<Rightarrow> string io" where
  "load_or_create_peer_seed random_bytes ks p fs =
     (if fexists fs p
      then io_bind (read_bytes p) (\<lambda>data.
        if length data \<noteq> 32 then io_raise (ValueError ''invalid peer key'') else io_ret data) fs
      else io_bind (mkdir_p (butlast p)) (\<lambda>_. io_bind (write_private_file ks p random_bytes) (\<lambda>_.
        io_ret random_bytes)) fs)"

definition start_server :: "env \<Rightarrow> path \<Rightarrow> path \<Rightarrow> path \<Rightarrow> path \<Rightarrow> fsys \<Rightarrow> server" where
  "start_server E store_path reviewers assigns attachs fs =
     \<lparr>name_recs = load_entries E store_path fs, reviewer_recs = Some (reviewer_store_load E reviewers fs),
      assignments = Some (load_inbox E assigns fs), attachments = Some (attachment_store_load E attachs fs),
      strict_reviews = True, names_path = store_path, reviewers_path = reviewers,
      assignments_path = assigns, attachments_path = attachs, disk = fs\<rparr>"

definition serve_naming ::
  "env \<Rightarrow> string \<Rightarrow> nat list \<Rightarrow> path \<Rightarrow> path \<Rightarrow> path \<Rightarrow> path \<Rightarrow> path \<Rightarrow> fsys \<Rightarrow> (string \<times> server) res \<times> fsys" where
  "serve_naming E random_bytes ks store_path reviewers assigns attachs key_path fs =
     (case load_or_create_peer_seed random_bytes ks key_path fs of
        (Inl e, fs') \<Rightarrow> (Inl e, fs')
      | (Inr seed, fs') \<Rightarrow> (Inr (seed, start_server E store_path reviewers assigns attachs fs'), fs'))"

section \<open>Message sizes\<close>

text \<open>An upper bound on the length of a canonical encoding that is easy to compute.\<close>

fun jsize :: "json \<Rightarrow> nat" and jsize_list :: "json list \<Rightarrow> nat" and jsize_items :: "(string \<times> json) list \<Rightarrow> nat" where
  "jsize JNull = 4"
| "jsize (JBool b) = 5"
| "jsize (JInt i) = length (str_of_int i)"
| "jsize (JFloat f) = 0"
| "jsize (JStr s) = 2 + 6 * length s"
| "jsize (JList xs) = 2 + jsize_list xs"
| "jsize (JDict d) = 2 + jsize_items d"
| "jsize_list [] = 0"
| "jsize_list (x # xs) = 1 + jsize x + jsize_list xs"
| "jsize_items [] = 0"
| "jsize_items ((k, v) # d) = 4 + 6 * length k + jsize v + jsize_items d"

lemma length_esc: "length (esc c) \<le> 6 * length (u8_enc c)"
  by (simp add: esc_def u8_enc_def hex4_def)

lemma length_quote:
  assumes "utf8 s"
  shows "length (quote s) \<le> 2 + 6 * length s"
proof -
  obtain cs where cs: "u8_decode s = Some cs" using assms by (auto simp: utf8_def)
  have "length (concat (map esc cs)) \<le> 6 * length (concat (map u8_enc cs))"
    using length_esc by (induction cs) (auto simp: add_mono)
  moreover have "length s = length (concat (map u8_enc cs))"
    using u8_decode_Some(1) [OF cs] by (auto simp: u8_encode_def)
  ultimately show ?thesis using cs by (simp add: quote_def)
qed

lemma length_dumps:
  "jwf j \<Longrightarrow> no_float j \<Longrightarrow> length (dumps E None l j) \<le> jsize j"
  "jwf_list xs \<Longrightarrow> no_float_list xs \<Longrightarrow> length (dumps_list E None l xs) \<le> jsize_list xs"
  "jwf_items d \<Longrightarrow> no_float_items d \<Longrightarrow> length (dumps_items E None l d) \<le> jsize_items d"
  by (induction E "None :: nat option" l j and E "None :: nat option" l xs and E "None :: nat option" l d
      rule: dumps_dumps_list_dumps_items.induct)
    (auto simp: newline_def colon_def dest: length_quote)

lemma jsize_items_sum: "jsize_items d = (\<Sum>x\<leftarrow>d. 4 + 6 * length (fst x) + jsize (snd x))"
  by (induction d) auto

lemma sum_list_sort: "sum_list (map f (sort_key g xs)) = (sum_list (map f xs) :: nat)"
  by (metis mset_map mset_sort sum_mset_sum_list)

lemma jsize_sort_keys:
  "jsize (sort_keys j) = jsize j"
  "jsize_list (sort_keys_list xs) = jsize_list xs"
  "jsize_items (sort_keys_items d) = jsize_items d"
  by (induction j and xs and d rule: sort_keys_sort_keys_list_sort_keys_items.induct)
    (simp_all add: jsize_items_sum sum_list_sort del: sort_key_simps)

lemma length_canonical: "jwf j \<Longrightarrow> no_float j \<Longrightarrow> length (canonical_json E j) \<le> jsize j"
  using length_dumps(1) [OF sort_keys_wf(1) sort_keys_no_float(1)] by (simp add: canonical_json_def jsize_sort_keys)

lemma send_small:
  assumes "jwf j" "no_float j" "jsize j \<le> m" "m < 2 ^ 32"
  shows "\<exists>ws. send_framed_json E j m = Inr ws"
  using length_canonical [OF assms(1,2), of E] assms(3,4) by (simp add: send_framed_json_def Let_def)

lemma length_b64_encode: "length (b64_encode s) = 4 * ((length s + 2) div 3)"
  by (induction s rule: b64_encode.induct) (auto, presburger)

section \<open>Client and server\<close>

text \<open>The bytes a client sends are a request the server runs on; the answer comes back as it was sent.\<close>

lemma server_end_serves: "server_end E now ws srv = (r, srv') \<Longrightarrow> serves E srv srv'"
  by (auto simp: server_end_def split: prod.split_asm sum.split_asm intro: serve)

lemma sent_chunks:
  assumes "send_framed_json E j m = Inr ws"
  shows "[] \<notin> set ws"
  using assms slices_bounded [of "[]" write_chunk_size]
  by (auto simp: send_framed_json_def Let_def split: if_split_asm)

lemma request_arrives:
  assumes "jwf (JDict m)" "no_float (JDict m)" "jsize (JDict m) \<le> 65536"
  obtains ws d where "send_framed_json E (JDict m) max_msg_size = Inr ws" "sort_keys (JDict m) = JDict d"
    "fst (recv_framed_json E ws max_request_size) = Inr (JDict d)"
proof -
  obtain ws where ws: "send_framed_json E (JDict m) 65536 = Inr ws"
    using send_small [OF assms] by auto
  then have "send_framed_json E (JDict m) max_msg_size = Inr ws"
    by (auto simp: send_framed_json_def max_msg_size_def Let_def split: if_split_asm)
  moreover obtain d where "sort_keys (JDict m) = JDict d" by simp
  moreover obtain cs' where "recv_framed_json E ws max_request_size = (Inr (sort_keys (JDict m)), cs')"
    using frame_roundtrip [OF assms(1,2) ws, of max_request_size ws "[]"] sent_chunks [OF ws]
    by (auto simp: max_request_size_def)
  ultimately show thesis using that by auto
qed

text \<open>An answer that does not fit the frame is replaced by an error.\<close>

definition too_large :: json where
  "too_large = sort_keys (err_resp ''internal error'')"

lemma rpc_answered:
  assumes "jwf (JDict m)" "no_float (JDict m)" "jsize (JDict m) \<le> 65536" and "sort_keys (JDict m) = JDict d"
    and "dispatch E now d srv = (Inr resp, srv')" and "jwf resp" "no_float resp" "sort_keys resp \<noteq> JNull"
  shows "rpc E (server_end E now) m srv =
    (Inr (if frameable E max_msg_size resp then sort_keys resp else too_large), srv')"
proof -
  obtain ws where ws: "send_framed_json E (JDict m) max_msg_size = Inr ws"
      "fst (recv_framed_json E ws max_request_size) = Inr (JDict d)"
    using request_arrives [OF assms(1-3), of E] assms(4) by auto
  let ?sent = "if frameable E max_msg_size resp then resp else err_resp ''internal error''"
  have err: "jwf (err_resp ''internal error'')" "no_float (err_resp ''internal error'')" "jsize (err_resp ''internal error'') \<le> max_msg_size"
    by (simp_all add: err_resp_def utf8_ascii max_msg_size_def)
  have h: "handle_stream E now (Some ws) srv = (?sent, srv')"
    using send_frameable [of max_msg_size E resp]
    by (cases "send_framed_json E resp max_msg_size") (auto simp: handle_stream_def ws assms(5) max_msg_size_def)
  obtain out where out: "send_framed_json E ?sent max_msg_size = Inr out"
    using send_frameable [of max_msg_size E resp] send_small [OF err, of E] by (auto simp: max_msg_size_def)
  have sent: "jwf ?sent" "no_float ?sent" using assms(6,7) err by simp_all
  obtain cs' where answer: "recv_framed_json E out max_msg_size = (Inr (sort_keys ?sent), cs')"
    using frame_roundtrip [OF sent out, of max_msg_size out "[]"] sent_chunks [OF out] by auto
  have "server_end E now ws srv = (Inr out, srv')" by (simp only: server_end_def h prod.case out sum.case)
  moreover have "sort_keys ?sent \<noteq> JNull" using assms(8) by (simp add: err_resp_def)
  ultimately have "rpc E (server_end E now) m srv = (Inr (sort_keys ?sent), srv')"
    unfolding rpc_def by (cases "sort_keys ?sent") (simp_all add: ws(1) answer del: sort_keys.simps)
  then show ?thesis unfolding too_large_def by (simp split: if_split_asm)
qed

lemma rpc_served:
  assumes "jwf (JDict m)" "no_float (JDict m)" "jsize (JDict m) \<le> 65536" and "sort_keys (JDict m) = JDict d"
    and "dispatch E now d srv = (Inr resp, srv')"
    and "jwf resp" "no_float resp" "jsize resp \<le> max_msg_size" "sort_keys resp \<noteq> JNull"
  shows "rpc E (server_end E now) m srv = (Inr (sort_keys resp), srv')"
proof -
  obtain ws where ws: "send_framed_json E (JDict m) max_msg_size = Inr ws"
      "fst (recv_framed_json E ws max_request_size) = Inr (JDict d)"
    using request_arrives [OF assms(1-3), of E] assms(4) by auto
  obtain out where out: "send_framed_json E resp max_msg_size = Inr out"
    using send_small [OF assms(6-8), of E] by (auto simp: max_msg_size_def)
  obtain cs' where answer: "recv_framed_json E out max_msg_size = (Inr (sort_keys resp), cs')"
    using frame_roundtrip [OF assms(6,7) out, of max_msg_size out "[]"] sent_chunks [OF out] by auto
  have "handle_stream E now (Some ws) srv = (resp, srv')"
    by (simp add: handle_stream_def ws assms(5) out)
  then have "server_end E now ws srv = (Inr out, srv')"
    by (simp add: server_end_def out)
  then show ?thesis
    using assms(9) by (simp add: rpc_def ws(1) answer split: json.split)
qed

lemma sorted_request:
  assumes "sort_keys (JDict (signed_request kind r s)) = JDict d"
  shows "get_or d ''type'' x = JStr kind" and "truthy (sort_keys r) \<Longrightarrow> msg_record d = sort_keys r"
    and "msg_signature d = sort_keys s"
proof -
  have m: "map_of d k = map_option sort_keys (map_of (signed_request kind r s) k)" for k
    using assms map_of_sort_keys [of "signed_request kind r s" k] by (simp add: signed_request_def)
  show "get_or d ''type'' x = JStr kind" "msg_signature d = sort_keys s"
    using m by (simp_all add: signed_request_def get_or_def msg_signature_def)
  show "truthy (sort_keys r) \<Longrightarrow> msg_record d = sort_keys r"
    using m by (simp add: signed_request_def get_or_def msg_record_def json_or_def)
qed

text \<open>An honest registration is accepted and stored.\<close>

lemma name_record_json:
  assumes "uri_ok u" "utf8 author" "utf8 ref"
  shows "jwf (JDict (build_name_record now u author (public_key_to_b64 pk) ref None))"
    and "no_float (JDict (build_name_record now u author (public_key_to_b64 pk) ref None))"
  using assms uri_ok_utf8 by (simp_all add: build_name_record_def utf8_ascii)

lemma register_served:
  assumes "ed25519_ok E" and "uri_ok u" "utf8 author" "utf8 ref" and "\<bar>now' - now\<bar> \<le> 300"
    and "r = JDict (build_name_record now u author (public_key_to_b64 (pub_of E sk)) ref None)"
    and "sign_name_record E r sk = Inr sg" "sg \<noteq> []"
    and "jsize (JDict (signed_request ''register'' r (JStr sg))) \<le> 65536"
    and "e = (sort_keys r, JStr sg)"
    and "name_store_set (name_recs srv) (JStr u) (fst e) (snd e) = Inr ((True, []), recs)"
    and "save_entries E (names_path srv) recs (disk srv) = (Inr (), fs')"
  shows "client_register E (server_end E now') r (JStr sg) srv =
    (Inr (JDict [(''type'', JStr ''ok''), (''uri'', JStr u)]), srv\<lparr>name_recs := recs, disk := fs'\<rparr>)"
proof -
  let ?req = "signed_request ''register'' r (JStr sg)"
  note wf = name_record_json [OF assms(2-4), of now "pub_of E sk"]
  have s: "sg = b64_encode (ed_sign E sk (canonical_json E r))"
    using assms(7) by (auto simp: sign_name_record_def sign_by_Inr)
  obtain d where d: "sort_keys (JDict ?req) = JDict d" by simp
  obtain rd where rd: "sort_keys r = JDict rd" "\<And>k. map_of rd k = map_option sort_keys
      (map_of (build_name_record now u author (public_key_to_b64 (pub_of E sk)) ref None) k)"
    using map_of_sort_keys [of "build_name_record now u author (public_key_to_b64 (pub_of E sk)) ref None"] assms(6)
    by (simp add: build_name_record_def)
  have fields: "map_of rd ''uri'' = Some (JStr u)" "map_of rd ''manifest_ref'' = Some (JStr ref)"
      "map_of rd ''timestamp'' = Some (JInt now)" "name_record_wf rd"
    by (simp_all add: rd(2) build_name_record_def name_record_wf_def name_record_fields_def)
  have tr: "truthy (sort_keys r)" using rd(1) fields(1) by auto
  note m = sorted_request [OF d] and mr = sorted_request(2) [OF d tr]
  have sv: "sig_valid E ''public_key'' (JDict rd) (JStr sg)"
  proof -
    have "sig_valid E ''public_key'' r (JStr sg)"
      using sign_by_valid [OF assms(1)] assms(7) by (simp add: sign_name_record_def)
    from sig_valid_sorted [OF _ this] show ?thesis using wf assms(6) rd(1) by simp
  qed
  have fresh: "fresh now' (Some 300) (JDict rd)"
    using fields(3) assms(5) by (simp add: fresh_Some)
  have v: "verify_name_record E now' (Some max_timestamp_drift_seconds) (JDict rd) (JStr sg) = Inr (True, [])"
    unfolding max_timestamp_drift_seconds_def using fields(4) fresh sv name_rec.accepts_iff by blast
  have vu: "validate_uri (JStr u) = Inr u" using assms(2) by (simp add: validate_uri_iff)
  have "handle_register E now' d srv =
      (Inr (JDict [(''type'', JStr ''ok''), (''uri'', JStr u)]), srv\<lparr>name_recs := recs, disk := fs'\<rparr>)"
    using assms(2,10-12) mr m(3) rd(1) tr fields v assms(8)
    by (simp add: handle_register_def Let_def run_disk_def vu sliceable_def)
  then have "dispatch E now' d srv =
      (Inr (JDict [(''type'', JStr ''ok''), (''uri'', JStr u)]), srv\<lparr>name_recs := recs, disk := fs'\<rparr>)"
    by (simp add: dispatch_def m(1))
  moreover have "utf8 u" using assms(2) by (rule uri_ok_utf8)
  moreover have "jwf (JDict ?req)" "no_float (JDict ?req)"
    using wf assms(6) s by (simp_all add: signed_request_def utf8_ascii)
  moreover have "length u \<le> 255" using assms(2) by (simp add: uri_ok_def)
  ultimately show ?thesis
    using rpc_served [OF _ _ assms(9) d, of E now' srv] by (simp add: client_register_def utf8_ascii max_msg_size_def)
qed

lemma resolve_served:
  assumes "uri_ok u" and "map_of (name_recs srv) (JStr u) = Some (r, sg)"
    and "jwf r" "no_float r" "jwf sg" "no_float sg" "jsize r + jsize sg \<le> 1048000"
  shows "client_resolve E (server_end E now) u srv =
    (Inr (JDict [(''record'', sort_keys r), (''signature'', sort_keys sg), (''type'', JStr ''record'')]), srv)"
proof -
  let ?m = "[(''type'', JStr ''resolve''), (''uri'', JStr u)]"
  have d: "sort_keys (JDict ?m) = JDict ?m" by simp
  have u: "utf8 u" "length u \<le> 255" using assms(1) uri_ok_utf8 by (auto simp: uri_ok_def)
  have "validate_uri (JStr u) = Inr u" using assms(1) by (simp add: validate_uri_iff)
  then have "dispatch E now ?m srv =
      (Inr (JDict [(''type'', JStr ''record''), (''record'', r), (''signature'', sg)]), srv)"
    using assms(2) by (simp add: dispatch_def handle_resolve_def get_or_def)
  from rpc_served [OF _ _ _ d this] show ?thesis
    unfolding client_resolve_def
    using u assms(3-7) by (simp add: utf8_ascii max_msg_size_def)
qed

text \<open>A registration that is newer than what the server holds is stored, saved, resolved and found again after a restart.\<close>

lemma registration_kept:
  assumes "ed25519_ok E" and "uri_ok u" "utf8 author" "utf8 ref" and "\<bar>now' - now\<bar> \<le> 300"
    and r: "r = JDict (build_name_record now u author (public_key_to_b64 (pub_of E sk)) ref None)"
    and sg: "sign_name_record E r sk = Inr sg" "sg \<noteq> []"
    and small: "jsize (JDict (signed_request ''register'' r (JStr sg))) \<le> 65536"
    and inv: "server_inv E srv"
    and room: "can_save ''.tmp'' (names_path srv) (disk srv)"
    and old: "\<forall>e. map_of (name_recs srv) (JStr u) = Some e \<longrightarrow>
      field_of ''public_key'' e = JStr (public_key_to_b64 (pub_of E sk)) \<and> (\<exists>t. ts_of (fst e) = Inr t \<and> t < now)"
  shows "\<exists>srv'. client_register E (server_end E now') r (JStr sg) srv =
      (Inr (JDict [(''type'', JStr ''ok''), (''uri'', JStr u)]), srv') \<and>
    map_of (name_recs srv') = (map_of (name_recs srv))(JStr u \<mapsto> (sort_keys r, JStr sg)) \<and>
    at_path (disk srv') (names_path srv) = Some (File (dumps_indent_sorted E (entries_json E (name_recs srv')))) \<and>
    client_resolve E (server_end E now'') u srv' =
      (Inr (JDict [(''record'', sort_keys r), (''signature'', JStr sg), (''type'', JStr ''record'')]), srv') \<and>
    (saveable (name_recs srv) \<longrightarrow>
      map_of (name_recs (start_server E (names_path srv) rp ap tp (disk srv'))) (JStr u) = Some (sort_keys r, JStr sg))"
proof -
  let ?recs = "AList.update (JStr u) (sort_keys r, JStr sg) (name_recs srv)"
  note wf = name_record_json [OF assms(2-4), of now "pub_of E sk", folded r]
  note wf' = sort_keys_wf(1) [OF wf(1)] sort_keys_no_float(1) [OF wf(2)]
  have "sg = b64_encode (ed_sign E sk (canonical_json E r))"
    using sg(1) by (auto simp: sign_name_record_def sign_by_Inr)
  then have s: "jwf (JStr sg)" "no_float (JStr sg)" by (simp_all add: utf8_ascii)
  obtain rd where rd: "sort_keys r = JDict rd" "\<And>k. map_of rd k = map_option sort_keys
      (map_of (build_name_record now u author (public_key_to_b64 (pub_of E sk)) ref None) k)"
    using map_of_sort_keys [of "build_name_record now u author (public_key_to_b64 (pub_of E sk)) ref None"] r
    by (simp add: build_name_record_def)
  have st: "name_store_set (name_recs srv) (JStr u) (sort_keys r) (JStr sg) = Inr ((True, []), ?recs)"
    by (rule newer_registration [OF old [rule_format] rd(1)]) (simp_all add: rd(2) build_name_record_def)
  obtain fs' where sv: "save_entries E (names_path srv) ?recs (disk srv) = (Inr (), fs')"
      and at: "at_path fs' (names_path srv) = Some (File (dumps_indent_sorted E (entries_json E ?recs)))"
    using save_entries_ok [OF room string_keys_sortable [OF server_keys [OF inv]]] by blast
  let ?srv' = "srv\<lparr>name_recs := ?recs, disk := fs'\<rparr>"
  have size: "jsize (sort_keys r) + jsize (JStr sg) \<le> 1048000"
    using small by (simp add: signed_request_def jsize_sort_keys)
  show ?thesis
  proof (intro exI [of _ ?srv'] conjI impI)
    show "client_register E (server_end E now') r (JStr sg) srv = (Inr (JDict [(''type'', JStr ''ok''), (''uri'', JStr u)]), ?srv')"
      by (rule register_served [OF assms(1-5) r sg small refl]) (simp_all add: st sv)
    show "client_resolve E (server_end E now'') u ?srv' =
        (Inr (JDict [(''record'', sort_keys r), (''signature'', JStr sg), (''type'', JStr ''record'')]), ?srv')"
      using resolve_served [OF assms(2), of ?srv' "sort_keys r" "JStr sg"] s size wf' by (simp add: sort_keys_idem)
    assume "saveable (name_recs srv)"
    from saveable_update [OF this uri_ok_utf8 [OF assms(2)] wf' s]
    have k: "saveable ?recs" .
    have "names_path srv \<noteq> []" using room by (simp add: can_save_def)
    from load_saved_entries [OF this k sv, of "JStr u"]
    show "map_of (name_recs (start_server E (names_path srv) rp ap tp (disk ?srv'))) (JStr u) = Some (sort_keys r, JStr sg)"
      by (simp add: start_server_def sorted_entry_def sort_keys_idem)
  qed (use at in \<open>simp_all add: update_conv'\<close>)
qed

section \<open>Listings\<close>

lemma jsize_list_bound: "\<forall>x \<in> set xs. jsize x \<le> b \<Longrightarrow> jsize_list xs \<le> length xs * Suc b"
  by (induction xs) auto

lemma length_str_of_nat: "0 < k \<Longrightarrow> n < 10 ^ k \<Longrightarrow> length (str_of_nat n) \<le> k"
proof (induction k arbitrary: n)
  case (Suc k)
  show ?case
  proof (cases "n < 10")
    case False
    with Suc.prems have "0 < k" by (cases k) auto
    moreover have "n div 10 < 10 ^ k" using Suc.prems by simp
    ultimately have "length (str_of_nat (n div 10)) \<le> k" by (rule Suc.IH)
    then show ?thesis using False by (subst str_of_nat.simps) simp
  qed (subst str_of_nat.simps, simp)
qed simp

lemma length_small_int: "n < 10 ^ 9 \<Longrightarrow> length (str_of_int (int n)) \<le> 9"
  using length_str_of_nat [of 9 n] by (simp add: str_of_int_def)

text \<open>The page of a listing at an offset.\<close>

definition listing_page :: "json list \<Rightarrow> nat \<Rightarrow> json" where
  "listing_page items off = JDict [(''type'', JStr ''names''), (''records'', JList (take 500 (drop off items))),
     (''next_offset'', if off + 500 < length items then JInt (int (off + 500)) else JNull)]"

lemma list_page_answered:
  assumes "\<forall>r \<in> set items. jwf r \<and> no_float r" and "items = map (fst \<circ> snd) (name_recs srv)" "off < 10 ^ 9"
  shows "rpc E (server_end E now) (AList.update ''offset'' (JInt (int off)) [(''type'', JStr ''list'')]) srv =
    (Inr (if frameable E max_msg_size (listing_page items off) then sort_keys (listing_page items off) else too_large), srv)"
proof -
  let ?m = "[(''type'', JStr ''list''), (''offset'', JInt (int off))]"
  let ?d = "[(''offset'', JInt (int off)), (''type'', JStr ''list'')]"
  have d: "sort_keys (JDict ?m) = JDict ?d" by simp
  have dsp: "dispatch E now ?d srv = (Inr (listing_page items off), srv)"
    by (simp add: dispatch_def get_or_def handle_list_def page_resp_def paginate_ok [of ?d "int off" default_page_size]
        default_page_size_def next_json_def assms(2) list_records_def Let_def listing_page_def)
  have page: "\<forall>r \<in> set (take 500 (drop off items)). jwf r \<and> no_float r"
    using assms(1) by (auto dest!: in_set_takeD in_set_dropD)
  have n: "length (str_of_int (int off)) \<le> 9" using assms(3) by (rule length_small_int)
  show ?thesis
    using rpc_answered [OF _ _ _ d dsp] page n
    by (simp add: utf8_ascii jwf_list_iff no_float_list_iff listing_page_def)
qed

text \<open>A page of records of at most two thousand bytes each, counted generously, fits the frame.\<close>

lemma small_page_fits:
  assumes "\<forall>r \<in> set items. jwf r \<and> no_float r \<and> jsize r \<le> 2000" and "off < 10 ^ 9 - 500"
  shows "frameable E max_msg_size (listing_page items off)"
proof -
  let ?page = "take 500 (drop off items)"
  have page: "\<forall>r \<in> set ?page. jwf r \<and> no_float r \<and> jsize r \<le> 2000"
    using assms(1) by (auto dest!: in_set_takeD in_set_dropD)
  then have "jsize_list ?page \<le> length ?page * 2001" using jsize_list_bound [of ?page 2000] by simp
  also have "\<dots> \<le> 500 * 2001" by (rule mult_le_mono1) simp
  finally have size: "jsize_list ?page \<le> 1000500" by simp
  have wf: "jwf (listing_page items off)" "no_float (listing_page items off)"
    using page by (simp_all add: listing_page_def utf8_ascii jwf_list_iff no_float_list_iff)
  have "length (str_of_int (int (off + 500))) \<le> 9" using assms(2) by (intro length_small_int) simp
  then have "jsize (listing_page items off) \<le> max_msg_size" using size
    by (cases "off + 500 < length items") (simp_all add: listing_page_def max_msg_size_def)
  then show ?thesis using length_canonical [OF wf, of E] by (simp add: frameable_def)
qed

text \<open>
  Following the pages of an unchanging list collects them until none is left, the page limit is reached or a
  page is answered by an error.
\<close>

lemma pages_loop_collects:
  assumes rpc: "\<And>off. off < bound \<Longrightarrow>
      rpc E far (AList.update ''offset'' (JInt (int off)) request) s = (Inr (JDict (if fits off then resp off else err)), s)"
    and resp: "\<And>off. get_or (resp off) ''type'' JNull \<noteq> JStr ''error''"
      "\<And>off. get_or (resp off) ''records'' JNull = JList (take n (drop off items))"
      "\<And>off. get_or (resp off) ''next_offset'' JNull = (if off + n < length items then JInt (int (off + n)) else JNull)"
    and err: "get_or err ''type'' JNull = JStr ''error''"
    and "0 < n" "off + k * n \<le> bound"
  shows "(\<forall>i < k. i = 0 \<or> off + i * n < length items \<longrightarrow> fits (off + i * n)) \<Longrightarrow>
      \<exists>r. pages_loop E far request k (JInt (int off)) acc lst s =
        (Inr (JDict (AList.update ''next_offset'' JNull (AList.update ''records'' (JList (acc @ take (k * n) (drop off items))) r))), s)"
    and "i < k \<Longrightarrow> i = 0 \<or> off + i * n < length items \<Longrightarrow> \<not> fits (off + i * n) \<Longrightarrow>
      pages_loop E far request k (JInt (int off)) acc lst s = (Inr (JDict err), s)"
proof -
  have page: "py_iter (json_or (JList xs) (JList [])) = Inr xs" for xs
    by (simp add: json_or_def)
  show "\<exists>r. pages_loop E far request k (JInt (int off)) acc lst s =
        (Inr (JDict (AList.update ''next_offset'' JNull (AList.update ''records'' (JList (acc @ take (k * n) (drop off items))) r))), s)"
    if "\<forall>i < k. i = 0 \<or> off + i * n < length items \<longrightarrow> fits (off + i * n)"
    using that assms(7)
  proof (induction k arbitrary: off acc lst)
    case (Suc k)
    have f: "fits off" using Suc.prems(1) [rule_format, of 0] by simp
    have b: "off < bound" "off + n + k * n \<le> bound" using Suc.prems(2) assms(6) by simp_all
    show ?case
    proof (cases "off + n < length items")
      case True
      have "\<forall>i < k. i = 0 \<or> (off + n) + i * n < length items \<longrightarrow> fits ((off + n) + i * n)"
      proof (intro allI impI)
        fix i
        assume "i < k" "i = 0 \<or> (off + n) + i * n < length items"
        then show "fits ((off + n) + i * n)" using Suc.prems(1) [rule_format, of "Suc i"] True by (auto simp: algebra_simps)
      qed
      from Suc.IH [OF this, of "acc @ take n (drop off items)" "resp off"] b(2)
      obtain r where "pages_loop E far request k (JInt (int (off + n))) (acc @ take n (drop off items)) (resp off) s =
        (Inr (JDict (AList.update ''next_offset'' JNull (AList.update ''records''
          (JList ((acc @ take n (drop off items)) @ take (k * n) (drop (off + n) items))) r))), s)" by auto
      moreover have "take n (drop off items) @ take (k * n) (drop (off + n) items) = take (Suc k * n) (drop off items)"
        by (simp add: take_add add.commute)
      ultimately show ?thesis using True page b(1) f by (simp add: rpc resp) blast
    next
      case False
      then have "take n (drop off items) = drop off items" "take (Suc k * n) (drop off items) = drop off items" by simp_all
      then show ?thesis using False page b(1) f by (simp add: rpc resp) blast
    qed
  qed auto
  show "pages_loop E far request k (JInt (int off)) acc lst s = (Inr (JDict err), s)"
    if "i < k" "i = 0 \<or> off + i * n < length items" "\<not> fits (off + i * n)"
    using that assms(7)
  proof (induction k arbitrary: off i acc lst)
    case (Suc k)
    have b: "off < bound" using Suc.prems(4) assms(6) by simp
    show ?case
    proof (cases "fits off")
      case True
      then obtain j where j: "i = Suc j" using Suc.prems(3) by (cases i) auto
      then have l: "off + n + j * n < length items" using Suc.prems(2) by (auto simp: algebra_simps)
      then have "pages_loop E far request k (JInt (int (off + n))) (acc @ take n (drop off items)) (resp off) s = (Inr (JDict err), s)"
        using Suc.prems j by (intro Suc.IH [of j]) (auto simp: algebra_simps)
      then show ?thesis using True page b l by (simp add: rpc resp)
    qed (use b in \<open>simp add: rpc err\<close>)
  qed simp
qed

definition page_starts :: "json list \<Rightarrow> nat set" where
  "page_starts items = {off. off = 0 \<or> off < length items \<and> 500 dvd off \<and> off < 500000}"

lemma client_list_answer:
  assumes "items = map (fst \<circ> snd) (name_recs srv)" and "\<forall>r \<in> set items. jwf r \<and> no_float r"
  shows "\<exists>r. client_list E (server_end E now) srv = (Inr (JDict r), srv) \<and>
    (if \<forall>off \<in> page_starts items. frameable E max_msg_size (listing_page items off)
     then map_of r ''records'' = Some (JList (map sort_keys (take 500000 items))) \<and> map_of r ''next_offset'' = Some JNull
     else JDict r = too_large)"
proof -
  let ?fits = "\<lambda>off. frameable E max_msg_size (listing_page items off)"
  let ?resp = "\<lambda>off. [(''next_offset'', if off + 500 < length items then JInt (int (off + 500)) else JNull),
     (''records'', JList (take 500 (drop off (map sort_keys items)))), (''type'', JStr ''names'')]"
  let ?err = "[(''msg'', JStr ''internal error''), (''type'', JStr ''error'')]"
  have e: "too_large = JDict ?err" by (simp add: too_large_def err_resp_def)
  have p: "sort_keys (listing_page items off) = JDict (?resp off)" for off
    by (simp add: listing_page_def sort_keys_list_map take_map drop_map)
  have rpc: "rpc E (server_end E now) (AList.update ''offset'' (JInt (int off)) [(''type'', JStr ''list'')]) srv =
      (Inr (JDict (if ?fits off then ?resp off else ?err)), srv)" if "off < 500000" for off
    using list_page_answered [OF assms(2,1), of off] that by (simp add: e p)
  note loop = pages_loop_collects [where items = "map sort_keys items" and n = 500 and off = 0 and k = 1000 and
      bound = 500000 and fits = ?fits and resp = ?resp and err = ?err and acc = "[]" and lst = "[]", OF rpc]
  have starts: "page_starts items = {i * 500 | i. i < 1000 \<and> (i = 0 \<or> i * 500 < length items)}"
    by (auto simp: page_starts_def dvd_def)
  show ?thesis
  proof (cases "\<forall>off \<in> page_starts items. ?fits off")
    case True
    then have "\<forall>i < 1000. i = 0 \<or> 0 + i * 500 < length (map sort_keys items) \<longrightarrow> ?fits (0 + i * 500)"
      unfolding starts by auto
    from loop(1) [OF _ _ _ _ _ _ _ this] True show ?thesis
      by (fastforce simp: client_list_def rpc_all_pages_def get_or_def take_map)
  next
    case False
    then obtain i where "i < 1000" "i = 0 \<or> 0 + i * 500 < length (map sort_keys items)" "\<not> ?fits (0 + i * 500)"
      unfolding starts by auto
    from loop(2) [OF _ _ _ _ _ _ _ this] False show ?thesis
      by (simp add: client_list_def rpc_all_pages_def get_or_def e)
  qed
qed

text \<open>A client's call is a step of the server.\<close>

lemma rpc_run:
  assumes "rpc E (server_end E now) m srv = (r, srv')" and "server_run E srv0 srv"
  shows "server_run E srv0 srv'"
proof (cases "send_framed_json E (JDict m) max_msg_size")
  case (Inr ws)
  obtain r1 srv1 where f: "server_end E now ws srv = (r1, srv1)" by fastforce
  have "srv' = srv1"
    using assms(1) by (auto simp: rpc_def Inr f split: sum.split_asm json.split_asm)
  then show ?thesis
    using again [OF assms(2)] server_end_serves [OF f] by simp
qed (use assms in \<open>auto simp: rpc_def\<close>)

end
