(* ===== verification/Selection.thy ===== *)
theory Selection
  imports PyValue
begin

text \<open>
  review/selection.py: the deterministic choice of reviewers.  Digests are compared as byte strings and
  candidates as strings, both in the lexicographic order of \<open>List_Lexorder\<close>.
\<close>

definition rank :: "env \<Rightarrow> string \<Rightarrow> string \<Rightarrow> string" where
  "rank E content_key pubkey = sha256 E (content_key @ [CHR 0x00] @ pubkey)"

definition select_reviewers :: "env \<Rightarrow> string \<Rightarrow> string list \<Rightarrow> int \<Rightarrow> string list" where
  "select_reviewers E content_key pool n =
     (if n \<le> 0 then []
      else let unique_pool = sort (remdups pool)
           in if unique_pool = [] then []
              else let ranked = sort_key (rank E content_key) unique_pool
                   in take (min (nat n) (length ranked)) ranked)"

definition ranking :: "env \<Rightarrow> string \<Rightarrow> string set \<Rightarrow> string list" where
  "ranking E ck S = sort_key (rank E ck) (sorted_list_of_set S)"

lemma select_reviewers_ranking:
  "select_reviewers E ck pool n = take (nat n) (ranking E ck (set pool))"
  using take_all_iff [of "length xs" xs for xs]
  by (auto simp: select_reviewers_def ranking_def Let_def sorted_list_of_set_sort_remdups min_def)

lemma ranking_facts:
  assumes "finite S"
  shows "set (ranking E ck S) = S" "distinct (ranking E ck S)" "length (ranking E ck S) = card S"
    "sorted (map (rank E ck) (ranking E ck S))"
  using assms by (simp_all add: ranking_def)

lemma sorted_take_drop:
  assumes "sorted (map f xs)" and "x \<in> set (take n xs)" and "y \<in> set (drop n xs)"
  shows "f x \<le> f y"
proof -
  have "sorted (map f (take n xs) @ map f (drop n xs))"
    using assms(1) by (metis append_take_drop_id map_append)
  then show ?thesis using assms(2,3) unfolding sorted_append by simp
qed

lemma select_reviewers_facts:
  shows "set (select_reviewers E ck pool n) \<subseteq> set pool"
    and "distinct (select_reviewers E ck pool n)"
    and "length (select_reviewers E ck pool n) = min (nat n) (card (set pool))"
  using ranking_facts [of "set pool" E ck] set_take_subset [of "nat n" "ranking E ck (set pool)"]
  by (simp_all add: select_reviewers_ranking min.commute)

lemma select_reviewers_best:
  assumes "x \<in> set (select_reviewers E ck pool n)"
    and "y \<in> set pool" and "y \<notin> set (select_reviewers E ck pool n)"
  shows "rank E ck x \<le> rank E ck y"
proof -
  have "y \<in> set (drop (nat n) (ranking E ck (set pool)))"
    using assms(2,3) ranking_facts(1) [of "set pool" E ck]
    unfolding select_reviewers_ranking by (metis List.finite_set Un_iff append_take_drop_id set_append)
  then show ?thesis
    using assms(1) ranking_facts(4) [of "set pool" E ck]
    unfolding select_reviewers_ranking by (intro sorted_take_drop) auto
qed

lemma select_reviewers_prefix:
  assumes "m \<le> n"
  shows "prefix (select_reviewers E ck pool m) (select_reviewers E ck pool n)"
  unfolding select_reviewers_ranking using assms by (simp add: nat_mono take_is_prefix prefix_def) 
    (metis append_take_drop_id min.absorb1 nat_mono take_take)

end
