(* ===== verification/Keys.thy ===== *)
theory Keys
  imports Crypto
begin

text \<open>
  The key files of bundle/crypto.py.  The PEM encoding of keys is third-party code: \<open>pem\<close> holds the four
  functions of it the program calls, and \<open>pem_ok\<close> states that loading undoes encoding under the same
  passphrase.
\<close>

record pem =
  private_pem :: "string option \<Rightarrow> string \<Rightarrow> string"        \<comment> \<open>private_bytes(PEM, PKCS8, encryption)\<close>
  public_pem :: "string \<Rightarrow> string"                         \<comment> \<open>public_bytes(PEM, SubjectPublicKeyInfo)\<close>
  load_private_pem :: "string option \<Rightarrow> string \<Rightarrow> string res"
  load_public_pem :: "string \<Rightarrow> string res"

definition pem_ok :: "pem \<Rightarrow> bool" where
  "pem_ok P \<longleftrightarrow> (\<forall>pw k. load_private_pem P pw (private_pem P pw k) = Inr k) \<and>
     (\<forall>k. load_public_pem P (public_pem P k) = Inr k)"

text \<open>An empty passphrase is no passphrase.  \<open>sk\<close> is the fresh key.\<close>

definition password :: "string option \<Rightarrow> string option" where
  "password passphrase = (case passphrase of None \<Rightarrow> None | Some s \<Rightarrow> if s = [] then None else Some s)"

definition generate_keypair ::
  "env \<Rightarrow> pem \<Rightarrow> string \<Rightarrow> nat list \<Rightarrow> path \<Rightarrow> string \<Rightarrow> string option \<Rightarrow> (path \<times> path) io" where
  "generate_keypair E P sk ks key_dir name passphrase =
     io_bind (mkdir_p key_dir) (\<lambda>_.
     let priv_path = resolve_in key_dir (name @ ''.key''); pub_path = resolve_in key_dir (name @ ''.pub'') in
     io_bind (write_private_file ks priv_path (private_pem P (password passphrase) sk)) (\<lambda>_.
     io_bind (write_bytes pub_path (public_pem P (pub_of E sk))) (\<lambda>_.
     io_ret (priv_path, pub_path))))"

definition load_private_key :: "pem \<Rightarrow> path \<Rightarrow> string option \<Rightarrow> string io" where
  "load_private_key P p passphrase =
     io_bind (read_bytes p) (\<lambda>b. io_lift (load_private_pem P (password passphrase) b))"

definition load_public_key :: "pem \<Rightarrow> path \<Rightarrow> string io" where
  "load_public_key P p = io_bind (read_bytes p) (\<lambda>b. io_lift (load_public_pem P b))"

text \<open>The pair that was generated is the pair that loads.\<close>

lemma generate_then_load:
  assumes "pem_ok P" and "generate_keypair E P sk ks key_dir name pw fs = (Inr (priv, pub), fs')" and "priv \<noteq> pub"
  shows "load_private_key P priv pw fs' = (Inr sk, fs') \<and> load_public_key P pub fs' = (Inr (pub_of E sk), fs')"
proof -
  obtain fs1 fs2 where w1: "write_bytes priv (private_pem P (password pw) sk) fs1 = (Inr (), fs2)"
    and w2: "write_bytes pub (public_pem P (pub_of E sk)) fs2 = (Inr (), fs')"
    using assms(2) by (auto simp: generate_keypair_def Let_def io_bind_Inr write_private_file_complete)
  have "at_path fs2 priv = Some (File (private_pem P (password pw) sk))"
    using w1 by (elim write_bytes_cases) (auto simp: at_put)
  then have "at_path fs' priv = Some (File (private_pem P (password pw) sk))"
    using same_exceptD [OF write_bytes_frame [OF w2], of priv] assms(3) by simp
  moreover have "at_path fs' pub = Some (File (public_pem P (pub_of E sk)))"
    using w2 by (elim write_bytes_cases) (auto simp: at_put)
  ultimately show ?thesis
    using assms(1) by (simp add: load_private_key_def load_public_key_def read_bytes_def io_bind_def io_lift_def pem_ok_def)
qed

end
