(* ===== verification/Peer.thy ===== *)
theory Peer
  imports PeerChecks BundleProtocol NamingClient Selection Keys
begin

text \<open>
  The class Peer of peer/peer.py.  Its configuration holds what lies outside the program: the far end of
  streams to the naming server, the DHT's answers, the transport to seeders and which of them time out,
  and the key files' codec.  Its state is what the code changes: the state of the naming server it
  talks to, its disk, the sites it serves, and the keys it has announced.
\<close>

definition default_review_count :: int where "default_review_count = 3"
definition default_review_deadline_days :: int where "default_review_deadline_days = 3"

record 's pconf =
  naming_end :: "'s far option"
  own_id :: string
  data_dir :: path
  pins_path :: path
  dht_provide :: "(string \<Rightarrow> bool res) option"
  dht_from_naming :: "string \<Rightarrow> (string \<times> string list) list res"
  dht_find :: "string \<Rightarrow> (string \<times> string list) list res"
  dial :: "string \<Rightarrow> string list \<Rightarrow> string list res"
  slow :: "string \<Rightarrow> bool"
  codec :: pem
  process_id :: nat

record 's peer =
  far_state :: 's
  pdisk :: fsys
  psites :: sites
  provided :: "string list"

section \<open>Calls\<close>

definition on_disk :: "'a io \<Rightarrow> ('s peer, 'a) op" where
  "on_disk m p = (case m (pdisk p) of (r, d) \<Rightarrow> (r, p\<lparr>pdisk := d\<rparr>))"

definition on_naming :: "('s, 'a) op \<Rightarrow> ('s peer, 'a) op" where
  "on_naming m p = (case m (far_state p) of (r, s) \<Rightarrow> (r, p\<lparr>far_state := s\<rparr>))"

definition get_field :: "json \<Rightarrow> string \<Rightarrow> json \<Rightarrow> ('s, json) op" where
  "get_field r k d = io_lift (py_get r k d)"

definition get_item :: "json \<Rightarrow> string \<Rightarrow> ('s, json) op" where
  "get_item r k = io_lift (py_item r k)"

definition set_site :: "string \<Rightarrow> path \<Rightarrow> ('s peer, unit) op" where
  "set_site uri site p = (Inr (), p\<lparr>psites := AList.update uri site (psites p)\<rparr>)"

text \<open>\<open>try: x = m()  except Exception\<close>: \<open>None\<close> where the call raised.\<close>

definition io_opt :: "('s, 'a) op \<Rightarrow> ('s, 'a option) op" where
  "io_opt m = io_try (io_bind m (\<lambda>r. io_ret (Some r))) (\<lambda>e. io_ret None)"

section \<open>Sites on disk\<close>

text \<open>One directory of the data directory: kept when it holds a readable bundle that names a URI.\<close>

definition rediscover_one :: "env \<Rightarrow> path \<Rightarrow> ('s peer, unit) op" where
  "rediscover_one E site p =
     (if \<not> is_directory (pdisk p) site \<or> prefix ''.'' (last site) then (Inr (), p)
      else io_try
        (io_bind (on_disk (load_bundle E site)) (\<lambda>(manifest, sg).
         io_bind (get_field manifest ''uri'' JNull) (\<lambda>uri.
         if \<not> truthy uri then io_ret ()
         else case uri of
           JStr u \<Rightarrow> set_site u site
         | _ \<Rightarrow> io_bind (io_lift (hashable uri)) (\<lambda>_. io_ret ()))))
        (\<lambda>e. io_ret ()) p)"

definition rediscover_local_sites :: "env \<Rightarrow> 's pconf \<Rightarrow> ('s peer, unit) op" where
  "rediscover_local_sites E C p =
     (if fexists (pdisk p) (data_dir C)
      then io_each (rediscover_one E) (dir_children (pdisk p) (data_dir C)) p else (Inr (), p))"

text \<open>\<open>__init__\<close> and \<open>attach\<close>: the data directory is created, then scanned.\<close>

definition start_peer :: "env \<Rightarrow> 's pconf \<Rightarrow> ('s peer, unit) op" where
  "start_peer E C =
     io_bind (on_disk (mkdir_p (data_dir C))) (\<lambda>_ p. rediscover_local_sites E C (p\<lparr>psites := []\<rparr>))"

definition peer_addrs :: "'s pconf \<Rightarrow> string list \<Rightarrow> string list" where
  "peer_addrs C host_addrs =
     (let comp = ''/p2p/'' @ own_id C
      in map (\<lambda>s. if contains_sub comp s then s else s @ comp) host_addrs)"

section \<open>The DHT\<close>

definition announce :: "env \<Rightarrow> 's pconf \<Rightarrow> string \<Rightarrow> ('s peer, bool) op" where
  "announce E C uri p =
     (case dht_provide C of
        None \<Rightarrow> (Inr False, p)
      | Some provide \<Rightarrow>
          (case map_of (psites p) uri of
             None \<Rightarrow> (Inr False, p)
           | Some site \<Rightarrow>
               io_bind (on_disk (load_bundle E site)) (\<lambda>(manifest, sg).
               io_bind (get_field manifest ''public_key'' (JStr [])) (\<lambda>pk.
               if \<not> truthy pk then io_ret False
               else (\<lambda>q. let key = compute_content_key E (JStr uri) pk
                    in (case provide key of Inl e \<Rightarrow> Inr False | Inr ok \<Rightarrow> Inr ok,
                        q\<lparr>provided := provided q @ [key]\<rparr>)))) p))"

definition provider_addrs :: "'s pconf \<Rightarrow> (string \<times> string list) list \<Rightarrow> string list" where
  "provider_addrs C providers =
     concat (map (\<lambda>(pid, addrs). if pid = own_id C then [] else map (\<lambda>a. a @ ''/p2p/'' @ pid) addrs) providers)"

definition find_providers :: "env \<Rightarrow> 's pconf \<Rightarrow> string \<Rightarrow> json \<Rightarrow> string list" where
  "find_providers E C uri author =
     (if dht_provide C = None then []
      else let key = compute_content_key E (JStr uri) author;
               near = (if naming_end C = None then []
                       else case dht_from_naming C key of Inl e \<Rightarrow> [] | Inr ps \<Rightarrow> ps)
           in case (if near \<noteq> [] then Inr near else dht_find C key) of
                Inl e \<Rightarrow> []
              | Inr ps \<Rightarrow> provider_addrs C ps)"

section \<open>Publishing\<close>

definition next_version :: "env \<Rightarrow> path \<Rightarrow> ('s peer, int) op" where
  "next_version E site p =
     (if fexists (pdisk p) (site @ [''manifest.json''])
      then io_try
        (io_bind (on_disk (load_bundle E site)) (\<lambda>(old, sg).
         io_bind (get_field old ''version'' (JInt 0)) (\<lambda>v.
         io_bind (io_lift (py_int v)) (\<lambda>n. io_ret (n + 1)))))
        (\<lambda>e. io_ret 1) p
      else (Inr 1, p))"

text \<open>The exceptions of the two calls to the naming server are caught, those in between are not.\<close>

definition solicit_reviews ::
  "env \<Rightarrow> 's pconf \<Rightarrow> 's far \<Rightarrow> int \<Rightarrow> string \<Rightarrow> string \<Rightarrow> string \<Rightarrow> json list option \<Rightarrow> int \<Rightarrow> int \<Rightarrow> int option
     \<Rightarrow> ('s peer, unit) op" where
  "solicit_reviews E C far now uri pub sk cats review_count deadline_days freshness =
     io_bind (io_opt (on_naming (client_list_reviewers E far))) (\<lambda>listing.
     case listing of
       None \<Rightarrow> io_ret ()
     | Some l \<Rightarrow>
         io_bind (get_field l ''records'' JNull) (\<lambda>rs.
         io_bind (io_lift (py_iter (json_or rs (JList [])))) (\<lambda>entries.
         io_bind (io_lift (extract_fresh_reviewer_pool E now entries freshness cats)) (\<lambda>pool.
         if pool = [] then io_ret ()
         else io_bind (io_lift (mapE text_of pool)) (\<lambda>keys.
           let ck = compute_content_key E (JStr uri) (JStr pub); selected = select_reviewers E ck keys review_count in
           if selected = [] then io_ret ()
           else io_bind (io_lift (build_review_assignment E now uri pub selected (now + deadline_days * 86400) None)) (\<lambda>a.
             io_bind (io_lift (sign_review_assignment E (JDict a) sk)) (\<lambda>sg.
             io_bind (io_opt (on_naming (client_post_assignment E far (JDict a) (JStr sg)))) (\<lambda>resp.
             case resp of
               None \<Rightarrow> io_ret ()
             | Some r \<Rightarrow> io_bind (get_field r ''type'' JNull) (\<lambda>t. io_ret ())))))))))"

definition publish ::
  "env \<Rightarrow> 's pconf \<Rightarrow> int \<Rightarrow> string \<Rightarrow> string \<Rightarrow> path \<Rightarrow> path \<Rightarrow> string list \<Rightarrow> int \<Rightarrow> int \<Rightarrow> int option
     \<Rightarrow> ('s peer, json \<times> string) op" where
  "publish E C now uri author site key_path cats review_count deadline_days freshness =
     io_bind (io_lift (validate_uri (JStr uri))) (\<lambda>_.
     case naming_end C of
       None \<Rightarrow> io_raise (ValueError ''cannot publish without a naming server configured'')
     | Some far \<Rightarrow>
         io_bind (on_disk (load_private_key (codec C) key_path None)) (\<lambda>sk.
         let pub = public_key_to_b64 (pub_of E sk) in
         io_bind (next_version E site) (\<lambda>version.
         io_bind (on_disk (create_manifest E now site uri author version default_ttl_seconds cats)) (\<lambda>m.
         case m of
           JDict md \<Rightarrow>
             (let (signed, sg) = sign_manifest E md sk in
              io_bind (on_disk (save_bundle E site (JDict signed) (JStr sg))) (\<lambda>_.
              let ref = compute_manifest_ref E (JDict signed); record = JDict (build_name_record now uri author pub ref None) in
              io_bind (io_lift (sign_name_record E record sk)) (\<lambda>name_sig.
              io_bind (on_naming (client_register E far record (JStr name_sig))) (\<lambda>resp.
              io_bind (get_field resp ''type'' JNull) (\<lambda>t.
              if t \<noteq> JStr ''ok'' then io_raise (RuntimeError ''naming register failed'')
              else io_bind (io_lift (bindE (py_get (JDict signed) ''categories'' JNull) (\<lambda>c. py_iter (json_or c (JList []))))) (\<lambda>content_cats.
                io_bind (solicit_reviews E C far now uri pub sk (Some content_cats) review_count deadline_days freshness) (\<lambda>_.
                io_bind (set_site uri site) (\<lambda>_.
                io_bind (announce E C uri) (\<lambda>_. io_ret (JDict signed, sg))))))))))
         | _ \<Rightarrow> io_raise TypeError))))"

section \<open>Fetching\<close>

text \<open>The record of a URI, resolved and checked against the URI; \<open>None\<close> where the code gives up.\<close>

definition resolve_verified :: "env \<Rightarrow> 's far \<Rightarrow> string \<Rightarrow> ('s peer, json option) op" where
  "resolve_verified E far uri =
     io_bind (on_naming (client_resolve E far uri)) (\<lambda>resp.
     io_bind (get_field resp ''type'' JNull) (\<lambda>t.
     if t \<noteq> JStr ''record'' then io_ret None
     else io_bind (get_item resp ''record'') (\<lambda>record.
       io_bind (get_item resp ''signature'') (\<lambda>sg.
       io_bind (io_lift (verify_name_record E 0 None record sg)) (\<lambda>(ok, err).
       if \<not> ok then io_ret None
       else io_bind (get_field record ''uri'' JNull) (\<lambda>u.
         io_ret (if u \<noteq> JStr uri then None else Some record)))))))"

text \<open>The pins, or \<open>None\<close> when the pin store is unreadable: the fetch fails closed.\<close>

definition read_pins :: "env \<Rightarrow> 's pconf \<Rightarrow> ('s peer, json option) op" where
  "read_pins E C =
     io_try (io_bind (on_disk (load_pinstore E (pins_path C))) (\<lambda>pins. io_ret (Some pins)))
       (\<lambda>e. if is_os_error e \<or> is_value_error e then io_ret None else io_raise e)"

definition attempt_of :: "env \<Rightarrow> 's pconf \<Rightarrow> string \<Rightarrow> string \<Rightarrow> attempt" where
  "attempt_of E C uri addr = (if slow C addr then TimedOut else Ended (download_one E (dial C) uri addr))"

text \<open>The first acceptable bundle, for the order in which the downloads end.\<close>

definition try_download ::
  "env \<Rightarrow> 's pconf \<Rightarrow> (string list \<Rightarrow> string list) \<Rightarrow> (json \<Rightarrow> string option res) \<Rightarrow> string \<Rightarrow> string list \<Rightarrow> json option" where
  "try_download E C order check uri addrs = race_result (Some check) (attempt_of E C uri) (order addrs)"

text \<open>Writing the bundle: \<open>False\<close> where the code logs a rejection and gives up.\<close>

definition install_bundle :: "env \<Rightarrow> 's pconf \<Rightarrow> json \<Rightarrow> path \<Rightarrow> ('s peer, bool) op" where
  "install_bundle E C data site =
     io_try (io_bind (on_disk (dict_to_bundle E (process_id C) data site)) (\<lambda>_. io_ret True))
       (\<lambda>e. if caught_content e then io_ret False else io_raise e)"

definition remember_key ::
  "env \<Rightarrow> 's pconf \<Rightarrow> int \<Rightarrow> pin_status \<Rightarrow> string \<Rightarrow> json \<Rightarrow> json \<Rightarrow> int \<Rightarrow> ('s peer, unit) op" where
  "remember_key E C now status uri author_key author ts =
     on_disk (if status = Unknown then pin_key E (process_id C) now uri author_key author (pins_path C) (Some ts)
              else update_pin_last_seen E (process_id C) now uri (pins_path C) (Some ts))"

definition cache_attachments :: "env \<Rightarrow> 's pconf \<Rightarrow> string \<Rightarrow> json \<Rightarrow> path \<Rightarrow> ('s peer, unit) op" where
  "cache_attachments E C uri author_key site =
     (case naming_end C of
        None \<Rightarrow> io_ret ()
      | Some far \<Rightarrow>
          (let ck = compute_content_key E (JStr uri) author_key in
           io_bind (io_opt (on_naming (client_get_attachments E far ck))) (\<lambda>resp.
           case resp of
             None \<Rightarrow> io_ret ()
           | Some r \<Rightarrow>
               io_bind (get_field r ''records'' JNull) (\<lambda>rs.
               io_try (on_disk (write_bytes (site @ [''attachments.json''])
                   (dumps_indent_sorted E (JDict [(''content_key'', JStr ck), (''records'', json_or rs (JList []))]))))
                 (\<lambda>e. io_ret ())))))"

text \<open>
  From the verified record to an acceptable bundle: the seeders, the pin, the download.  The result is
  the author's key and name, the record's timestamp, the pin's status and the bundle.
\<close>

definition pick_bundle ::
  "env \<Rightarrow> 's pconf \<Rightarrow> int \<Rightarrow> (string list \<Rightarrow> string list) \<Rightarrow> string \<Rightarrow> string list \<Rightarrow> json
     \<Rightarrow> ('s peer, (json \<times> json \<times> int \<times> pin_status \<times> json) option) op" where
  "pick_bundle E C now order uri given record =
     io_bind (get_item record ''public_key'') (\<lambda>author_key.
     io_bind (get_item record ''manifest_ref'') (\<lambda>ref.
     io_bind (get_field record ''author'' (JStr ''unknown'')) (\<lambda>author.
     let addrs = (if given \<noteq> [] then given else find_providers E C uri author_key) in
     if addrs = [] then io_ret None
     else io_bind (read_pins E C) (\<lambda>pins0.
       case pins0 of
         None \<Rightarrow> io_ret None
       | Some pins \<Rightarrow>
           io_bind (io_lift (bindE (py_item record ''timestamp'') py_int)) (\<lambda>ts.
           io_bind (io_lift (check_pin pins uri author_key (Some ts))) (\<lambda>status.
           if status = Mismatch \<or> status = Rollback then io_ret None
           else io_bind (io_lift (b64_to_public_key E author_key)) (\<lambda>key.
             case try_download E C order (\<lambda>d. check_downloaded_bundle E now d uri key ref (data_dir C @ [uri])) uri addrs of
               None \<Rightarrow> io_ret None
             | Some data \<Rightarrow> io_ret (Some (author_key, author, ts, status, data)))))))))"

text \<open>From the acceptable bundle on: installation, a second look at the files, pinning, bookkeeping.\<close>

definition finish_fetch ::
  "env \<Rightarrow> 's pconf \<Rightarrow> int \<Rightarrow> string \<Rightarrow> bool \<Rightarrow> json \<Rightarrow> json \<Rightarrow> int \<Rightarrow> pin_status \<Rightarrow> json \<Rightarrow> ('s peer, bool) op" where
  "finish_fetch E C now uri announce_after author_key author ts status data =
     (let site = data_dir C @ [uri] in
      io_bind (get_item data ''manifest'') (\<lambda>manifest.
      io_bind (install_bundle E C data site) (\<lambda>installed.
      if \<not> installed then io_ret False
      else io_bind (on_disk (verify_files E manifest site)) (\<lambda>errors.
        if errors \<noteq> [] then io_ret False
        else io_bind (remember_key E C now status uri author_key author ts) (\<lambda>_.
          io_bind (set_site uri site) (\<lambda>_.
          io_bind (get_item manifest ''file_count'') (\<lambda>_. io_bind (get_item manifest ''total_size'') (\<lambda>_.
          io_bind (cache_attachments E C uri author_key site) (\<lambda>_.
          io_bind (if announce_after then announce E C uri else io_ret False) (\<lambda>_. io_ret True))))))))))"

definition fetch_verified ::
  "env \<Rightarrow> 's pconf \<Rightarrow> int \<Rightarrow> (string list \<Rightarrow> string list) \<Rightarrow> string \<Rightarrow> string list \<Rightarrow> bool \<Rightarrow> json \<Rightarrow> ('s peer, bool) op" where
  "fetch_verified E C now order uri given announce_after record =
     io_bind (pick_bundle E C now order uri given record) (\<lambda>picked.
     case picked of
       None \<Rightarrow> io_ret False
     | Some (author_key, author, ts, status, data) \<Rightarrow>
         finish_fetch E C now uri announce_after author_key author ts status data)"

definition fetch_site ::
  "env \<Rightarrow> 's pconf \<Rightarrow> int \<Rightarrow> (string list \<Rightarrow> string list) \<Rightarrow> string \<Rightarrow> string list \<Rightarrow> bool \<Rightarrow> ('s peer, bool) op" where
  "fetch_site E C now order uri given announce_after =
     io_bind (io_lift (validate_uri (JStr uri))) (\<lambda>_.
     case naming_end C of
       None \<Rightarrow> io_raise (ValueError ''cannot fetch without a naming server configured'')
     | Some far \<Rightarrow>
         io_bind (resolve_verified E far uri) (\<lambda>r.
         case r of
           None \<Rightarrow> io_ret False
         | Some record \<Rightarrow> fetch_verified E C now order uri given announce_after record))"

section \<open>Updates, scores and rendering\<close>

text \<open>A seeder's manifest counts only when the author of the local copy signed it, for the same URI.\<close>

definition newer_manifest :: "env \<Rightarrow> string \<Rightarrow> json \<Rightarrow> int \<Rightarrow> json \<Rightarrow> bool res" where
  "newer_manifest E uri mine mine_ts response =
     bindE (if truthy response then bindE (py_get response ''type'' JNull) (\<lambda>t. Inr (t = JStr ''manifest'')) else Inr False) (\<lambda>is_manifest.
     if \<not> is_manifest then Inr False
     else bindE (py_get response ''manifest'' JNull) (\<lambda>remote.
     if \<not> is_dict remote then Inr False
     else bindE (py_get remote ''uri'' JNull) (\<lambda>u.
     if u \<noteq> JStr uri then Inr False
     else bindE (bindE (py_item mine ''public_key'') (b64_to_public_key E)) (\<lambda>key.
       bindE (py_get response ''signature'' (JStr [])) (\<lambda>sg.
       bindE (verify_manifest E remote (JStr (py_str E sg)) key) (\<lambda>ok.
       if \<not> ok then Inr False
       else bindE (bindE (py_get remote ''timestamp'' (JInt 0)) py_int) (\<lambda>t. Inr (t > mine_ts))))))))"

definition check_for_update :: "env \<Rightarrow> 's pconf \<Rightarrow> string \<Rightarrow> string \<Rightarrow> ('s peer, bool) op" where
  "check_for_update E C uri addr p =
     (case map_of (psites p) uri of
        None \<Rightarrow> (Inr False, p)
      | Some site \<Rightarrow>
          io_bind (on_disk (load_bundle E site)) (\<lambda>(mine, sg).
          io_bind (io_lift (bindE (py_get mine ''timestamp'' (JInt 0)) py_int)) (\<lambda>mine_ts.
          io_try (io_lift (bindE (exchange E (dial C addr) (bundle_request ''get_manifest'' uri)) (newer_manifest E uri mine mine_ts)))
            (\<lambda>e. io_ret False))) p)"

text \<open>A policy with an infinite knob or a NaN is outside the scorer's model: the result is \<open>None\<close>.\<close>

definition compute_score ::
  "env \<Rightarrow> 's pconf \<Rightarrow> path \<Rightarrow> path \<Rightarrow> int \<Rightarrow> string \<Rightarrow> ('s peer, score_result option) op" where
  "compute_score E C policy_path store_path now uri =
     (case naming_end C of
        None \<Rightarrow> io_raise (ValueError ''cannot score without a naming server configured'')
      | Some far \<Rightarrow>
          io_bind (io_lift (validate_uri (JStr uri))) (\<lambda>_.
          io_bind (on_naming (client_resolve E far uri)) (\<lambda>resp.
          io_bind (get_field resp ''type'' JNull) (\<lambda>t.
          if t \<noteq> JStr ''record'' then io_raise (RuntimeError ''naming resolve failed'')
          else io_bind (io_lift (bindE (py_item resp ''record'') (\<lambda>r. py_item r ''public_key''))) (\<lambda>author_key.
            let ck = compute_content_key E (JStr uri) author_key in
            io_bind (io_try (on_naming (client_get_attachments E far ck))
              (\<lambda>e. io_ret (JDict [(''type'', JStr ''attachments''), (''records'', JList [])]))) (\<lambda>att.
            io_bind (get_field att ''records'' JNull) (\<lambda>rs.
            io_bind (io_lift (py_iter (json_or rs (JList [])))) (\<lambda>entries.
            io_bind (io_lift (attachments_to_signals E entries ck)) (\<lambda>signals.
            io_bind (on_disk (load_policy E policy_path)) (\<lambda>pol.
            io_bind (on_disk (load_store E store_path)) (\<lambda>store.
            case finite_policy pol of
              Some rp \<Rightarrow> io_lift (bindE (score_content E signals store rp now) (\<lambda>r. Inr (Some r)))
            | None \<Rightarrow> io_ret None)))))))))))"

definition render_entry :: "path \<Rightarrow> json \<Rightarrow> (string \<times> string) io" where
  "render_entry site entry =
     io_bind (io_lift (bindE (py_item entry ''path'') (\<lambda>v. bindE (validate_path site v) (\<lambda>fp. Inr (v, fp))))) (\<lambda>(v, fp).
     io_bind (read_text fp) (\<lambda>content. io_ret (case v of JStr rel \<Rightarrow> rel | _ \<Rightarrow> [], strip content)))"

text \<open>\<open>render_site\<close> without the box drawing: the heading's values and the pages in order.\<close>

definition render_site :: "env \<Rightarrow> string \<Rightarrow> ('s peer, (json list \<times> (string \<times> string) list) option) op" where
  "render_site E uri p =
     (case map_of (psites p) uri of
        None \<Rightarrow> (Inr None, p)
      | Some site \<Rightarrow>
          io_bind (on_disk (load_bundle E site)) (\<lambda>(manifest, sg).
          io_bind (io_lift (mapE (py_item manifest) [''file_count'', ''total_size'', ''version''])) (\<lambda>heading.
          io_bind (io_lift (bindE (py_item manifest ''files'') py_iter)) (\<lambda>entries.
          io_bind (on_disk (io_map (render_entry site) entries)) (\<lambda>pages.
          io_ret (Some (heading, pages)))))) p)"

end
