(* ===== verification/PeerFetch.thy ===== *)
theory PeerFetch
  imports Peer
begin

text \<open>
  What a fetch guarantees: lemmas on each step of \<open>fetch_site\<close>, on which files it leaves alone, and their sum.
\<close>



lemma io_bind_InrE:
  assumes "io_bind m f s = (Inr y, s')"
  obtains x s1 where "m s = (Inr x, s1)" "f x s1 = (Inr y, s')"
  using assms by (auto simp: io_bind_Inr)

lemma io_lift_InrE:
  assumes "io_lift r s = (Inr x, s')"
  obtains "r = Inr x" "s' = s"
  using assms by simp

lemma on_disk_Inr: "on_disk m p = (Inr x, p') \<longleftrightarrow> (\<exists>d. m (pdisk p) = (Inr x, d) \<and> p' = p\<lparr>pdisk := d\<rparr>)"
  by (auto simp: on_disk_def split: prod.split)

lemma get_item_Inr [simp]: "get_item r k p = (Inr v, p') \<longleftrightarrow> py_item r k = Inr v \<and> p' = p"
  by (simp add: get_item_def)

lemma get_field_Inr [simp]: "get_field r k d p = (Inr v, p') \<longleftrightarrow> py_get r k d = Inr v \<and> p' = p"
  by (simp add: get_field_def)

lemma resolve_verified_Some:
  assumes "resolve_verified E far uri p = (Inr (Some record), p')"
  shows "pdisk p' = pdisk p \<and> psites p' = psites p \<and>
    (\<exists>rd sg. record = JDict rd \<and> name_record_wf rd \<and> sig_valid E ''public_key'' record sg \<and> map_of rd ''uri'' = Some (JStr uri))"
proof -
  obtain resp p1 sg ok m u where n: "on_naming (client_resolve E far uri) p = (Inr resp, p1)"
      and v: "verify_name_record E 0 None record sg = Inr (True, m)"
      and u: "py_get record ''uri'' JNull = Inr u" "u = JStr uri" and p': "p' = p1"
    using assms unfolding resolve_verified_def
    by (auto elim!: io_bind_InrE split: if_split_asm)
  have "pdisk p1 = pdisk p \<and> psites p1 = psites p"
    using n by (auto simp: on_naming_def split: prod.split_asm)
  moreover obtain rd where rd: "record = JDict rd" "name_record_wf rd" using name_rec.accepted_wf [OF v] by blast
  moreover have "map_of rd ''uri'' = Some (JStr uri)"
    using u rd by (auto simp: get_or_def split: option.split_asm)
  ultimately show ?thesis using p' name_rec.accepted_valid [OF v] by blast
qed

lemma try_download_Some:
  assumes "try_download E C order check uri addrs = Some data"
  shows "check data = Inr None \<and> (\<exists>a \<in> set (order addrs). download_one E (dial C) uri a = Inr (Some data))"
proof -
  obtain a where a: "a \<in> set (order addrs)" "try_one (Some check) (attempt_of E C uri a) None = Some data"
    using race_result_Some assms unfolding try_download_def by blast
  have "attempt_of E C uri a = Ended (Inr (Some data))" "check data = Inr None"
    using try_one_Some [OF a(2)] by auto
  then show ?thesis using a(1) by (auto simp: attempt_of_def split: if_split_asm)
qed

lemma install_bundle_True:
  assumes "install_bundle E C data site p = (Inr True, p')" and "site \<noteq> []" and "fs_wf (pdisk p)"
  shows "psites p' = psites p \<and> (\<exists>vs. validate_bundle_payload E data site = Inr vs \<and> installed E data vs (pdisk p') site)"
proof -
  obtain r fs' where d: "dict_to_bundle E (process_id C) data site (pdisk p) = (r, fs')" by fastforce
  have "r = Inr site \<and> p' = p\<lparr>pdisk := fs'\<rparr>"
    using assms(1) dict_to_bundle_result [OF assms(2,3) d]
    by (cases r) (auto simp: install_bundle_def io_try_def io_bind_def on_disk_def io_ret_def io_raise_def d split: if_split_asm)
  then show ?thesis using dict_to_bundle_result [OF assms(2,3) d] by auto
qed

text \<open>Code that only reads leaves the state.\<close>

definition reads :: "('s, 'a) op \<Rightarrow> bool" where
  "reads m \<longleftrightarrow> (\<forall>s. snd (m s) = s)"

lemma readsD: "reads m \<Longrightarrow> m s = (r, s') \<Longrightarrow> s' = s"
  unfolding reads_def by (metis snd_conv)

lemma reads_basic [simp]: "reads (io_ret x)" "reads (io_raise e)" "reads (io_lift r)" "reads (read_bytes q)"
  by (auto simp: reads_def io_ret_def io_raise_def io_lift_def read_bytes_def split: option.split node.split)

lemma reads_bind [intro]: "reads m \<Longrightarrow> (\<And>x. reads (f x)) \<Longrightarrow> reads (io_bind m f)"
  unfolding reads_def io_bind_def by (auto split: prod.split sum.split) (metis snd_conv)+

lemma reads_text [simp]: "reads (read_text q)"
  unfolding read_text_def by (intro reads_bind) auto

lemma reads_load_bundle [simp]: "reads (load_bundle E site)"
  unfolding load_bundle_def by (intro reads_bind) auto

lemma reads_load_pinstore [simp]: "reads (load_pinstore E q)"
proof -
  have "reads (io_bind (read_text q) (\<lambda>t. io_lift (loads E t)))" by (intro reads_bind) auto
  then show ?thesis by (auto simp: reads_def load_pinstore_def)
qed

text \<open>Saving a file touches the file, its temporary sibling, and missing directories above.\<close>

definition apart :: "path \<Rightarrow> path \<Rightarrow> bool" where
  "apart p q \<longleftrightarrow> \<not> prefix p q \<and> \<not> prefix q p"

lemma save_atomic_keeps:
  assumes "save_atomic ext p data fs = (res, fs')" and "\<not> prefix p x" and "\<not> prefix (butlast p @ [last p @ ext]) x"
  shows "at_path fs' x = at_path fs x \<or> prefix x (butlast p) \<and> at_path fs x = None \<and> at_path fs' x = Some Dir"
proof -
  define t where "t = butlast p @ [last p @ ext]"
  obtain r1 fs1 where m: "mkdir_p (butlast p) fs = (r1, fs1)" by fastforce
  have a: "at_path fs1 x = at_path fs x \<or> prefix x (butlast p) \<and> at_path fs x = None \<and> at_path fs1 x = Some Dir"
    using mkdir_p_added [OF m] by (auto simp: dirs_added_def)
  have "at_path fs' x = at_path fs1 x"
  proof (cases r1)
    case (Inl e)
    then show ?thesis using assms(1) m by (simp add: save_atomic_def io_bind_def)
  next
    case (Inr u)
    obtain r2 fs2 where w: "write_bytes t data fs1 = (r2, fs2)" by fastforce
    have b: "at_path fs2 x = at_path fs1 x"
      by (rule same_exceptD [OF write_bytes_frame [OF w]]) (use assms(3) in \<open>auto simp: t_def\<close>)
    show ?thesis
    proof (cases r2)
      case (Inl e)
      then show ?thesis using assms(1) m Inr w b by (simp add: save_atomic_def io_bind_def t_def)
    next
      case (Inr u2)
      then have "rename t p fs2 = (res, fs')"
        using assms(1) m \<open>r1 = Inr u\<close> w by (simp add: save_atomic_def io_bind_def t_def)
      from same_exceptD [OF rename_frame [OF this], of x] show ?thesis using assms(2,3) b by (simp add: t_def)
    qed
  qed
  then show ?thesis using a by simp
qed

lemma apart_below: "apart site y \<Longrightarrow> \<not> prefix y (site @ r)"
  using prefix_same_cases [of y "site @ r" site] by (auto simp: apart_def)

lemma save_pinstore_keeps:
  assumes "save_pinstore E pid pins q fs = (res, fs')"
    and "apart site q" "apart site (butlast q @ [last q @ ''.tmp-'' @ str_of_nat pid])"
  shows "content fs' site = content fs site"
proof
  fix r
  have n: "\<not> prefix q (site @ r)" "\<not> prefix (butlast q @ [last q @ ''.tmp-'' @ str_of_nat pid]) (site @ r)"
    using apart_below assms(2,3) by blast+
  from save_atomic_keeps [OF assms(1) [unfolded save_pinstore_def] n]
  show "content fs' site r = content fs site r" by (auto simp: content_def)
qed

lemma remember_key_keeps:
  assumes "remember_key E C now status uri k author ts p = (res, p')"
    and "apart site (pins_path C)" "apart site (butlast (pins_path C) @ [last (pins_path C) @ ''.tmp-'' @ str_of_nat (process_id C)])"
  shows "content (pdisk p') site = content (pdisk p) site \<and> psites p' = psites p"
proof -
  have pin: "content fs' site = content fs site"
    if "pin_key E (process_id C) now uri k author (pins_path C) t fs = (r, fs')" for r fs fs' t
    using that save_pinstore_keeps [OF _ assms(2,3)]
    by (auto simp: pin_key_def io_bind_def io_lift_def dest!: readsD [OF reads_load_pinstore]
        split: prod.split_asm sum.split_asm)
  have upd: "content fs' site = content fs site"
    if "update_pin_last_seen E (process_id C) now uri (pins_path C) t fs = (r, fs')" for r fs fs' t
    using that save_pinstore_keeps [OF _ assms(2,3)]
    by (auto simp: update_pin_last_seen_def io_bind_def io_lift_def io_ret_def dest!: readsD [OF reads_load_pinstore]
        split: prod.split_asm sum.split_asm if_split_asm)
  show ?thesis
    using assms(1) pin upd by (auto simp: remember_key_def on_disk_def split: prod.split_asm if_split_asm)
qed

lemma announce_keeps:
  assumes "announce E C uri p = (res, p')"
  shows "pdisk p' = pdisk p \<and> psites p' = psites p"
  using assms
  by (auto dest!: readsD [OF reads_load_bundle] simp: announce_def io_bind_def on_disk_def get_field_def io_lift_def io_ret_def Let_def
      split: option.split_asm prod.split_asm sum.split_asm if_split_asm)

lemma cache_attachments_keeps:
  assumes "cache_attachments E C uri k site p = (res, p')" and "r \<noteq> [''attachments.json'']"
  shows "content (pdisk p') site r = content (pdisk p) site r \<and> psites p' = psites p"
proof -
  have w: "content fs' site r = content fs site r" if "write_bytes (site @ [''attachments.json'']) c fs = (x, fs')" for c x fs fs'
    using same_exceptD [OF write_bytes_frame [OF that], of "site @ r"] assms(2) by (simp add: content_def)
  show ?thesis
    using assms(1) w
    by (auto simp: cache_attachments_def io_opt_def io_bind_def io_try_def on_naming_def on_disk_def get_field_def io_lift_def io_ret_def Let_def
        split: option.split_asm prod.split_asm sum.split_asm)
qed

lemma read_pins_Some:
  "read_pins E C p = (Inr (Some pins), p') \<Longrightarrow> p' = p \<and> load_pinstore E (pins_path C) (pdisk p) = (Inr pins, pdisk p)"
  using readsD [OF reads_load_pinstore]
  by (auto simp: read_pins_def io_try_def io_bind_def on_disk_def io_ret_def io_raise_def
      split: prod.split_asm sum.split_asm if_split_asm)

lemma on_disk_verify: "on_disk (verify_files E m site) p = (Inr [], p') \<Longrightarrow> p' = p \<and> verify_files E m site (pdisk p) = (Inr [], pdisk p)"
  by (auto simp: on_disk_Inr dest: verify_files_ok [THEN iffD1])

lemma set_site_Inr [simp]: "set_site uri site p = (Inr u, p') \<longleftrightarrow> p' = p\<lparr>psites := AList.update uri site (psites p)\<rparr>"
  by (auto simp: set_site_def)

text \<open>What was picked, and what finishing it did.\<close>

lemma pick_bundle_Some:
  assumes "pick_bundle E C now order uri given record p = (Inr (Some (k, author, ts, status, data)), p')"
  shows "p' = p \<and> py_item record ''public_key'' = Inr k \<and> bindE (py_item record ''timestamp'') py_int = Inr ts \<and>
    status \<in> {Unknown, Match} \<and>
    (\<exists>pins. load_pinstore E (pins_path C) (pdisk p) = (Inr pins, pdisk p) \<and> check_pin pins uri k (Some ts) = Inr status) \<and>
    (\<exists>ref key. py_item record ''manifest_ref'' = Inr ref \<and> b64_to_public_key E k = Inr key \<and>
      check_downloaded_bundle E now data uri key ref (data_dir C @ [uri]) = Inr None)"
proof -
  have st: "s \<noteq> Mismatch \<Longrightarrow> s \<noteq> Rollback \<Longrightarrow> s \<noteq> Unknown \<Longrightarrow> s = Match" for s
    by (cases s) auto
  show ?thesis
    using assms unfolding pick_bundle_def Let_def
    by (auto elim!: io_bind_InrE dest!: read_pins_Some try_download_Some intro!: st split: if_split_asm option.split_asm)
qed

lemma finish_fetch_True:
  assumes "finish_fetch E C now uri ann k author ts status data p = (Inr True, p')"
  obtains manifest p1 p2 p3 u1 u2 b where "py_item data ''manifest'' = Inr manifest"
      "install_bundle E C data (data_dir C @ [uri]) p = (Inr True, p1)"
      "verify_files E manifest (data_dir C @ [uri]) (pdisk p1) = (Inr [], pdisk p1)"
      "remember_key E C now status uri k author ts p1 = (Inr u1, p2)"
      "cache_attachments E C uri k (data_dir C @ [uri]) (p2\<lparr>psites := AList.update uri (data_dir C @ [uri]) (psites p2)\<rparr>) = (Inr u2, p3)"
      "ann \<and> announce E C uri p3 = (Inr b, p') \<or> \<not> ann \<and> p' = p3"
  using assms unfolding finish_fetch_def Let_def
  by (auto elim!: io_bind_InrE dest!: on_disk_verify split: if_split_asm)

text \<open>
  A fetch that returns \<open>True\<close>: the record, the key, the manifest and the files all belong together, the
  pin allowed the key, and the files are on the disk.
\<close>

definition genuine_fetch :: "env \<Rightarrow> 's pconf \<Rightarrow> int \<Rightarrow> string \<Rightarrow> 's peer \<Rightarrow> 's peer \<Rightarrow> bool" where
  "genuine_fetch E C now uri p p' \<longleftrightarrow>
     (let site = data_dir C @ [uri] in
      map_of (psites p') uri = Some site \<and>
      (\<exists>rd sg k key ts pins data md s vs fs.
         name_record_wf rd \<and> sig_valid E ''public_key'' (JDict rd) sg \<and> map_of rd ''uri'' = Some (JStr uri) \<and>
         map_of rd ''public_key'' = Some k \<and> b64_to_public_key E k = Inr key \<and>
         bindE (py_item (JDict rd) ''timestamp'') py_int = Inr ts \<and>
         load_pinstore E (pins_path C) (pdisk p) = (Inr pins, pdisk p) \<and> check_pin pins uri k (Some ts) \<in> {Inr Unknown, Inr Match} \<and>
         py_item data ''manifest'' = Inr (JDict md) \<and> map_of md ''uri'' = Some (JStr uri) \<and>
         map_of rd ''manifest_ref'' = Some (JStr (compute_manifest_ref E (JDict md))) \<and>
         py_item data ''signature'' = Inr (JStr s) \<and> verify_manifest E (JDict md) (JStr s) key = Inr True \<and>
         is_manifest_expired now (JDict md) = Inr False \<and>
         validate_bundle_payload E data site = Inr vs \<and> installed E data vs fs site \<and>
         (\<forall>r. r \<noteq> [''attachments.json''] \<longrightarrow> content (pdisk p') site r = content fs site r)))"

lemma finish_fetch_keeps:
  assumes "finish_fetch E C now uri ann k author ts status data p = (Inr True, p')" and "fs_wf (pdisk p)"
    and "apart (data_dir C @ [uri]) (pins_path C)"
    and "apart (data_dir C @ [uri]) (butlast (pins_path C) @ [last (pins_path C) @ ''.tmp-'' @ str_of_nat (process_id C)])"
  shows "map_of (psites p') uri = Some (data_dir C @ [uri]) \<and>
    (\<exists>vs fs. validate_bundle_payload E data (data_dir C @ [uri]) = Inr vs \<and> installed E data vs fs (data_dir C @ [uri]) \<and>
      (\<forall>r. r \<noteq> [''attachments.json''] \<longrightarrow> content (pdisk p') (data_dir C @ [uri]) r = content fs (data_dir C @ [uri]) r))"
proof -
  let ?site = "data_dir C @ [uri]"
  from finish_fetch_True [OF assms(1)] obtain p1 p2 p3 u1 u2 b where
      i: "install_bundle E C data ?site p = (Inr True, p1)"
      and m: "remember_key E C now status uri k author ts p1 = (Inr u1, p2)"
      and c: "cache_attachments E C uri k ?site (p2\<lparr>psites := AList.update uri ?site (psites p2)\<rparr>) = (Inr u2, p3)"
      and n: "ann \<and> announce E C uri p3 = (Inr b, p') \<or> \<not> ann \<and> p' = p3" .
  obtain vs where v: "validate_bundle_payload E data ?site = Inr vs" "installed E data vs (pdisk p1) ?site"
    using install_bundle_True [OF i _ assms(2)] by auto
  have last: "pdisk p' = pdisk p3 \<and> psites p' = psites p3" using n by (auto dest: announce_keeps)
  have "content (pdisk p') ?site r = content (pdisk p1) ?site r" if "r \<noteq> [''attachments.json'']" for r
    using cache_attachments_keeps [OF c that] remember_key_keeps [OF m assms(3,4)] last by simp
  moreover have "map_of (psites p') uri = Some ?site"
    using cache_attachments_keeps [OF c, of "[]"] last by simp
  ultimately show ?thesis using v by blast
qed

lemma fetch_site_genuine:
  assumes "fetch_site E C now order uri given ann p = (Inr True, p')" and "fs_wf (pdisk p)"
    and "apart (data_dir C @ [uri]) (pins_path C)"
    and "apart (data_dir C @ [uri]) (butlast (pins_path C) @ [last (pins_path C) @ ''.tmp-'' @ str_of_nat (process_id C)])"
  shows "genuine_fetch E C now uri p p'"
proof -
  obtain far rcd p1 where r: "resolve_verified E far uri p = (Inr (Some rcd), p1)"
      and f: "fetch_verified E C now order uri given ann rcd p1 = (Inr True, p')"
    using assms(1) unfolding fetch_site_def
    by (auto elim!: io_bind_InrE simp: io_raise_def split: option.split_asm)
  obtain rd sg where rd: "rcd = JDict rd" "name_record_wf rd" "sig_valid E ''public_key'' (JDict rd) sg"
      "map_of rd ''uri'' = Some (JStr uri)" and p1: "pdisk p1 = pdisk p"
    using resolve_verified_Some [OF r] by blast
  obtain k author ts status data p2 where pk: "pick_bundle E C now order uri given rcd p1 = (Inr (Some (k, author, ts, status, data)), p2)"
      and fin: "finish_fetch E C now uri ann k author ts status data p2 = (Inr True, p')"
    using f unfolding fetch_verified_def by (auto elim!: io_bind_InrE split: option.split_asm)
  note q = pick_bundle_Some [OF pk]
  obtain pins ref key where q2: "load_pinstore E (pins_path C) (pdisk p) = (Inr pins, pdisk p)"
      "check_pin pins uri k (Some ts) = Inr status" "py_item rcd ''manifest_ref'' = Inr ref"
      "b64_to_public_key E k = Inr key" "check_downloaded_bundle E now data uri key ref (data_dir C @ [uri]) = Inr None"
    using q p1 by auto
  obtain d md s sb where acc: "data = JDict d" "map_of d ''manifest'' = Some (JDict md)" "map_of d ''signature'' = Some (JStr s)"
      "b64decode (JStr s) = Inr sb" "ed_verify E key sb (canonical_json E (JDict md))"
      "get_or md ''public_key'' (JStr []) = JStr (public_key_to_b64 key)" "map_of md ''uri'' = Some (JStr uri)"
      "ref = JStr (compute_manifest_ref E (JDict md))" "is_manifest_expired now (JDict md) = Inr False"
    using acceptable_bundle [OF q2(5)] by blast
  have vm: "verify_manifest E (JDict md) (JStr s) key = Inr True"
    using acc by (auto simp: verify_manifest_True)
  have k: "map_of rd ''public_key'' = Some k" "map_of rd ''manifest_ref'' = Some (JStr (compute_manifest_ref E (JDict md)))"
    using q q2(3) acc(8) rd(1) by (auto split: option.split_asm)
  have pst: "check_pin pins uri k (Some ts) \<in> {Inr Unknown, Inr Match}" using q q2(2) by auto
  have wf: "fs_wf (pdisk p2)" using q p1 assms(2) by simp
  have ts: "bindE (py_item (JDict rd) ''timestamp'') py_int = Inr ts" using q rd(1) by simp
  have items: "py_item data ''manifest'' = Inr (JDict md)" "py_item data ''signature'' = Inr (JStr s)"
    using acc by (auto simp: py_item_Inr_iff)
  obtain vs fs where inst: "validate_bundle_payload E data (data_dir C @ [uri]) = Inr vs"
      "installed E data vs fs (data_dir C @ [uri])" "map_of (psites p') uri = Some (data_dir C @ [uri])"
      "\<forall>r. r \<noteq> [''attachments.json''] \<longrightarrow> content (pdisk p') (data_dir C @ [uri]) r = content fs (data_dir C @ [uri]) r"
    using finish_fetch_keeps [OF fin wf assms(3,4)] by blast
  show ?thesis
    unfolding genuine_fetch_def Let_def
    by (intro conjI exI [of _ rd] exI [of _ sg] exI [of _ k] exI [of _ key] exI [of _ ts] exI [of _ pins] exI [of _ data]
        exI [of _ md] exI [of _ s] exI [of _ vs] exI [of _ fs])
      (rule inst rd(2-4) k q2(1,4) ts pst items acc(7,9) vm rd(3) [unfolded rd(1)])+
qed

end
