(* ===== verification/ReviewerDaemon.thy ===== *)
theory ReviewerDaemon
  imports PeerFetch
begin

text \<open>
  peer/reviewer_daemon.py: the reviewer's identity, the registration of an opt-in, and the polling of the
  inbox.  The daemon runs beside a peer and works on the peer's state.  The decision and the download of
  the content are arguments, as they are in the code: functions that may raise and may change the state.
\<close>

record review_context =
  ctx_assignment :: json
  ctx_manifest :: json

record review_verdict =
  rv_verdict :: string
  rv_comment :: string

type_synonym 's reviewer_callback = "review_context \<Rightarrow> ('s peer, review_verdict option) op"
type_synonym 's content_fetcher = "json \<Rightarrow> ('s peer, json) op"

record 's daemon =
  inbox_end :: "'s far"
  reviewer_key :: string
  reviewer_pub :: string
  reviewer_peer_id :: string
  get_addrs :: "'s peer \<Rightarrow> string list"
  fetch_content :: "'s content_fetcher"
  ask_reviewer :: "'s reviewer_callback"
  cache_path :: path
  offered_categories :: "string list"

definition auto_decline :: "'s reviewer_callback" where
  "auto_decline ctx = io_ret None"

section \<open>Identity and registration\<close>

definition ensure_reviewer_identity ::
  "env \<Rightarrow> pem \<Rightarrow> string \<Rightarrow> nat list \<Rightarrow> path \<Rightarrow> string \<Rightarrow> (string \<times> string) io" where
  "ensure_reviewer_identity E P sk ks key_dir name fs =
     (let priv = resolve_in key_dir (name @ ''.key''); pub = resolve_in key_dir (name @ ''.pub'') in
      io_bind
        (if fexists fs priv \<and> fexists fs pub then io_ret ()
         else io_bind (generate_keypair E P sk ks key_dir name None) (\<lambda>_. io_ret ()))
        (\<lambda>_. io_bind (load_private_key P priv None) (\<lambda>k.
             io_bind (load_public_key P pub) (\<lambda>pk. io_ret (k, public_key_to_b64 pk)))) fs)"

definition register_reviewer_once ::
  "env \<Rightarrow> 's far \<Rightarrow> int \<Rightarrow> string \<Rightarrow> string \<Rightarrow> string \<Rightarrow> string list \<Rightarrow> string list \<Rightarrow> int option \<Rightarrow> ('s peer, bool) op" where
  "register_reviewer_once E far now sk pk64 peer_id addrs cats timestamp =
     io_bind (io_lift (build_reviewer_opt_in now pk64 peer_id addrs cats timestamp)) (\<lambda>opt_in.
     io_bind (io_lift (sign_reviewer_opt_in E (JDict opt_in) sk)) (\<lambda>signature.
     io_bind (io_opt (on_naming (client_register_reviewer E far (JDict opt_in) (JStr signature)))) (\<lambda>resp.
     case resp of
       None \<Rightarrow> io_ret False
     | Some r \<Rightarrow> io_bind (get_field r ''type'' JNull) (\<lambda>t. io_ret (t = JStr ''ok'')))))"

section \<open>The cache of processed assignments\<close>

text \<open>Whatever is wrong with the file, the daemon starts from an empty list.\<close>

definition no_cache :: jdict where
  "no_cache = [(''processed'', JList [])]"

definition load_cache :: "env \<Rightarrow> path \<Rightarrow> jdict io" where
  "load_cache E p fs =
     (if \<not> fexists fs p then (Inr no_cache, fs)
      else io_try
        (io_bind (io_bind (read_text p) (\<lambda>s. io_lift (loads E s))) (\<lambda>data.
         case data of
           JDict d \<Rightarrow> io_ret (if is_list (get_or d ''processed'' JNull) then d
                             else AList.update ''processed'' (JList []) d)
         | _ \<Rightarrow> io_raise TypeError))
        (\<lambda>e. io_ret no_cache) fs)"

definition save_cache :: "env \<Rightarrow> jdict \<Rightarrow> path \<Rightarrow> unit io" where
  "save_cache E cache p = save_atomic ''.tmp'' p (dumps_indent_sorted E (JDict cache))"

section \<open>One pass over the inbox\<close>

definition attach_verdict :: "env \<Rightarrow> 's daemon \<Rightarrow> int \<Rightarrow> json \<Rightarrow> review_verdict \<Rightarrow> ('s peer, unit) op" where
  "attach_verdict E D now content_key v =
     io_bind (io_lift (bindE (text_of content_key) (\<lambda>ck.
       build_review_record now ck (reviewer_pub D) (rv_verdict v) (rv_comment v) None))) (\<lambda>review.
     io_bind (io_lift (sign_review_record E (JDict review) (reviewer_key D))) (\<lambda>signature.
     io_bind (io_opt (on_naming (client_attach_review E (inbox_end D) (JDict review) (JStr signature)))) (\<lambda>resp.
     case resp of
       None \<Rightarrow> io_ret ()
     | Some r \<Rightarrow> io_bind (get_field r ''type'' JNull) (\<lambda>t. io_ret ()))))"

text \<open>
  A verified assignment that is still open: the content is fetched, the callback decides, and the
  verdict is sent.  The result tells whether the assignment is settled.
\<close>

definition settle :: "env \<Rightarrow> 's daemon \<Rightarrow> int \<Rightarrow> json \<Rightarrow> json \<Rightarrow> ('s peer, bool) op" where
  "settle E D now assignment content_key =
     io_bind (io_opt (fetch_content D assignment)) (\<lambda>fetched.
     case fetched of
       None \<Rightarrow> io_ret False
     | Some manifest \<Rightarrow>
         if manifest = JNull then io_ret False
         else io_bind (io_opt (ask_reviewer D \<lparr>ctx_assignment = assignment, ctx_manifest = manifest\<rparr>)) (\<lambda>answer.
           case answer of
             None \<Rightarrow> io_ret False
           | Some None \<Rightarrow> io_ret True
           | Some (Some v) \<Rightarrow> io_bind (attach_verdict E D now content_key v) (\<lambda>_. io_ret True)))"

text \<open>One entry, with the list of processed content keys and whether it changed.\<close>

definition poll_entry :: "env \<Rightarrow> 's daemon \<Rightarrow> int \<Rightarrow> json \<Rightarrow> json list \<times> bool \<Rightarrow> ('s peer, json list \<times> bool) op" where
  "poll_entry E D now entry = (\<lambda>(processed, changed).
     io_bind (get_field entry ''record'' JNull) (\<lambda>r0. let assignment = json_or r0 (JDict []) in
     io_bind (get_field entry ''signature'' (JStr [])) (\<lambda>signature.
     io_bind (get_field assignment ''content_key'' (JStr [])) (\<lambda>content_key.
     if \<not> truthy content_key \<or> list_ex (py_eq content_key) processed then io_ret (processed, changed)
     else io_bind (io_lift (verify_review_assignment E now None assignment signature)) (\<lambda>(ok, err).
       if \<not> ok then io_ret (processed, changed)
       else io_bind (io_lift (bindE (py_get assignment ''deadline'' (JInt 0)) py_int)) (\<lambda>deadline.
         if deadline < now then io_ret (processed @ [content_key], True)
         else io_bind (settle E D now assignment content_key) (\<lambda>settled.
           io_ret (if settled then (processed @ [content_key], True) else (processed, changed)))))))))"

fun poll_entries :: "env \<Rightarrow> 's daemon \<Rightarrow> int \<Rightarrow> json list \<Rightarrow> json list \<times> bool \<Rightarrow> ('s peer, json list \<times> bool) op" where
  "poll_entries E D now [] st = io_ret st"
| "poll_entries E D now (e # es) st = io_bind (poll_entry E D now e st) (poll_entries E D now es)"

definition poll_once :: "env \<Rightarrow> 's daemon \<Rightarrow> int \<Rightarrow> ('s peer, unit) op" where
  "poll_once E D now =
     io_bind (on_naming (client_list_assignments E (inbox_end D) (reviewer_pub D))) (\<lambda>listing.
     io_bind (get_field listing ''records'' JNull) (\<lambda>rs. let entries = json_or rs (JList []) in
     if \<not> truthy entries then io_ret ()
     else io_bind (on_disk (load_cache E (cache_path D))) (\<lambda>cache.
       io_bind (io_lift (py_iter (get_or cache ''processed'' (JList [])))) (\<lambda>processed.
       io_bind (io_lift (py_iter entries)) (\<lambda>es.
       io_bind (poll_entries E D now es (processed, False)) (\<lambda>(processed', changed).
       if changed then on_disk (save_cache E (AList.update ''processed'' (JList processed') cache) (cache_path D))
       else io_ret ()))))))"

section \<open>The daemon's steps\<close>

text \<open>One turn of the polling loop: an exception of the pass is logged.\<close>

definition poll_turn :: "env \<Rightarrow> 's daemon \<Rightarrow> int \<Rightarrow> ('s peer, unit) op" where
  "poll_turn E D now = io_try (poll_once E D now) (\<lambda>e. io_ret ())"

definition heartbeat :: "env \<Rightarrow> 's daemon \<Rightarrow> int \<Rightarrow> ('s peer, bool) op" where
  "heartbeat E D now p =
     register_reviewer_once E (inbox_end D) now (reviewer_key D) (reviewer_pub D) (reviewer_peer_id D)
       (get_addrs D p) (offered_categories D) None p"

text \<open>
  The two loops take turns in any order, at any times; the first step is a registration.  An exception of
  a registration ends the daemon.
\<close>

inductive daemon_run :: "env \<Rightarrow> 's daemon \<Rightarrow> 's peer \<Rightarrow> 's peer \<Rightarrow> bool" for E D p0 where
  boots: "heartbeat E D now p0 = (Inr b, p) \<Longrightarrow> daemon_run E D p0 p"
| beats: "daemon_run E D p0 p \<Longrightarrow> heartbeat E D now p = (Inr b, p') \<Longrightarrow> daemon_run E D p0 p'"
| polls: "daemon_run E D p0 p \<Longrightarrow> poll_turn E D now p = (r, p') \<Longrightarrow> daemon_run E D p0 p'"

section \<open>At most once\<close>

text \<open>
  To count decisions, \<open>trail\<close> reads off the state which content keys the callback has answered for.  The
  far end, the download and the callback are supposed to leave the cache file alone.
\<close>

definition key_of :: "review_context \<Rightarrow> string" where
  "key_of ctx = (case py_get (ctx_assignment ctx) ''content_key'' JNull of Inr (JStr k) \<Rightarrow> k | _ \<Rightarrow> [])"

definition quiet :: "('s peer \<Rightarrow> string list) \<Rightarrow> path \<Rightarrow> ('s peer, 'a) op \<Rightarrow> bool" where
  "quiet trail cp m \<longleftrightarrow>
     (\<forall>p. trail (snd (m p)) = trail p \<and> at_path (pdisk (snd (m p))) cp = at_path (pdisk p) cp)"

definition observes :: "('s peer \<Rightarrow> string list) \<Rightarrow> 's daemon \<Rightarrow> bool" where
  "observes trail D \<longleftrightarrow>
     (\<forall>p s. trail (p\<lparr>far_state := snd (inbox_end D s (far_state p))\<rparr>) = trail p) \<and>
     (\<forall>p d. trail (p\<lparr>pdisk := d\<rparr>) = trail p) \<and>
     (\<forall>a. quiet trail (cache_path D) (fetch_content D a)) \<and>
     (\<forall>ctx p r p'. ask_reviewer D ctx p = (r, p') \<longrightarrow>
        at_path (pdisk p') (cache_path D) = at_path (pdisk p) (cache_path D) \<and>
        trail p' = trail p @ (case r of Inl e \<Rightarrow> [] | Inr v \<Rightarrow> [key_of ctx]))"

lemma quietD: "quiet trail cp m \<Longrightarrow> m p = (r, p') \<Longrightarrow> trail p' = trail p \<and> at_path (pdisk p') cp = at_path (pdisk p) cp"
  unfolding quiet_def by (metis snd_conv)

lemma quiet_basic [simp]: "quiet trail cp (io_ret x)" "quiet trail cp (io_raise e)" "quiet trail cp (io_lift r)"
    "quiet trail cp (get_field j k d)"
  by (auto simp: quiet_def io_ret_def io_raise_def io_lift_def get_field_def)

lemma quiet_bind: "quiet trail cp m \<Longrightarrow> (\<And>x. quiet trail cp (f x)) \<Longrightarrow> quiet trail cp (io_bind m f)"
  unfolding quiet_def io_bind_def by (auto split: prod.split sum.split) (metis snd_conv)+

lemma quiet_opt: "quiet trail cp m \<Longrightarrow> quiet trail cp (io_opt m)"
  unfolding quiet_def io_opt_def io_try_def io_bind_def io_ret_def by (auto split: prod.split sum.split) (metis snd_conv)+

lemma io_opt_cases:
  assumes "io_opt m p = (r, p')"
  obtains x where "r = Inr (Some x)" "m p = (Inr x, p')" | e where "r = Inr None" "m p = (Inl e, p')"
  using assms by (auto simp: io_opt_def io_try_def io_bind_def io_ret_def split: prod.split_asm sum.split_asm)

lemma quiet_rpc:
  assumes "observes trail D"
  shows "quiet trail (cache_path D) (on_naming (rpc E (inbox_end D) m))"
proof -
  have "snd (rpc E (inbox_end D) m s) = s \<or> (\<exists>ws. snd (rpc E (inbox_end D) m s) = snd (inbox_end D ws s))" for s
    by (auto simp: rpc_def split: sum.split prod.split json.split) (metis snd_conv)+
  moreover have "trail (p\<lparr>far_state := far_state p\<rparr>) = trail p" for p by simp
  ultimately show ?thesis
    using assms by (simp add: quiet_def on_naming_def observes_def split_beta) (metis peer.surjective peer.update_convs(1))
qed

lemma quiet_attach:
  assumes "observes trail D"
  shows "quiet trail (cache_path D) (attach_verdict E D now ck v)"
  unfolding attach_verdict_def client_attach_review_def
  by (intro quiet_bind quiet_opt quiet_rpc [OF assms]) (auto split: option.split intro: quiet_bind)

lemma settle_result:
  assumes "observes trail D" and "settle E D now a ck p = (r, p')"
  shows "at_path (pdisk p') (cache_path D) = at_path (pdisk p) (cache_path D) \<and>
    (r = Inr True \<longrightarrow> trail p' = trail p @ [key_of \<lparr>ctx_assignment = a, ctx_manifest = JNull\<rparr>]) \<and>
    (r = Inr False \<longrightarrow> trail p' = trail p)"
proof -
  have key: "key_of \<lparr>ctx_assignment = a, ctx_manifest = m\<rparr> = key_of \<lparr>ctx_assignment = a, ctx_manifest = JNull\<rparr>" for m
    by (simp add: key_of_def)
  note D = assms(1) [unfolded observes_def]
  obtain r1 p1 where f: "io_opt (fetch_content D a) p = (r1, p1)" by fastforce
  have q1: "trail p1 = trail p \<and> at_path (pdisk p1) (cache_path D) = at_path (pdisk p) (cache_path D)"
    using quietD [OF quiet_opt f] D by blast
  show ?thesis
  proof (cases "\<exists>m. r1 = Inr (Some m) \<and> m \<noteq> JNull")
    case False
    then have "r = Inr False \<and> p' = p1" using assms(2) f
      by (cases rule: io_opt_cases [OF f]) (auto simp: settle_def io_bind_def io_ret_def)
    then show ?thesis using q1 by simp
  next
    case True
    then obtain m where m: "r1 = Inr (Some m)" "m \<noteq> JNull" by blast
    let ?ctx = "\<lparr>ctx_assignment = a, ctx_manifest = m\<rparr>"
    obtain r2 p2 where d: "io_opt (ask_reviewer D ?ctx) p1 = (r2, p2)" by fastforce
    show ?thesis
    proof (cases rule: io_opt_cases [OF d])
      case (1 v)
      have q2: "trail p2 = trail p1 @ [key_of ?ctx] \<and> at_path (pdisk p2) (cache_path D) = at_path (pdisk p1) (cache_path D)"
        using D 1(2) by fastforce
      show ?thesis
      proof (cases v)
        case None
        then have "r = Inr True \<and> p' = p2" using assms(2) f d m 1 by (simp add: settle_def io_bind_def io_ret_def)
        then show ?thesis using q1 q2 key by simp
      next
        case (Some w)
        obtain r3 p3 where t: "attach_verdict E D now ck w p2 = (r3, p3)" by fastforce
        have "p' = p3 \<and> r \<noteq> Inr False" using assms(2) f d m 1 Some t
          by (auto simp: settle_def io_bind_def io_ret_def split: sum.split_asm)
        then show ?thesis using q1 q2 key quietD [OF quiet_attach [OF assms(1)] t] by simp
      qed
    next
      case (2 e)
      have "trail p2 = trail p1 \<and> at_path (pdisk p2) (cache_path D) = at_path (pdisk p1) (cache_path D)"
        using D 2(2) by fastforce
      moreover have "r = Inr False \<and> p' = p2" using assms(2) f d m 2 by (simp add: settle_def io_bind_def io_ret_def)
      ultimately show ?thesis using q1 by simp
    qed
  qed
qed


text \<open>How a part of a pass changes the list of settled keys and the answers given.\<close>

definition advances :: "('s peer \<Rightarrow> string list) \<Rightarrow> path \<Rightarrow> string list \<Rightarrow> 's peer \<Rightarrow> string list \<Rightarrow> 's peer \<Rightarrow> bool" where
  "advances trail cp ks p ks' p' \<longleftrightarrow>
     at_path (pdisk p') cp = at_path (pdisk p) cp \<and>
     (\<exists>new answered. ks' = ks @ new \<and> trail p' = trail p @ answered \<and> set answered \<subseteq> set new \<and>
        distinct answered \<and> set new \<inter> set ks = {} \<and> list_all utf8 new)"

lemma advances_trans:
  assumes "advances trail cp ks p ks1 p1" and "advances trail cp ks1 p1 ks2 p2"
  shows "advances trail cp ks p ks2 p2"
proof -
  obtain n a where 1: "ks1 = ks @ n" "trail p1 = trail p @ a" "set a \<subseteq> set n" "distinct a" "set n \<inter> set ks = {}" "list_all utf8 n"
      and d1: "at_path (pdisk p1) cp = at_path (pdisk p) cp"
    using assms(1) unfolding advances_def by blast
  obtain m b where 2: "ks2 = ks1 @ m" "trail p2 = trail p1 @ b" "set b \<subseteq> set m" "distinct b" "set m \<inter> set ks1 = {}" "list_all utf8 m"
      and d2: "at_path (pdisk p2) cp = at_path (pdisk p1) cp"
    using assms(2) unfolding advances_def by blast
  show ?thesis
    unfolding advances_def
    using 1 2 d1 d2 by (intro conjI exI [of _ "n @ m"] exI [of _ "a @ b"]) auto
qed

lemma advances_refl: "trail p' = trail p \<Longrightarrow> at_path (pdisk p') cp = at_path (pdisk p) cp \<Longrightarrow> advances trail cp ks p ks p'"
  by (auto simp: advances_def intro: exI [of _ "[]"])

lemma py_eq_map_str: "list_ex (py_eq (JStr k)) (map JStr ks) \<longleftrightarrow> k \<in> set ks"
  by (auto simp: list_ex_iff)

lemma utf8_content_key [simp]: "utf8 (compute_content_key E u k)"
proof (rule utf8_ascii)
  show "\<forall>c \<in> set (compute_content_key E u k). of_char c < (128::nat)"
    using byte_less hex_char_ascii unfolding compute_content_key_def hexdigest_def byte_def
    by (auto simp: less_mult_imp_div_less)
qed

lemma poll_entry_advances:
  assumes "observes trail D" and "poll_entry E D now e (map JStr ks, ch) p = (r, p')"
  shows "at_path (pdisk p') (cache_path D) = at_path (pdisk p) (cache_path D) \<and>
    (\<forall>pr ch'. r = Inr (pr, ch') \<longrightarrow> (ch' \<longleftrightarrow> ch \<or> pr \<noteq> map JStr ks) \<and>
      (\<exists>ks'. pr = map JStr ks' \<and> advances trail (cache_path D) ks p ks' p'))"
proof (cases "p' = p \<and> (\<forall>pr ch'. r = Inr (pr, ch') \<longrightarrow> pr = map JStr ks \<and> ch' = ch)")
  case True
  then show ?thesis by (auto intro!: exI [of _ ks] advances_refl)
next
  case False
  obtain a signature ck err where a: "verify_review_assignment E now None a signature = Inr (True, err)"
      and k: "py_get a ''content_key'' (JStr []) = Inr ck" "\<not> list_ex (py_eq ck) (map JStr ks)"
      and rest: "(\<exists>dl. r = Inr (map JStr ks @ [ck], True) \<and> p' = p) \<or>
        (\<exists>q. settle E D now a ck p = (Inr True, p') \<and> r = Inr (map JStr ks @ [ck], True)) \<or>
        settle E D now a ck p = (Inr False, p') \<and> r = Inr (map JStr ks, ch) \<or>
        (\<exists>x. settle E D now a ck p = (Inl x, p') \<and> r = Inl x)"
    using assms(2) False unfolding poll_entry_def Let_def
    by (auto simp: io_bind_def get_field_def io_lift_def io_ret_def split: if_split_asm sum.split_asm prod.split_asm)
  obtain ad where ad: "a = JDict ad" "assignment_wf E ad" using assignment.accepted_wf [OF a] by blast
  then obtain s where s: "ck = JStr s" "utf8 s" using k(1) by (auto simp: assignment_wf_def)
  have new: "s \<notin> set ks" using k(2) s(1) by (simp add: py_eq_map_str)
  have key: "key_of \<lparr>ctx_assignment = a, ctx_manifest = JNull\<rparr> = s"
    using k(1) s(1) ad by (auto simp: key_of_def assignment_wf_def)
  have adv: "advances trail (cache_path D) ks p (ks @ [s]) q"
    if "trail q = trail p \<or> trail q = trail p @ [s]" "at_path (pdisk q) (cache_path D) = at_path (pdisk p) (cache_path D)" for q
    using that new s(2) unfolding advances_def by auto
  note settled = settle_result [OF assms(1), of E now a ck p _ p', unfolded key]
  from rest show ?thesis
  proof (elim disjE exE conjE)
    fix dl assume "r = Inr (map JStr ks @ [ck], True)" "p' = p"
    then show ?thesis using adv [of p] s(1) by (auto intro!: exI [of _ "ks @ [s]"])
  next
    fix q assume "settle E D now a ck p = (Inr True, p')" "r = Inr (map JStr ks @ [ck], True)"
    then show ?thesis using adv [of p'] s(1) settled [of "Inr True"] by (auto intro!: exI [of _ "ks @ [s]"])
  next
    assume "settle E D now a ck p = (Inr False, p')" "r = Inr (map JStr ks, ch)"
    then show ?thesis using advances_refl [of trail p' p "cache_path D" ks] settled [of "Inr False"] by auto
  next
    fix x assume "settle E D now a ck p = (Inl x, p')" "r = Inl x"
    then show ?thesis using settled [of "Inl x"] by auto
  qed
qed


lemma poll_entries_advances:
  assumes "observes trail D" and "poll_entries E D now es (map JStr ks, ch) p = (r, p')"
  shows "at_path (pdisk p') (cache_path D) = at_path (pdisk p) (cache_path D) \<and>
    (\<forall>pr ch'. r = Inr (pr, ch') \<longrightarrow> (ch' \<longleftrightarrow> ch \<or> pr \<noteq> map JStr ks) \<and>
      (\<exists>ks'. pr = map JStr ks' \<and> advances trail (cache_path D) ks p ks' p'))"
  using assms(2)
proof (induction es arbitrary: ks ch p)
  case Nil
  then show ?case by (auto intro!: exI [of _ ks] advances_refl)
next
  case (Cons e es)
  obtain r1 p1 where e: "poll_entry E D now e (map JStr ks, ch) p = (r1, p1)" by fastforce
  note one = poll_entry_advances [OF assms(1) e]
  show ?case
  proof (cases r1)
    case (Inl x)
    then have "r = Inl x" "p' = p1" using Cons.prems e by (simp_all add: io_bind_def)
    then show ?thesis using one by simp
  next
    case (Inr st)
    obtain pr ch1 where st: "st = (pr, ch1)" by (cases st)
    obtain ks1 where ks1: "pr = map JStr ks1" "advances trail (cache_path D) ks p ks1 p1"
        and c1: "ch1 \<longleftrightarrow> ch \<or> pr \<noteq> map JStr ks"
      using one Inr st by auto
    have rest: "poll_entries E D now es (map JStr ks1, ch1) p1 = (r, p')"
      using Cons.prems e Inr st ks1(1) by (simp add: io_bind_def)
    note two = Cons.IH [OF rest]
    have longer: "\<exists>new. ks' = ks1 @ new" if "advances trail (cache_path D) ks1 p1 ks' p'" for ks'
      using that by (auto simp: advances_def)
    obtain new1 where n1: "ks1 = ks @ new1" using ks1(2) by (auto simp: advances_def)
    show ?thesis
    proof (intro conjI allI impI)
      show "at_path (pdisk p') (cache_path D) = at_path (pdisk p) (cache_path D)"
        using one two by simp
      fix pr' ch' assume r: "r = Inr (pr', ch')"
      then obtain ks' where ks': "pr' = map JStr ks'" "advances trail (cache_path D) ks1 p1 ks' p'"
          and c2: "ch' \<longleftrightarrow> ch1 \<or> pr' \<noteq> map JStr ks1"
        using two by auto
      show "\<exists>ks'. pr' = map JStr ks' \<and> advances trail (cache_path D) ks p ks' p'"
        using ks' advances_trans [OF ks1(2)] by blast
      obtain new2 where "ks' = ks1 @ new2" using longer [OF ks'(2)] by blast
      then show "ch' \<longleftrightarrow> ch \<or> pr' \<noteq> map JStr ks" using c1 c2 ks1(1) ks'(1) n1 by auto
    qed
  qed
qed

section \<open>Passes and the cache\<close>

definition cache_json :: "string list \<Rightarrow> jdict" where
  "cache_json ks = [(''processed'', JList (map JStr ks))]"

definition cache_holds :: "env \<Rightarrow> path \<Rightarrow> string list \<Rightarrow> fsys \<Rightarrow> bool" where
  "cache_holds E cp ks fs \<longleftrightarrow> list_all utf8 ks \<and>
     (at_path fs cp = None \<and> ks = [] \<or>
      at_path fs cp = Some (File (dumps_indent_sorted E (JDict (cache_json ks)))))"

lemma map_JStr_wf: "list_all utf8 ks \<Longrightarrow> jwf_list (map JStr ks) \<and> no_float_list (map JStr ks) \<and> sort_keys_list (map JStr ks) = map JStr ks"
  by (induction ks) auto

lemma cache_json_wf:
  assumes "list_all utf8 ks"
  shows "jwf (JDict (cache_json ks))" "no_float (JDict (cache_json ks))" "sort_keys (JDict (cache_json ks)) = JDict (cache_json ks)"
  using map_JStr_wf [OF assms] by (simp_all add: cache_json_def utf8_ascii)

lemma load_cache_holds:
  assumes "cache_holds E cp ks fs"
  shows "load_cache E cp fs = (Inr (cache_json ks), fs)"
proof -
  have u: "list_all utf8 ks" using assms by (simp add: cache_holds_def)
  note wf = cache_json_wf [OF u]
  from assms consider "at_path fs cp = None" "ks = []" | "at_path fs cp = Some (File (dumps_indent_sorted E (JDict (cache_json ks))))"
    by (auto simp: cache_holds_def)
  then show ?thesis
  proof cases
    case 1
    then show ?thesis by (simp add: load_cache_def fexists_def no_cache_def cache_json_def)
  next
    case 2
    have "io_bind (read_text cp) (\<lambda>s. io_lift (loads E s)) fs = (Inr (JDict (cache_json ks)), fs)"
      using read_dumped [OF wf(1,2) 2] wf(3) by (simp add: io_bind_def io_lift_def)
    moreover have "fexists fs cp" using 2 by (simp add: fexists_def)
    ultimately show ?thesis
      by (simp add: load_cache_def io_try_def io_bind_def [of "io_bind _ _"] io_ret_def) (simp add: cache_json_def get_or_def)
  qed
qed


text \<open>
  A pass that raises leaves the file of processed assignments as it was, whatever it had settled; one
  that completes adds what it settled, and answers for nothing twice.
\<close>

lemma save_cache_result:
  assumes "cp \<noteq> []" and "list_all utf8 ks" and "save_cache E (AList.update ''processed'' (JList (map JStr ks)) (cache_json ks0)) cp fs = (r, fs')"
  shows "(\<forall>u. r = Inr u \<longrightarrow> cache_holds E cp ks fs') \<and> (\<forall>e. r = Inl e \<longrightarrow> at_path fs' cp = at_path fs cp)"
proof -
  have "AList.update ''processed'' (JList (map JStr ks)) (cache_json ks0) = cache_json ks" by (simp add: cache_json_def)
  then show ?thesis
    using save_atomic_result [OF assms(1), of "''.tmp''"] assms(2,3) by (simp add: save_cache_def cache_holds_def)
qed

lemma poll_once_result:
  assumes "observes trail D" and "cache_path D \<noteq> []" and "cache_holds E (cache_path D) ks (pdisk p)"
    and "poll_once E D now p = (r, p')"
  shows "(\<forall>e. r = Inl e \<longrightarrow> at_path (pdisk p') (cache_path D) = at_path (pdisk p) (cache_path D)) \<and>
    (r = Inr () \<longrightarrow> (\<exists>new answered. cache_holds E (cache_path D) (ks @ new) (pdisk p') \<and> trail p' = trail p @ answered \<and>
       set answered \<subseteq> set new \<and> distinct answered \<and> set new \<inter> set ks = {}))"
proof -
  have same: "cache_holds E (cache_path D) ks fs" if "at_path fs (cache_path D) = at_path (pdisk p) (cache_path D)" for fs
    using assms(3) that by (simp add: cache_holds_def)
  obtain r1 p1 where l: "on_naming (client_list_assignments E (inbox_end D) (reviewer_pub D)) p = (r1, p1)" by fastforce
  have q1: "trail p1 = trail p \<and> at_path (pdisk p1) (cache_path D) = at_path (pdisk p) (cache_path D)"
    using quietD [OF quiet_rpc [OF assms(1)] l [unfolded client_list_assignments_def]] .
  have early: ?thesis if "p' = p1"
    using that q1 same [of "pdisk p1"] by (auto intro!: exI [of _ "[]"])
  show ?thesis
  proof (cases "p' = p1")
    case False
    have c: "on_disk (load_cache E (cache_path D)) p1 = (Inr (cache_json ks), p1)"
      using load_cache_holds [OF same [of "pdisk p1"]] q1 by (simp add: on_disk_def)
    have held: "get_or (cache_json ks) ''processed'' (JList []) = JList (map JStr ks)" by (simp add: cache_json_def get_or_def)
    obtain es rs where es: "py_iter (json_or rs (JList [])) = Inr es"
      and rest: "io_bind (poll_entries E D now es (map JStr ks, False)) (\<lambda>(processed', changed).
       if changed then on_disk (save_cache E (AList.update ''processed'' (JList processed') (cache_json ks)) (cache_path D))
       else io_ret ()) p1 = (r, p')"
      using assms(4) l False c unfolding poll_once_def Let_def
      by (auto simp: io_bind_def [of "on_naming _"] io_bind_def [of "on_disk (load_cache _ _)"] io_bind_def [of "get_field _ _ _"]
          io_bind_def [of "io_lift _"] get_field_def io_lift_def io_ret_def held split: sum.split_asm if_split_asm)
    obtain r2 p2 where pe: "poll_entries E D now es (map JStr ks, False) p1 = (r2, p2)" by fastforce
    note ents = poll_entries_advances [OF assms(1) pe]
    show ?thesis
    proof (cases r2)
      case (Inl x)
      then have "r = Inl x" "p' = p2" using rest pe by (simp_all add: io_bind_def)
      then show ?thesis using ents q1 by simp
    next
      case (Inr st)
      obtain pr ch where st: "st = (pr, ch)" by (cases st)
      obtain ks' where ks': "pr = map JStr ks'" "advances trail (cache_path D) ks p1 ks' p2" and ch: "ch \<longleftrightarrow> ks' \<noteq> ks"
      proof -
        have inj: "map JStr a = map JStr b \<longleftrightarrow> a = b" for a b by (rule inj_map_eq_map) (simp add: inj_on_def)
        show thesis using ents Inr st that by (auto simp: inj)
      qed
      obtain new answered where n: "ks' = ks @ new" "trail p2 = trail p1 @ answered" "set answered \<subseteq> set new"
          "distinct answered" "set new \<inter> set ks = {}" "list_all utf8 new"
        using ks'(2) unfolding advances_def by blast
      have d2: "at_path (pdisk p2) (cache_path D) = at_path (pdisk p) (cache_path D)" using ents q1 by simp
      show ?thesis
      proof (cases ch)
        case False
        then have "r = Inr () \<and> p' = p2" using rest pe Inr st by (simp add: io_bind_def io_ret_def)
        then show ?thesis using n q1 same [OF d2] ch False by (auto intro!: exI [of _ "[]"])
      next
        case True
        then obtain d where s: "save_cache E (AList.update ''processed'' (JList (map JStr ks')) (cache_json ks)) (cache_path D) (pdisk p2) = (r, d)"
            and p': "p' = p2\<lparr>pdisk := d\<rparr>"
          using rest pe Inr st ks'(1) by (auto simp: io_bind_def on_disk_def split: prod.split_asm)
        have u: "list_all utf8 ks'" using assms(3) n by (simp add: cache_holds_def)
        have "trail p' = trail p2" using assms(1) p' by (simp add: observes_def)
        then show ?thesis using save_cache_result [OF assms(2) u s] n q1 d2 p'
          by (intro conjI impI allI exI [of _ new] exI [of _ answered]) auto
      qed
    qed
  qed (rule early)
qed

text \<open>
  The daemon's life as far as no pass is cut short: passes that complete, registrations, and anything else the peer does
  that leaves the cache file and the callback alone.
\<close>

inductive steady_run :: "env \<Rightarrow> 's daemon \<Rightarrow> ('s peer \<Rightarrow> string list) \<Rightarrow> 's peer \<Rightarrow> 's peer \<Rightarrow> bool" for E D trail p0 where
  start: "steady_run E D trail p0 p0"
| pass: "steady_run E D trail p0 p \<Longrightarrow> poll_once E D now p = (Inr (), p') \<Longrightarrow> steady_run E D trail p0 p'"
| beat: "steady_run E D trail p0 p \<Longrightarrow> heartbeat E D now p = (r, p') \<Longrightarrow> steady_run E D trail p0 p'"
| other: "steady_run E D trail p0 p \<Longrightarrow> trail p' = trail p \<Longrightarrow>
    at_path (pdisk p') (cache_path D) = at_path (pdisk p) (cache_path D) \<Longrightarrow> steady_run E D trail p0 p'"

lemma heartbeat_quiet:
  assumes "observes trail D" and "heartbeat E D now p = (r, p')"
  shows "trail p' = trail p \<and> at_path (pdisk p') (cache_path D) = at_path (pdisk p) (cache_path D)"
proof -
  have "quiet trail (cache_path D) (register_reviewer_once E (inbox_end D) now sk pk i a c t)" for sk pk i a c t
    unfolding register_reviewer_once_def client_register_reviewer_def
    by (intro quiet_bind quiet_opt quiet_rpc [OF assms(1)]) (auto split: option.split intro: quiet_bind)
  then show ?thesis using assms(2) quietD unfolding heartbeat_def by blast
qed

lemma steady_run_once:
  assumes "steady_run E D trail p0 p" and "observes trail D" and "cache_path D \<noteq> []"
    and "cache_holds E (cache_path D) [] (pdisk p0)" and "trail p0 = []"
  shows "\<exists>ks. cache_holds E (cache_path D) ks (pdisk p) \<and> distinct (trail p) \<and> set (trail p) \<subseteq> set ks"
  using assms(1)
proof (induction rule: steady_run.induct)
  case start
  then show ?case using assms by auto
next
  case (pass p now p')
  then obtain ks where ks: "cache_holds E (cache_path D) ks (pdisk p)" "distinct (trail p)" "set (trail p) \<subseteq> set ks" by blast
  obtain new answered where "cache_holds E (cache_path D) (ks @ new) (pdisk p')" "trail p' = trail p @ answered"
      "set answered \<subseteq> set new" "distinct answered" "set new \<inter> set ks = {}"
    using poll_once_result [OF assms(2,3) ks(1) pass.hyps(2)] by auto
  then show ?case using ks by (intro exI [of _ "ks @ new"]) auto
next
  case (beat p now r p')
  then show ?case using heartbeat_quiet [OF assms(2)] by (auto simp: cache_holds_def)
next
  case (other p p')
  then show ?case by (auto simp: cache_holds_def)
qed

end
