(* ===== verification/ClientConfig.thy ===== *)
theory ClientConfig
  imports ReviewerDaemon
begin

text \<open>
  mdp2p_client/config.py, formatting.py and scoring.py: the saved configuration and its defaults, the list
  of local sites, the removal of one, and the score of a site from the reviews kept beside it.  The home
  directory, the working directory and the user's name are arguments.  A directory named by a
  configuration is a string; \<open>resolve_in cwd\<close> turns it into a path.
\<close>

section \<open>Formatting\<close>

definition strip_uri_scheme :: "string \<Rightarrow> string" where
  "strip_uri_scheme uri = (if prefix ''md://'' uri then drop 5 uri else uri)"

section \<open>The configuration\<close>

text \<open>A dataclass does not check the types of its fields: they are the values of the file.\<close>

record client_config =
  cfg_author :: json
  cfg_naming :: json
  cfg_bootstrap :: json
  cfg_keys_dir :: json
  cfg_data_dir :: json
  cfg_port :: json
  cfg_language :: json
  cfg_prompted :: json
  cfg_reviewer_mode :: json
  cfg_reviewer_dir :: json
  cfg_categories :: json

definition default_naming_multiaddr :: string where
  "default_naming_multiaddr =
     ''/ip4/51.254.137.250/tcp/1707/p2p/12D3KooWRSKoy3xrMFQGmcnkYH7mgwUhvH8jqeiKSNsrKov5B6jW''"

text \<open>\<open>str(home / ".mdp2p" / name)\<close>.\<close>

definition path_str :: "path \<Rightarrow> string" where
  "path_str p = ''/'' @ join ''/'' p"

definition default_config_file :: "path \<Rightarrow> path" where
  "default_config_file home = home @ [''.mdp2p'', ''config.json'']"

definition new_config :: "path \<Rightarrow> json \<Rightarrow> client_config" where
  "new_config home name =
     (let dir = \<lambda>d. JStr (path_str (home @ [''.mdp2p'', d])) in
      \<lparr>cfg_author = name, cfg_naming = JStr [], cfg_bootstrap = JList [], cfg_keys_dir = dir ''keys'',
       cfg_data_dir = dir ''sites'', cfg_port = JInt 0, cfg_language = JStr ''fr'', cfg_prompted = JBool False,
       cfg_reviewer_mode = JBool False, cfg_reviewer_dir = dir ''reviewer'', cfg_categories = JList []\<rparr>)"

text \<open>\<open>asdict\<close>.\<close>

definition config_dict :: "client_config \<Rightarrow> jdict" where
  "config_dict c =
     [(''author'', cfg_author c), (''naming_multiaddr'', cfg_naming c),
      (''bootstrap_multiaddrs'', cfg_bootstrap c), (''keys_dir'', cfg_keys_dir c), (''data_dir'', cfg_data_dir c),
      (''port'', cfg_port c), (''language'', cfg_language c), (''auto_seed_prompted'', cfg_prompted c),
      (''reviewer_mode'', cfg_reviewer_mode c), (''reviewer_dir'', cfg_reviewer_dir c),
      (''reviewer_categories'', cfg_categories c)]"

definition config_save :: "env \<Rightarrow> client_config \<Rightarrow> path \<Rightarrow> unit io" where
  "config_save E c p =
     io_bind (mkdir_p (butlast p)) (\<lambda>_. write_bytes p (dumps_indent E (JDict (config_dict c))))"

text \<open>\<open>cls(**valid)\<close>: the author has no default.\<close>

definition config_of_dict :: "path \<Rightarrow> jdict \<Rightarrow> client_config res" where
  "config_of_dict home d =
     (case map_of d ''author'' of
        None \<Rightarrow> Inl TypeError
      | Some a \<Rightarrow>
          (let c = new_config home a in
           Inr \<lparr>cfg_author = a, cfg_naming = get_or d ''naming_multiaddr'' (cfg_naming c),
             cfg_bootstrap = get_or d ''bootstrap_multiaddrs'' (cfg_bootstrap c),
             cfg_keys_dir = get_or d ''keys_dir'' (cfg_keys_dir c), cfg_data_dir = get_or d ''data_dir'' (cfg_data_dir c),
             cfg_port = get_or d ''port'' (cfg_port c), cfg_language = get_or d ''language'' (cfg_language c),
             cfg_prompted = get_or d ''auto_seed_prompted'' (cfg_prompted c),
             cfg_reviewer_mode = get_or d ''reviewer_mode'' (cfg_reviewer_mode c),
             cfg_reviewer_dir = get_or d ''reviewer_dir'' (cfg_reviewer_dir c),
             cfg_categories = get_or d ''reviewer_categories'' (cfg_categories c)\<rparr>))"

definition config_load :: "env \<Rightarrow> path \<Rightarrow> path \<Rightarrow> client_config option io" where
  "config_load E home p fs =
     (if \<not> fexists fs p then (Inr None, fs)
      else io_bind (read_text p) (\<lambda>s.
        io_bind (io_lift (bindE (loads E s) (\<lambda>data. bindE (py_items data) (config_of_dict home)))) (\<lambda>c.
        io_ret (Some c))) fs)"

text \<open>A directory setting as a path; \<open>Path(x)\<close> raises \<open>TypeError\<close> unless it is a string.\<close>

definition dir_of :: "path \<Rightarrow> json \<Rightarrow> path res" where
  "dir_of cwd v = bindE (text_of v) (\<lambda>s. Inr (resolve_in cwd s))"

definition ensure_config :: "path \<Rightarrow> path \<Rightarrow> client_config option \<Rightarrow> client_config io" where
  "ensure_config home cwd given =
     (let c = (case given of None \<Rightarrow> new_config home (JStr ''anonymous'') | Some c \<Rightarrow> c) in
      io_bind (io_lift (dir_of cwd (cfg_keys_dir c))) (\<lambda>k. io_bind (mkdir_p k) (\<lambda>_.
      io_bind (io_lift (dir_of cwd (cfg_data_dir c))) (\<lambda>d. io_bind (mkdir_p d) (\<lambda>_. io_ret c)))))"

definition best_effort :: "('s, unit) op \<Rightarrow> ('s, unit) op" where
  "best_effort m = io_try m (\<lambda>e. io_ret ())"

definition load_or_create_config :: "env \<Rightarrow> path \<Rightarrow> path \<Rightarrow> string \<Rightarrow> path \<Rightarrow> client_config io" where
  "load_or_create_config E home cwd user p =
     io_bind (io_try (config_load E home p) (\<lambda>e. io_ret None)) (\<lambda>found.
     case found of
       Some c \<Rightarrow>
         if truthy (cfg_naming c) then io_ret c
         else (let c' = c\<lparr>cfg_naming := JStr default_naming_multiaddr\<rparr>
               in io_bind (best_effort (config_save E c' p)) (\<lambda>_. io_ret c'))
     | None \<Rightarrow>
         (let c = (new_config home (JStr user))\<lparr>cfg_naming := JStr default_naming_multiaddr\<rparr> in
          io_bind (ensure_config home cwd (Some c)) (\<lambda>c'.
          io_bind (best_effort (config_save E c' p)) (\<lambda>_. io_ret c'))))"

section \<open>Local sites\<close>

record seeded_site =
  seed_uri :: json
  seed_author :: json
  seed_dir :: path
  seed_timestamp :: json
  seed_file_count :: json
  seed_total_size :: json
  seed_public_key :: json

definition read_manifest :: "env \<Rightarrow> path \<Rightarrow> json io" where
  "read_manifest E site = io_bind (read_text (site @ [''manifest.json''])) (\<lambda>s. io_lift (loads E s))"

definition seeded_site_of :: "path \<Rightarrow> json \<Rightarrow> seeded_site res" where
  "seeded_site_of site m =
     (case m of
        JDict d \<Rightarrow> Inr
          \<lparr>seed_uri = get_or d ''uri'' (JStr (last site)), seed_author = get_or d ''author'' (JStr ''unknown''),
           seed_dir = site, seed_timestamp = get_or d ''timestamp'' (JInt 0),
           seed_file_count = get_or d ''file_count'' (JInt 0), seed_total_size = get_or d ''total_size'' (JInt 0),
           seed_public_key = get_or d ''public_key'' (JStr [])\<rparr>
      | _ \<Rightarrow> Inl AttributeError)"

text \<open>Only a JSON error (or a \<open>KeyError\<close>, which nothing here raises) skips a directory.\<close>

definition seeded_in :: "env \<Rightarrow> path \<Rightarrow> seeded_site list io" where
  "seeded_in E site fs =
     (if \<not> is_directory fs site \<or> \<not> fexists fs (site @ [''manifest.json'']) \<or> \<not> fexists fs (site @ [''manifest.sig''])
      then (Inr [], fs)
      else io_try
        (io_bind (read_manifest E site) (\<lambda>m. io_bind (io_lift (seeded_site_of site m)) (\<lambda>s. io_ret [s])))
        (\<lambda>e. if e = JSONDecodeError then io_ret [] else io_raise e) fs)"

text \<open>
  The order of \<open>sorted(sites, key=lambda s: s.uri)\<close> is modelled when every URI is a string; otherwise the
  result is \<open>None\<close>, outside the model.
\<close>

definition get_seeded_sites :: "env \<Rightarrow> path \<Rightarrow> seeded_site list option io" where
  "get_seeded_sites E data_path fs =
     (if \<not> fexists fs data_path then (Inr (Some []), fs)
      else if \<not> is_directory fs data_path then (Inl (OSError ''not a directory''), fs)
      else io_bind (io_map (seeded_in E) (dir_children fs data_path)) (\<lambda>ss.
        let sites = concat ss in
        io_ret (if list_all (\<lambda>s. is_str (seed_uri s)) sites
                then Some (sort_key (\<lambda>s. case seed_uri s of JStr u \<Rightarrow> u | _ \<Rightarrow> []) sites) else None)) fs)"

fun remove_first :: "env \<Rightarrow> string \<Rightarrow> path list \<Rightarrow> bool io" where
  "remove_first E uri [] = io_ret False"
| "remove_first E uri (site # sites) = (\<lambda>fs.
     if \<not> is_directory fs site \<or> \<not> fexists fs (site @ [''manifest.json'']) then remove_first E uri sites fs
     else io_bind
       (io_try
          (io_bind (read_manifest E site) (\<lambda>m. io_bind (io_lift (py_get m ''uri'' JNull)) (\<lambda>u.
           if u = JStr uri then io_bind (rmtree site) (\<lambda>_. io_ret True) else io_ret False)))
          (\<lambda>e. if e = JSONDecodeError then io_ret False else io_raise e))
       (\<lambda>removed. if removed then io_ret True else remove_first E uri sites) fs)"

definition remove_seeded_site :: "env \<Rightarrow> string \<Rightarrow> path \<Rightarrow> bool io" where
  "remove_seeded_site E uri data_path fs =
     (if \<not> is_directory fs data_path then (Inl (OSError ''no such directory''), fs)
      else remove_first E uri (dir_children fs data_path) fs)"

section \<open>Scores from the cache\<close>

definition recompute_content_key :: "env \<Rightarrow> path \<Rightarrow> string option io" where
  "recompute_content_key E site =
     io_bind (io_try (io_bind (load_bundle E site) (\<lambda>(m, sg). io_ret (Some m))) (\<lambda>e. io_ret None)) (\<lambda>found.
     case found of
       None \<Rightarrow> io_ret None
     | Some m \<Rightarrow>
         io_bind (io_lift (py_get m ''uri'' (JStr []))) (\<lambda>uri.
         io_bind (io_lift (py_get m ''public_key'' (JStr []))) (\<lambda>pk.
         io_ret (if truthy uri \<and> truthy pk then Some (compute_content_key E uri pk) else None))))"

text \<open>A content key that is not a string is outside the model: the result is \<open>None\<close>.\<close>

definition load_signals :: "env \<Rightarrow> path \<Rightarrow> signal list option io" where
  "load_signals E site fs =
     (if \<not> fexists fs (site @ [''attachments.json'']) then (Inr (Some []), fs)
      else io_bind
        (io_try (io_bind (read_text (site @ [''attachments.json''])) (\<lambda>s. io_bind (io_lift (loads E s)) (\<lambda>v. io_ret (Some v))))
           (\<lambda>e. io_ret None))
        (\<lambda>parsed. case parsed of
           None \<Rightarrow> io_ret (Some [])
         | Some raw \<Rightarrow>
             io_bind (io_lift (py_get raw ''content_key'' JNull)) (\<lambda>key.
             io_bind (if truthy key then io_ret (Some key)
                      else io_bind (recompute_content_key E site) (\<lambda>k. io_ret (map_option JStr k))) (\<lambda>expected.
             case expected of
               None \<Rightarrow> io_ret (Some [])
             | Some (JStr ck) \<Rightarrow>
                 io_bind (io_lift (bindE (py_get raw ''records'' JNull) (\<lambda>rs. py_iter (json_or rs (JList []))))) (\<lambda>entries.
                 io_bind (io_lift (attachments_to_signals E entries ck)) (\<lambda>signals. io_ret (Some signals)))
             | _ \<Rightarrow> io_ret None))) fs)"

definition score_from_cache ::
  "env \<Rightarrow> int \<Rightarrow> path \<Rightarrow> path option \<Rightarrow> path option \<Rightarrow> score_result option io" where
  "score_from_cache E now site policy_path trust_path =
     io_bind (load_signals E site) (\<lambda>signals.
     io_bind (case policy_path of
                Some p \<Rightarrow> io_bind (load_policy E p) (\<lambda>pol. io_ret (finite_policy pol))
              | None \<Rightarrow> io_ret (Some default_policy)) (\<lambda>pol.
     io_bind (case trust_path of Some p \<Rightarrow> load_store E p | None \<Rightarrow> io_ret (JDict [(''peers'', JDict [])])) (\<lambda>store.
     case (signals, pol) of
       (Some ss, Some rp) \<Rightarrow> io_lift (bindE (score_content E ss store rp now) (\<lambda>r. Inr (Some r)))
     | _ \<Rightarrow> io_ret None)))"

section \<open>What is saved is found again\<close>

definition config_wf :: "client_config \<Rightarrow> bool" where
  "config_wf c \<longleftrightarrow> jwf (JDict (config_dict c)) \<and> no_float (JDict (config_dict c))"

lemma config_of_own_dict [simp]: "config_of_dict home (config_dict c) = Inr c"
  by (simp add: config_of_dict_def config_dict_def get_or_def Let_def)

lemma saved_config_loads:
  assumes "config_wf c" and "config_save E c p fs = (Inr u, fs')"
  shows "config_load E home p fs' = (Inr (Some c), fs')"
proof -
  have a: "at_path fs' p = Some (File (dumps_indent E (JDict (config_dict c))))"
    using assms(2) unfolding config_save_def
    by (auto elim!: io_bind_InrE write_bytes_cases simp: at_put)
  have wf: "jwf (JDict (config_dict c))" "no_float (JDict (config_dict c))" using assms(1) by (auto simp: config_wf_def)
  have it: "py_items (JDict (config_dict c)) = Inr (config_dict c)" by (simp add: py_items_Inr_iff)
  show ?thesis
    using read_dumped_indent [OF wf a] it a
    by (simp add: config_load_def fexists_def io_bind_def io_lift_def io_ret_def)
qed

text \<open>
  The start of the client: a readable configuration is used as it is, apart from a missing naming address;
  otherwise defaults are used.  A naming address is always there.
\<close>

lemma load_or_create_result:
  assumes "load_or_create_config E home cwd user p fs = (Inr c, fs')"
  shows "truthy (cfg_naming c) \<and>
    (case fst (config_load E home p fs) of
       Inr (Some c0) \<Rightarrow> c = (if truthy (cfg_naming c0) then c0 else c0\<lparr>cfg_naming := JStr default_naming_multiaddr\<rparr>)
     | _ \<Rightarrow> c = (new_config home (JStr user))\<lparr>cfg_naming := JStr default_naming_multiaddr\<rparr>)"
proof -
  have d: "default_naming_multiaddr \<noteq> []" by (simp add: default_naming_multiaddr_def)
  have ens: "ensure_config home cwd (Some c1) fs1 = (Inr c2, fs2) \<Longrightarrow> c2 = c1" for c1 c2 fs1 fs2
    unfolding ensure_config_def Let_def by (auto elim!: io_bind_InrE)
  have be: "best_effort m s = (Inr u, s') \<Longrightarrow> True" for m :: "unit io" and s s' u by simp
  obtain r fs1 where l: "config_load E home p fs = (r, fs1)" by fastforce
  then show ?thesis
    using assms d unfolding load_or_create_config_def Let_def
    by (cases r) (auto elim!: io_bind_InrE dest!: ens simp: io_try_def split: option.split_asm if_split_asm option.split sum.split_asm)
qed

lemma restarted_config:
  assumes "config_wf c" and "config_save E c p fs = (Inr u, fs')"
  shows "\<exists>fs''. load_or_create_config E home cwd user p fs' =
      (Inr (if truthy (cfg_naming c) then c else c\<lparr>cfg_naming := JStr default_naming_multiaddr\<rparr>), fs'') \<and>
    (truthy (cfg_naming c) \<longrightarrow> fs'' = fs')"
proof -
  let ?c = "c\<lparr>cfg_naming := JStr default_naming_multiaddr\<rparr>"
  have "\<exists>fs''. best_effort (config_save E ?c p) fs' = (Inr (), fs'')"
    by (cases "config_save E ?c p fs'" rule: prod.exhaust; cases "fst (config_save E ?c p fs')")
      (auto simp: best_effort_def io_try_def io_ret_def)
  then show ?thesis
    using saved_config_loads [OF assms, of home]
    by (auto simp: load_or_create_config_def io_bind_def io_try_def io_ret_def Let_def)
qed

end
