(* ===== verification/ClientFlows.thy ===== *)
theory ClientFlows
  imports ClientConfig
begin

text \<open>
  The client's flows over a short-lived or a serving peer: peer/lifecycle.py (\<open>run_peer\<close>),
  mdp2p_client/publish_flow.py, fetch_flow.py, review_flow.py and serve_flow.py.  A configuration whose
  settings have the types the dataclass declares is read into \<open>settings\<close>; the machine holds what the
  libraries supply: the far end an address names, the identity derived from a seed, fresh random bytes.
\<close>

record settings =
  s_author :: string
  s_naming :: string
  s_keys :: path
  s_sites :: path
  s_reviewer_dir :: path
  s_reviewer_mode :: bool
  s_categories :: "string list"

definition strings_of :: "json \<Rightarrow> string list option" where
  "strings_of v =
     (case v of JList xs \<Rightarrow> if list_all is_str xs then Some (map (\<lambda>x. case x of JStr s \<Rightarrow> s | _ \<Rightarrow> []) xs) else None
      | _ \<Rightarrow> None)"

definition settings_of :: "path \<Rightarrow> client_config \<Rightarrow> settings option" where
  "settings_of cwd c =
     (case (cfg_author c, cfg_naming c, cfg_keys_dir c, cfg_data_dir c, cfg_reviewer_dir c, cfg_reviewer_mode c,
            strings_of (cfg_categories c)) of
        (JStr a, JStr n, JStr k, JStr d, JStr r, JBool b, Some cats) \<Rightarrow>
          Some \<lparr>s_author = a, s_naming = n, s_keys = resolve_in cwd k, s_sites = resolve_in cwd d,
                s_reviewer_dir = resolve_in cwd r, s_reviewer_mode = b, s_categories = cats\<rparr>
      | _ \<Rightarrow> None)"

record 's machine =
  connect :: "string \<Rightarrow> 's far res"
  network :: "'s pconf"
  host_id :: "string \<Rightarrow> string"
  fresh_key :: string
  fresh_seed :: string
  write_sizes :: "nat list"
  pins_default :: path

section \<open>A running peer\<close>

text \<open>
  \<open>run_peer\<close> around a body: the identity is read or created, the sites of the data directory are found
  again, and the body runs with the configured peer.
\<close>

definition run_peer ::
  "env \<Rightarrow> 's machine \<Rightarrow> 's pconf \<Rightarrow> path option \<Rightarrow> string \<Rightarrow> ('s pconf \<Rightarrow> ('s peer, 'a) op) \<Rightarrow> ('s peer, 'a) op" where
  "run_peer E K C peer_key_path relay_mode body =
     (if relay_mode \<notin> {''none'', ''client'', ''hop''} then io_raise (ValueError ''relay_mode must be none, client or hop'')
      else io_bind (on_disk (mkdir_p (data_dir C))) (\<lambda>_.
        let key_path = (case peer_key_path of Some p \<Rightarrow> p | None \<Rightarrow> data_dir C @ [''peer.key'']) in
        io_bind (on_disk (load_or_create_peer_seed (fresh_seed K) (write_sizes K) key_path)) (\<lambda>seed.
        let C' = C\<lparr>own_id := host_id K seed\<rparr> in
        io_bind (start_peer E C') (\<lambda>_. body C'))))"

section \<open>Publishing\<close>

definition require_naming :: "settings \<Rightarrow> string res" where
  "require_naming S = (if s_naming S = [] then Inl (RuntimeError ''No naming server configured'') else Inr (s_naming S))"

text \<open>\<open>shutil.copy2\<close>: into the destination when that is a directory.\<close>

definition copy_page :: "path \<Rightarrow> path \<Rightarrow> path \<Rightarrow> unit io" where
  "copy_page source target md =
     (let dest = target @ drop (length source) md in
      io_bind (mkdir_p (butlast dest)) (\<lambda>_.
      io_bind (read_bytes md) (\<lambda>c fs. write_bytes (if is_directory fs dest then dest @ [last md] else dest) c fs)))"

definition copy_pages :: "path \<Rightarrow> path \<Rightarrow> unit io" where
  "copy_pages source target fs = io_each (copy_page source target) (md_under fs source) fs"

definition do_publish ::
  "env \<Rightarrow> 's machine \<Rightarrow> settings \<Rightarrow> int \<Rightarrow> string \<Rightarrow> path \<Rightarrow> string list \<Rightarrow> ('s peer, unit) op" where
  "do_publish E K S now uri0 source cats =
     (let uri = strip_uri_scheme uri0; key_name = make_key_name (s_author S) uri;
          priv = resolve_in (s_keys S) (key_name @ ''.key''); target = resolve_in (s_sites S) key_name in
      io_bind (on_disk (mkdir_p (s_keys S))) (\<lambda>_.
      io_bind (on_disk (\<lambda>fs. if fexists fs priv then (Inr (), fs)
                 else io_bind (generate_keypair E (codec (network K)) (fresh_key K) (write_sizes K) (s_keys S) key_name None)
                        (\<lambda>_. io_ret ()) fs)) (\<lambda>_.
      io_bind (on_disk (mkdir_p target)) (\<lambda>_.
      io_bind (on_disk (copy_pages source target)) (\<lambda>_.
      io_bind (io_lift (bindE (require_naming S) (connect K))) (\<lambda>far.
      run_peer E K ((network K)\<lparr>naming_end := Some far, data_dir := target, pins_path := pins_default K\<rparr>) None ''none''
        (\<lambda>C. io_bind (publish E C now uri (s_author S) target priv cats default_review_count default_review_deadline_days None)
          (\<lambda>_. io_ret ()))))))))"

definition list_registered_sites :: "env \<Rightarrow> 's machine \<Rightarrow> settings \<Rightarrow> ('s peer, json) op" where
  "list_registered_sites E K S =
     io_bind (io_lift (bindE (require_naming S) (connect K))) (\<lambda>far.
     io_bind (on_naming (client_list E far)) (\<lambda>response.
     io_bind (get_field response ''type'' JNull) (\<lambda>t.
     if t \<noteq> JStr ''names'' then io_raise (RuntimeError ''unknown naming error'')
     else get_field response ''records'' (JList []))))"

section \<open>Fetching\<close>

definition do_fetch ::
  "env \<Rightarrow> 's machine \<Rightarrow> settings \<Rightarrow> int \<Rightarrow> (string list \<Rightarrow> string list) \<Rightarrow> string \<Rightarrow> string option \<Rightarrow> bool \<Rightarrow> ('s peer, bool) op" where
  "do_fetch E K S now order uri naming announce_after =
     io_bind (io_lift (bindE (case naming of Some m \<Rightarrow> if m = [] then require_naming S else Inr m | None \<Rightarrow> require_naming S)
       (connect K))) (\<lambda>far.
     run_peer E K ((network K)\<lparr>naming_end := Some far, data_dir := s_sites S, pins_path := pins_default K\<rparr>) None ''none''
       (\<lambda>C. fetch_site E C now order (strip_uri_scheme uri) [] announce_after))"

section \<open>Reviewing\<close>

definition reviewer_identity :: "env \<Rightarrow> 's machine \<Rightarrow> settings \<Rightarrow> ('s peer, string \<times> string) op" where
  "reviewer_identity E K S =
     on_disk (ensure_reviewer_identity E (codec (network K)) (fresh_key K) (write_sizes K) (s_reviewer_dir S) ''reviewer'')"

definition pending_of :: "env \<Rightarrow> int \<Rightarrow> json \<Rightarrow> json list res" where
  "pending_of E now entry =
     bindE (py_get entry ''record'' JNull) (\<lambda>r0. let assignment = json_or r0 (JDict []) in
     bindE (py_get entry ''signature'' (JStr [])) (\<lambda>signature.
     bindE (verify_review_assignment E 0 None assignment signature) (\<lambda>(ok, err).
     if \<not> ok then Inr []
     else bindE (bindE (py_get assignment ''deadline'' (JInt 0)) py_int) (\<lambda>deadline.
       Inr (if deadline < now then [] else [JDict [(''record'', assignment), (''signature'', signature)]])))))"

definition do_list_inbox :: "env \<Rightarrow> 's machine \<Rightarrow> settings \<Rightarrow> int \<Rightarrow> ('s peer, json list) op" where
  "do_list_inbox E K S now =
     io_bind (io_lift (require_naming S)) (\<lambda>maddr.
     io_bind (reviewer_identity E K S) (\<lambda>(sk, pub).
     io_bind (io_lift (connect K maddr)) (\<lambda>far.
     io_bind (on_naming (client_list_assignments E far pub)) (\<lambda>response.
     io_bind (get_field response ''type'' JNull) (\<lambda>t.
     if t \<noteq> JStr ''assignments'' then io_raise (RuntimeError ''unknown inbox error'')
     else io_lift (bindE (py_get response ''records'' JNull) (\<lambda>rs. bindE (py_iter (json_or rs (JList []))) (\<lambda>es.
       bindE (mapE (pending_of E now) es) (\<lambda>ps. Inr (concat ps))))))))))"

definition do_attach_review ::
  "env \<Rightarrow> 's machine \<Rightarrow> settings \<Rightarrow> int \<Rightarrow> string \<Rightarrow> string \<Rightarrow> string \<Rightarrow> ('s peer, unit) op" where
  "do_attach_review E K S now content_key verdict comment =
     (if verdict \<notin> set valid_verdicts then io_raise (ValueError ''verdict must be one of VALID_VERDICTS'')
      else io_bind (io_lift (require_naming S)) (\<lambda>maddr.
        io_bind (reviewer_identity E K S) (\<lambda>(sk, pub).
        io_bind (io_lift (connect K maddr)) (\<lambda>far.
        io_bind (io_lift (build_review_record now content_key pub verdict comment None)) (\<lambda>review.
        io_bind (io_lift (sign_review_record E (JDict review) sk)) (\<lambda>signature.
        io_bind (on_naming (client_attach_review E far (JDict review) (JStr signature))) (\<lambda>response.
        io_bind (get_field response ''type'' JNull) (\<lambda>t.
        if t \<noteq> JStr ''ok'' then io_raise (RuntimeError ''unknown attach_review error'') else io_ret ()))))))))"

section \<open>Serving\<close>

definition announce_all :: "env \<Rightarrow> 's pconf \<Rightarrow> string list \<Rightarrow> ('s peer, unit) op" where
  "announce_all E C uris = io_each (\<lambda>uri. io_bind (io_opt (announce E C uri)) (\<lambda>_. io_ret ())) uris"

definition content_fetcher_for :: "env \<Rightarrow> 's pconf \<Rightarrow> int \<Rightarrow> (string list \<Rightarrow> string list) \<Rightarrow> 's content_fetcher" where
  "content_fetcher_for E C now order assignment =
     io_bind (get_field assignment ''uri'' (JStr [])) (\<lambda>uri.
     if \<not> truthy uri then io_ret JNull
     else case uri of
       JStr u \<Rightarrow>
         io_bind (fetch_site E C now order u [] False) (\<lambda>ok.
         if \<not> ok then io_ret JNull
         else (\<lambda>p. case map_of (psites p) u of
             None \<Rightarrow> (Inr JNull, p)
           | Some site \<Rightarrow>
               io_bind (io_opt (on_disk (load_bundle E site))) (\<lambda>found.
               io_ret (case found of None \<Rightarrow> JNull | Some (manifest, sg) \<Rightarrow> manifest)) p))
     | _ \<Rightarrow> io_raise (ValueError ''URI must be a non-empty string''))"

text \<open>What \<open>do_serve\<close> starts: all sites are announced, and the daemon of a reviewer never decides by itself.\<close>

definition reviewer_daemon ::
  "env \<Rightarrow> settings \<Rightarrow> 's far \<Rightarrow> 's pconf \<Rightarrow> int \<Rightarrow> (string list \<Rightarrow> string list) \<Rightarrow> string list \<Rightarrow> string \<times> string \<Rightarrow> 's daemon" where
  "reviewer_daemon E S far C now order host_addrs identity =
     \<lparr>inbox_end = far, reviewer_key = fst identity, reviewer_pub = snd identity, reviewer_peer_id = own_id C,
      get_addrs = (\<lambda>_. peer_addrs C host_addrs), fetch_content = content_fetcher_for E C now order,
      ask_reviewer = auto_decline, cache_path = s_reviewer_dir S @ [''cache.json''], offered_categories = s_categories S\<rparr>"

definition do_serve ::
  "env \<Rightarrow> 's machine \<Rightarrow> settings \<Rightarrow> int \<Rightarrow> (string list \<Rightarrow> string list) \<Rightarrow> string list \<Rightarrow> ('s peer, 's daemon option) op" where
  "do_serve E K S now order host_addrs =
     io_bind (io_lift (bindE (require_naming S) (connect K))) (\<lambda>far.
     run_peer E K ((network K)\<lparr>naming_end := Some far, data_dir := s_sites S, pins_path := pins_default K\<rparr>) None ''client''
       (\<lambda>C. io_bind (\<lambda>p. announce_all E C (sort (map fst (psites p))) p) (\<lambda>_.
         if s_reviewer_mode S
         then io_bind (reviewer_identity E K S) (\<lambda>identity.
           io_ret (Some (reviewer_daemon E S far C now order host_addrs identity)))
         else io_ret None)))"

section \<open>Copying the pages\<close>

text \<open>Copying only adds: what was in the target and is not written over stays, also a page the source no longer has.\<close>

definition page_target :: "path \<Rightarrow> path \<Rightarrow> path \<Rightarrow> path" where
  "page_target source target md = target @ drop (length source) md"

lemma copy_page_effect:
  assumes "copy_page source target md fs = (Inr u, fs')" and "\<not> is_directory fs' (page_target source target md)"
  shows "(\<exists>c. at_path fs md = Some (File c) \<and> at_path fs' (page_target source target md) = Some (File c)) \<and>
    (\<forall>x c. x \<noteq> page_target source target md \<longrightarrow> (at_path fs' x = Some (File c) \<longleftrightarrow> at_path fs x = Some (File c)))"
proof -
  let ?dest = "page_target source target md"
  obtain fs1 c where m: "mkdir_p (butlast ?dest) fs = (Inr (), fs1)" and r: "at_path fs1 md = Some (File c)"
      and w: "write_bytes (if is_directory fs1 ?dest then ?dest @ [last md] else ?dest) c fs1 = (Inr (), fs')"
    using assms(1) unfolding copy_page_def Let_def page_target_def
    by (auto elim!: io_bind_InrE simp: read_bytes_Inr)
  have add: "at_path fs1 x = at_path fs x \<or> at_path fs x = None \<and> at_path fs1 x = Some Dir" for x
    using mkdir_p_added [OF m] by (auto simp: dirs_added_def)
  have nd: "\<not> is_directory fs1 ?dest"
  proof
    assume d: "is_directory fs1 ?dest"
    then have "at_path fs' ?dest = at_path fs1 ?dest"
      using w same_exceptD [OF write_bytes_frame [OF w], of ?dest] by simp
    then show False using assms(2) d by (simp add: is_directory_def)
  qed
  then have w': "write_bytes ?dest c fs1 = (Inr (), fs')" using w by simp
  then have "at_path fs' ?dest = Some (File c)" by (elim write_bytes_cases) (auto simp: at_put)
  moreover have "at_path fs' x = at_path fs1 x" if "x \<noteq> ?dest" for x
    using same_exceptD [OF write_bytes_frame [OF w'], of x] that by simp
  ultimately show ?thesis using r add by (metis node.distinct(1) option.distinct(1) option.inject)
qed

lemma copy_page_dirs:
  assumes "copy_page source target md fs = (Inr u, fs')" and "is_directory fs x"
  shows "is_directory fs' x"
proof -
  obtain fs1 c q where m: "mkdir_p (butlast (page_target source target md)) fs = (Inr (), fs1)"
      and w: "write_bytes q c fs1 = (Inr (), fs')"
    using assms(1) unfolding copy_page_def Let_def page_target_def by (auto elim!: io_bind_InrE)
  have 1: "is_directory fs1 x"
    using mkdir_p_added [OF m] assms(2) unfolding dirs_added_def is_directory_def by (metis option.distinct(1))
  then have "x \<noteq> q" using w by (elim write_bytes_cases) auto
  then show ?thesis using 1 same_exceptD [OF write_bytes_frame [OF w], of x] by (simp add: is_directory_def)
qed

lemma copy_each_dirs:
  "io_each (copy_page source target) mds fs = (Inr u, fs') \<Longrightarrow> is_directory fs x \<Longrightarrow> is_directory fs' x"
  by (induction mds arbitrary: fs) (auto elim!: io_bind_InrE dest: copy_page_dirs)

lemma page_target_source: "apart source target \<Longrightarrow> prefix source md \<Longrightarrow> md \<noteq> page_target source target md'"
  unfolding page_target_def apart_def by (metis prefixI prefix_same_cases)

lemma page_target_inj:
  "prefix source md \<Longrightarrow> prefix source md' \<Longrightarrow> page_target source target md = page_target source target md' \<longleftrightarrow> md = md'"
  by (auto simp: page_target_def prefix_def)

lemma copy_each_effect:
  assumes "io_each (copy_page source target) mds fs = (Inr u, fs')" and "apart source target"
    and "\<forall>md \<in> set mds. prefix source md \<and> \<not> is_directory fs' (page_target source target md)"
  shows "(\<forall>md \<in> set mds. \<exists>c. at_path fs md = Some (File c) \<and> at_path fs' (page_target source target md) = Some (File c)) \<and>
    (\<forall>x c. x \<notin> page_target source target ` set mds \<longrightarrow> (at_path fs' x = Some (File c) \<longleftrightarrow> at_path fs x = Some (File c)))"
  using assms(1,3)
proof (induction mds arbitrary: fs)
  case (Cons md mds)
  let ?T = "page_target source target"
  obtain u1 fs1 where one: "copy_page source target md fs = (Inr u1, fs1)"
      and rest: "io_each (copy_page source target) mds fs1 = (Inr u, fs')"
    using Cons.prems(1) by (auto elim!: io_bind_InrE)
  have "\<not> is_directory fs1 (?T md)" using copy_each_dirs [OF rest] Cons.prems(2) by auto
  note eff = copy_page_effect [OF one this]
  note ih = Cons.IH [OF rest]
  have src: "x \<noteq> ?T md'" if "prefix source x" for x md' using page_target_source [OF assms(2) that] .
  have "\<exists>c. at_path fs m = Some (File c) \<and> at_path fs' (?T m) = Some (File c)" if m: "m \<in> set (md # mds)" for m
  proof (cases "m \<in> set mds")
    case True
    then obtain c where "at_path fs1 m = Some (File c)" "at_path fs' (?T m) = Some (File c)"
      using ih Cons.prems(2) by auto
    then show ?thesis using eff src [of m md] Cons.prems(2) True by auto
  next
    case False
    then have md: "m = md" using m by simp
    have "?T md \<notin> ?T ` set mds" using False md Cons.prems(2) page_target_inj [of source md] by auto
    then show ?thesis using eff ih Cons.prems(2) md by auto
  qed
  moreover have "at_path fs' x = Some (File c) \<longleftrightarrow> at_path fs x = Some (File c)" if "x \<notin> ?T ` set (md # mds)" for x c
    using that eff ih Cons.prems(2) by auto
  ultimately show ?case by blast
qed simp

lemma md_under_iff:
  "r \<noteq> [] \<Longrightarrow> at_path fs (source @ r) = Some n \<Longrightarrow> is_md (last r) \<Longrightarrow> source @ r \<in> set (md_under fs source)"
  by (auto simp: md_under_def at_path_def strict_prefix_def dest!: map_of_SomeD intro!: image_eqI [of _ fst])

lemma copied_pages:
  assumes "copy_pages source target fs = (Inr u, fs')" and "apart source target"
    and "\<forall>md \<in> set (md_under fs source). \<not> is_directory fs' (page_target source target md)"
    and "r \<noteq> []" "at_path fs (source @ r) = Some (File c)" "is_md (last r)"
  shows "at_path fs' (target @ r) = Some (File c)"
proof -
  have p: "\<forall>md \<in> set (md_under fs source). prefix source md" by (auto simp: md_under_def strict_prefix_def)
  have "source @ r \<in> set (md_under fs source)" using md_under_iff assms(4-6) by blast
  then show ?thesis
    using copy_each_effect [OF assms(1) [unfolded copy_pages_def] assms(2)] p assms(3,5) by (fastforce simp: page_target_def)
qed

lemma stale_pages:
  assumes "copy_pages source target fs = (Inr u, fs')" and "apart source target"
    and "\<forall>md \<in> set (md_under fs source). \<not> is_directory fs' (page_target source target md)"
    and "at_path fs (source @ r) = None" "at_path fs (target @ r) = Some (File c)"
  shows "at_path fs' (target @ r) = Some (File c)"
proof -
  have p: "\<forall>md \<in> set (md_under fs source). prefix source md" by (auto simp: md_under_def strict_prefix_def)
  note eff = copy_each_effect [OF assms(1) [unfolded copy_pages_def] assms(2)]
  have "target @ r \<notin> page_target source target ` set (md_under fs source)"
  proof
    assume "target @ r \<in> page_target source target ` set (md_under fs source)"
    then obtain md where md: "md \<in> set (md_under fs source)" "r = drop (length source) md"
      by (auto simp: page_target_def)
    then have "md = source @ r" using p by (auto simp: prefix_def)
    then show False using eff p md(1) assms(3,4) by fastforce
  qed
  then show ?thesis using eff p assms(3,5) by blast
qed

section \<open>The inbox and the fetched content\<close>

text \<open>What the inbox shows is signed by its publisher, well-formed and still open.\<close>

definition open_assignment :: "env \<Rightarrow> int \<Rightarrow> json \<Rightarrow> bool" where
  "open_assignment E now p \<longleftrightarrow>
     (\<exists>a sg dl. p = JDict [(''record'', JDict a), (''signature'', sg)] \<and> assignment_wf E a \<and>
        sig_valid E ''publisher_public_key'' (JDict a) sg \<and>
        bindE (py_get (JDict a) ''deadline'' (JInt 0)) py_int = Inr dl \<and> now \<le> dl)"

lemma pending_of_open:
  assumes "pending_of E now entry = Inr ps" and "p \<in> set ps"
  shows "open_assignment E now p"
proof -
  obtain r0 sg m dl where v: "verify_review_assignment E 0 None (json_or r0 (JDict [])) sg = Inr (True, m)"
      and dl: "bindE (py_get (json_or r0 (JDict [])) ''deadline'' (JInt 0)) py_int = Inr dl" "\<not> dl < now"
      and p: "p = JDict [(''record'', json_or r0 (JDict [])), (''signature'', sg)]"
    using assms unfolding pending_of_def Let_def
    by (elim bindE_InrE) (auto split: if_split_asm prod.split_asm simp: bindE_Inr_iff)
  obtain a where a: "json_or r0 (JDict []) = JDict a" "assignment_wf E a" using assignment.accepted_wf [OF v] by blast
  then show ?thesis
    using assignment.accepted_valid [OF v] dl p unfolding open_assignment_def by (metis linorder_not_less)
qed

lemma inbox_is_open:
  assumes "do_list_inbox E K S now p = (Inr ps, p')" and "q \<in> set ps"
  shows "open_assignment E now q"
proof -
  obtain es pss where "mapE (pending_of E now) es = Inr pss" "ps = concat pss"
    using assms(1) unfolding do_list_inbox_def
    by (auto elim!: io_bind_InrE split: if_split_asm prod.split_asm simp: bindE_Inr_iff)
  then show ?thesis using mapE_concat [of "pending_of E now" es pss q] assms(2) pending_of_open by blast
qed

text \<open>A reviewer only ever judges content that was fetched and verified.\<close>

lemma fetched_content_genuine:
  assumes "content_fetcher_for E C now order a p = (Inr m, p')" and "m \<noteq> JNull" and "fs_wf (pdisk p)"
    and "\<And>u. apart (data_dir C @ [u]) (pins_path C)"
    and "\<And>u. apart (data_dir C @ [u]) (butlast (pins_path C) @ [last (pins_path C) @ ''.tmp-'' @ str_of_nat (process_id C)])"
  shows "\<exists>u. py_get a ''uri'' (JStr []) = Inr (JStr u) \<and> genuine_fetch E C now u p p'"
proof -
  obtain u p1 site found where u: "py_get a ''uri'' (JStr []) = Inr (JStr u)" and f: "fetch_site E C now order u [] False p = (Inr True, p1)"
      and r: "io_opt (on_disk (load_bundle E site)) p1 = (Inr found, p')"
    using assms(1,2) unfolding content_fetcher_for_def
    by (auto elim!: io_bind_InrE split: if_split_asm json.split_asm option.split_asm prod.split_asm)
  have "snd (load_bundle E site (pdisk p1)) = pdisk p1" using reads_load_bundle [of E site] by (simp add: reads_def)
  then have "snd (on_disk (load_bundle E site) p1) = p1" by (simp add: on_disk_def split_beta)
  then have "p' = p1" by (cases rule: io_opt_cases [OF r]) auto
  then show ?thesis using u fetch_site_genuine [OF f assms(3-5)] by blast
qed

end
