(* ===== verification/Service.thy ===== *)
theory Service
  imports ClientFlows
begin

text \<open>
  mdp2p_client/service.py: the installation of the seeder as a background service on three platforms, its
  status, and the one-time offer.  The host record holds what the interpreter and the system tell the
  module: \<open>sys.platform\<close>, the executable, the environment, and the result of a command that is run
  (which may be an exception, as when the program is missing).  Command output is ASCII text.
\<close>

record run_result =
  returncode :: int
  stdout :: string
  stderr :: string

record host =
  sys_platform :: string
  is_frozen :: bool
  executable :: string
  user_name :: string                \<comment> \<open>\<open>os.environ.get("USER") or ""\<close>\<close>
  uid :: nat
  home_dir :: path
  run_cmd :: "string list \<Rightarrow> run_result res"
  plist_dump :: "json \<Rightarrow> string"    \<comment> \<open>\<open>plistlib.dump\<close>\<close>

definition launchd_label :: string where "launchd_label = ''net.mdp2p.seeder''"
definition systemd_unit_name :: string where "systemd_unit_name = ''mdp2p-seeder.service''"
definition windows_task_name :: string where "windows_task_name = ''mdp2p-seeder''"

definition get_platform :: "host \<Rightarrow> string" where
  "get_platform h =
     (if sys_platform h = ''darwin'' then ''darwin''
      else if prefix ''linux'' (sys_platform h) then ''linux''
      else if sys_platform h \<in> {''win32'', ''cygwin''} then ''windows'' else ''unsupported'')"

definition get_launch_command :: "host \<Rightarrow> string list" where
  "get_launch_command h =
     (if is_frozen h then [executable h, ''serve''] else [executable h, ''-m'', ''mdp2p_client'', ''serve''])"

definition run :: "host \<Rightarrow> string list \<Rightarrow> run_result io" where
  "run h cmd = io_lift (run_cmd h cmd)"

text \<open>\<open>result.stderr.strip() or result.stdout.strip()\<close>.\<close>

definition complaint :: "run_result \<Rightarrow> string" where
  "complaint r = (if strip (stderr r) \<noteq> [] then strip (stderr r) else strip (stdout r))"

record service_status =
  st_platform :: string
  st_installed :: bool
  st_running :: bool
  st_path :: "string option"
  st_details :: string

text \<open>\<open>splitlines\<close> on ASCII text whose line ends were translated.\<close>

definition line_end :: "char \<Rightarrow> bool" where
  "line_end c \<longleftrightarrow> c \<in> {CHR 0x0A, CHR 0x0B, CHR 0x0C, CHR 0x1C, CHR 0x1D, CHR 0x1E}"

fun split_lines :: "string \<Rightarrow> string list" where
  "split_lines [] = []"
| "split_lines (c # s) =
     (if line_end c then [] # split_lines s
      else (case split_lines s of [] \<Rightarrow> [[c]] | l # ls \<Rightarrow> (c # l) # ls))"

definition file_there :: "path \<Rightarrow> bool io" where
  "file_there p fs = (Inr (fexists fs p), fs)"

section \<open>macOS\<close>

definition darwin_plist_path :: "host \<Rightarrow> path" where
  "darwin_plist_path h = home_dir h @ [''Library'', ''LaunchAgents'', launchd_label @ ''.plist'']"

definition darwin_log_dir :: "host \<Rightarrow> path" where
  "darwin_log_dir h = home_dir h @ [''Library'', ''Logs'']"

definition darwin_domain :: "host \<Rightarrow> string" where
  "darwin_domain h = ''gui/'' @ str_of_nat (uid h)"

definition darwin_service_target :: "host \<Rightarrow> string" where
  "darwin_service_target h = darwin_domain h @ ''/'' @ launchd_label"

definition darwin_write_plist :: "host \<Rightarrow> path \<Rightarrow> unit io" where
  "darwin_write_plist h p =
     io_bind (mkdir_p (darwin_log_dir h)) (\<lambda>_. io_bind (mkdir_p (butlast p)) (\<lambda>_.
     write_bytes p (plist_dump h (JDict
       [(''Label'', JStr launchd_label), (''ProgramArguments'', JList (map JStr (get_launch_command h))),
        (''RunAtLoad'', JBool True), (''KeepAlive'', JBool True),
        (''StandardOutPath'', JStr (path_str (darwin_log_dir h @ [''mdp2p-seeder.log'']))),
        (''StandardErrorPath'', JStr (path_str (darwin_log_dir h @ [''mdp2p-seeder.err'']))),
        (''ProcessType'', JStr ''Background'')]))))"

definition darwin_install :: "host \<Rightarrow> (bool \<times> string \<times> string) io" where
  "darwin_install h =
     (let p = darwin_plist_path h; s = path_str p in
      io_bind (darwin_write_plist h p) (\<lambda>_.
      io_bind (run h [''launchctl'', ''bootstrap'', darwin_domain h, s]) (\<lambda>b.
      if returncode b = 0 then io_ret (True, s, ''LaunchAgent installed and bootstrapped.'')
      else io_bind (run h [''launchctl'', ''load'', s]) (\<lambda>l.
        if returncode l = 0 then io_ret (True, s, ''LaunchAgent installed (loaded via legacy launchctl load).'')
        else io_ret (False, s, complaint b @ complaint l)))))"

definition darwin_uninstall :: "host \<Rightarrow> (bool \<times> string) io" where
  "darwin_uninstall h =
     (let p = darwin_plist_path h; s = path_str p in
      io_bind (file_there p) (\<lambda>there.
      if \<not> there then io_ret (True, ''Nothing to uninstall (plist not found).'')
      else io_bind (run h [''launchctl'', ''bootout'', darwin_service_target h]) (\<lambda>_.
        io_bind (run h [''launchctl'', ''unload'', s]) (\<lambda>_.
        io_try (io_bind (unlink p) (\<lambda>_. io_ret (True, ''LaunchAgent removed ('' @ s @ '').'')))
          (\<lambda>e. if is_os_error e then io_ret (False, ''Failed to delete '' @ s) else io_raise e)))))"

text \<open>A line with \<open>state\<close> and \<open>=\<close> tells: the text after the first \<open>=\<close> is searched for \<open>running\<close>.\<close>

definition state_running :: "string \<Rightarrow> bool" where
  "state_running line \<longleftrightarrow>
     contains_sub ''state'' line \<and> CHR ''='' \<in> set line \<and>
     contains_sub ''running'' (tl (dropWhile (\<lambda>c. c \<noteq> CHR ''='') line))"

definition darwin_status :: "host \<Rightarrow> service_status io" where
  "darwin_status h =
     (let p = darwin_plist_path h;
          answer = (\<lambda>there live details. \<lparr>st_platform = ''darwin'', st_installed = there, st_running = live,
            st_path = (if there then Some (path_str p) else None),
            st_details = (if details = [] then ''not installed'' else details)\<rparr>) in
      io_bind (file_there p) (\<lambda>there.
      if \<not> there then io_ret (answer False False [])
      else io_bind (run h [''launchctl'', ''print'', darwin_service_target h]) (\<lambda>r.
        if returncode r \<noteq> 0 then io_ret (answer True False ''plist present but not loaded in launchd'')
        else let live = list_ex state_running (split_lines (stdout r)) in
          io_ret (answer True live (if live then ''loaded, running'' else ''loaded, not running'')))))"

section \<open>Linux\<close>

definition shell_safe :: "char \<Rightarrow> bool" where
  "shell_safe c \<longleftrightarrow> is_alnum c \<or> c \<in> set ''_@%+=:,./-''"

text \<open>\<open>shlex.quote\<close>.\<close>

definition shell_quote :: "string \<Rightarrow> string" where
  "shell_quote s =
     (if s = [] then [CHR 0x27, CHR 0x27]
      else if list_all shell_safe s then s
      else [CHR 0x27] @ concat (map (\<lambda>c. if c = CHR 0x27 then [CHR 0x27, CHR 0x22, CHR 0x27, CHR 0x22, CHR 0x27] else [c]) s) @ [CHR 0x27])"

definition systemd_unit_path :: "host \<Rightarrow> path" where
  "systemd_unit_path h = home_dir h @ [''.config'', ''systemd'', ''user'', systemd_unit_name]"

definition systemd_exec_start :: "host \<Rightarrow> string" where
  "systemd_exec_start h = join '' '' (map shell_quote (get_launch_command h))"

definition systemd_unit_content :: "host \<Rightarrow> string" where
  "systemd_unit_content h = join [CHR 0x0A]
     [''[Unit]'', ''Description=MDP2P seeder (keeps your sites alive on the P2P network)'',
      ''After=network-online.target'', ''Wants=network-online.target'', [],
      ''[Service]'', ''ExecStart='' @ systemd_exec_start h, ''Restart=on-failure'', ''RestartSec=5s'', [],
      ''[Install]'', ''WantedBy=default.target'', []]"

definition systemd_linger_hint :: "host \<Rightarrow> string option io" where
  "systemd_linger_hint h =
     (if user_name h = [] then io_ret None
      else io_bind (run h [''loginctl'', ''show-user'', shell_quote (user_name h), ''-p'', ''Linger'', ''--value'']) (\<lambda>r.
        io_ret (if returncode r \<noteq> 0 then None
                else if lower (strip (stdout r)) \<noteq> ''yes''
                then Some (''Run `loginctl enable-linger '' @ user_name h @
                  ''` so the seeder keeps running after logout (requires sudo on most distros).'')
                else None)))"

definition linux_install :: "host \<Rightarrow> (bool \<times> string \<times> string) io" where
  "linux_install h =
     (let p = systemd_unit_path h; s = path_str p in
      io_bind (mkdir_p (butlast p)) (\<lambda>_.
      io_bind (write_bytes p (systemd_unit_content h)) (\<lambda>_.
      io_bind (run h [''systemctl'', ''--user'', ''daemon-reload'']) (\<lambda>r.
      if returncode r \<noteq> 0 then io_ret (False, s, ''systemctl --user daemon-reload failed: '' @ complaint r)
      else io_bind (run h [''systemctl'', ''--user'', ''enable'', ''--now'', systemd_unit_name]) (\<lambda>e.
        if returncode e \<noteq> 0 then io_ret (False, s, ''systemctl --user enable --now failed: '' @ complaint e)
        else io_bind (systemd_linger_hint h) (\<lambda>hint.
          io_ret (True, s, ''systemd --user unit installed and started.'' @
            (case hint of None \<Rightarrow> [] | Some t \<Rightarrow> [CHR 0x0A] @ ''Hint: '' @ t))))))))"

definition linux_uninstall :: "host \<Rightarrow> (bool \<times> string) io" where
  "linux_uninstall h =
     (let p = systemd_unit_path h; s = path_str p in
      io_bind (run h [''systemctl'', ''--user'', ''disable'', ''--now'', systemd_unit_name]) (\<lambda>_.
      io_bind (file_there p) (\<lambda>there.
      io_bind (if there then io_try (io_bind (unlink p) (\<lambda>_. io_ret True)) (\<lambda>e. if is_os_error e then io_ret False else io_raise e)
               else io_ret True) (\<lambda>removed.
      if \<not> removed then io_ret (False, ''Failed to delete '' @ s)
      else io_bind (run h [''systemctl'', ''--user'', ''daemon-reload'']) (\<lambda>_.
        io_ret (True, ''systemd --user unit removed ('' @ s @ '').''))))))"

definition linux_status :: "host \<Rightarrow> service_status io" where
  "linux_status h =
     (let p = systemd_unit_path h;
          state = (\<lambda>r. if strip (stdout r) \<noteq> [] then strip (stdout r) else strip (stderr r));
          shown = (\<lambda>t. if t = [] then ''unknown'' else t) in
      io_bind (file_there p) (\<lambda>there.
      if \<not> there
      then io_ret \<lparr>st_platform = ''linux'', st_installed = False, st_running = False, st_path = None, st_details = ''not installed''\<rparr>
      else io_bind (run h [''systemctl'', ''--user'', ''is-active'', systemd_unit_name]) (\<lambda>a.
        io_bind (run h [''systemctl'', ''--user'', ''is-enabled'', systemd_unit_name]) (\<lambda>e.
        io_ret \<lparr>st_platform = ''linux'', st_installed = True, st_running = (returncode a = 0 \<and> state a = ''active''),
          st_path = Some (path_str p), st_details = ''active='' @ shown (state a) @ '', enabled='' @ shown (state e)\<rparr>))))"

section \<open>Windows\<close>

definition windows_quote :: "string \<Rightarrow> string" where
  "windows_quote s =
     (if CHR '' '' \<in> set s \<and> \<not> (prefix [CHR 0x22] s \<and> suffix [CHR 0x22] s) then [CHR 0x22] @ s @ [CHR 0x22] else s)"

definition windows_command_string :: "host \<Rightarrow> string" where
  "windows_command_string h = join '' '' (map windows_quote (get_launch_command h))"

definition windows_install :: "host \<Rightarrow> (bool \<times> string \<times> string) io" where
  "windows_install h =
     io_bind (run h [''schtasks'', ''/create'', ''/tn'', windows_task_name, ''/tr'', windows_command_string h,
       ''/sc'', ''onlogon'', ''/f'']) (\<lambda>r.
     io_ret (if returncode r \<noteq> 0 then (False, windows_task_name, ''schtasks /create failed: '' @ complaint r)
             else (True, windows_task_name, ''Scheduled Task created (trigger: at logon).'')))"

definition windows_uninstall :: "host \<Rightarrow> (bool \<times> string) io" where
  "windows_uninstall h =
     io_bind (run h [''schtasks'', ''/delete'', ''/tn'', windows_task_name, ''/f'']) (\<lambda>r.
     io_ret (if returncode r = 0 then (True, ''Scheduled Task removed ('' @ windows_task_name @ '').'')
             else if contains_sub ''cannot find'' (lower (stderr r)) \<or> contains_sub ''does not exist'' (lower (stderr r))
             then (True, ''Nothing to uninstall (task not found).'')
             else (False, ''schtasks /delete failed: '' @ complaint r)))"

definition strip_quotes :: "string \<Rightarrow> string" where
  "strip_quotes s = rev (dropWhile (\<lambda>c. c = CHR 0x22) (rev (dropWhile (\<lambda>c. c = CHR 0x22) s)))"

definition windows_status :: "host \<Rightarrow> service_status io" where
  "windows_status h =
     io_bind (run h [''schtasks'', ''/query'', ''/tn'', windows_task_name, ''/fo'', ''csv'', ''/nh'']) (\<lambda>r.
     io_ret (if returncode r \<noteq> 0
       then \<lparr>st_platform = ''windows'', st_installed = False, st_running = False, st_path = None, st_details = ''not installed''\<rparr>
       else (let text = strip (stdout r); line = (if text = [] then [] else hd (split_lines text));
                 cells = (if line = [] then [] else map strip_quotes (split_on (CHR '','') line));
                 state = (if length cells \<ge> 3 then cells ! 2 else []) in
        \<lparr>st_platform = ''windows'', st_installed = True, st_running = (lower state = ''running''),
         st_path = Some windows_task_name, st_details = ''status='' @ (if state = [] then ''unknown'' else state)\<rparr>)))"

section \<open>Every platform\<close>

definition svc_install :: "host \<Rightarrow> (bool \<times> string \<times> string) io" where
  "svc_install h =
     (if get_platform h = ''darwin'' then darwin_install h
      else if get_platform h = ''linux'' then linux_install h
      else if get_platform h = ''windows'' then windows_install h
      else io_ret (False, [], ''Unsupported platform: '' @ sys_platform h))"

definition svc_uninstall :: "host \<Rightarrow> (bool \<times> string) io" where
  "svc_uninstall h =
     (if get_platform h = ''darwin'' then darwin_uninstall h
      else if get_platform h = ''linux'' then linux_uninstall h
      else if get_platform h = ''windows'' then windows_uninstall h
      else io_ret (False, ''Unsupported platform: '' @ sys_platform h))"

definition svc_status :: "host \<Rightarrow> service_status io" where
  "svc_status h =
     (if get_platform h = ''darwin'' then darwin_status h
      else if get_platform h = ''linux'' then linux_status h
      else if get_platform h = ''windows'' then windows_status h
      else io_ret \<lparr>st_platform = ''unsupported'', st_installed = False, st_running = False, st_path = None,
        st_details = ''Unsupported platform: '' @ sys_platform h\<rparr>)"

section \<open>The offer\<close>

definition mark_prompted :: "env \<Rightarrow> host \<Rightarrow> client_config \<Rightarrow> client_config io" where
  "mark_prompted E h c =
     (let c' = c\<lparr>cfg_prompted := JBool True\<rparr>
      in io_bind (best_effort (config_save E c' (default_config_file (home_dir h)))) (\<lambda>_. io_ret c'))"

definition should_offer :: "env \<Rightarrow> host \<Rightarrow> client_config \<Rightarrow> (bool \<times> client_config) io" where
  "should_offer E h c =
     (if truthy (cfg_prompted c) then io_ret (False, c)
      else if get_platform h = ''unsupported'' then io_ret (False, c)
      else io_bind (io_opt (svc_status h)) (\<lambda>st.
        case st of
          None \<Rightarrow> io_ret (False, c)
        | Some s \<Rightarrow>
            if st_installed s then io_bind (mark_prompted E h c) (\<lambda>c'. io_ret (False, c')) else io_ret (True, c)))"

text \<open>What follows the question; the answer is \<open>None\<close> when reading it was interrupted.\<close>

definition answer_offer :: "env \<Rightarrow> host \<Rightarrow> string option \<Rightarrow> client_config \<Rightarrow> (bool \<times> client_config) io" where
  "answer_offer E h answer c =
     (case answer of
        None \<Rightarrow> io_bind (mark_prompted E h c) (\<lambda>c2. io_ret (False, c2))
      | Some a \<Rightarrow>
          if lower (strip a) \<in> {[], ''y'', ''yes'', ''o'', ''oui''}
          then io_bind (svc_install h) (\<lambda>(ok, p, msg). io_bind (mark_prompted E h c) (\<lambda>c2. io_ret (ok, c2)))
          else io_bind (mark_prompted E h c) (\<lambda>c2. io_ret (False, c2)))"

definition offer_interactive :: "env \<Rightarrow> host \<Rightarrow> bool \<Rightarrow> string option \<Rightarrow> client_config \<Rightarrow> (bool \<times> client_config) io" where
  "offer_interactive E h tty answer c =
     io_bind (should_offer E h c) (\<lambda>(offer, c1).
     if \<not> offer \<or> \<not> tty then io_ret (False, c1) else answer_offer E h answer c1)"

text \<open>Whatever the answer, an offer that was shown is not made again.\<close>

lemma mark_prompted_Inr: "mark_prompted E h c fs = (Inr c', fs') \<Longrightarrow> cfg_prompted c' = JBool True"
  unfolding mark_prompted_def Let_def by (auto elim!: io_bind_InrE)

lemma offered_once:
  assumes "should_offer E h c fs = (Inr (True, c1), fs1)" and "offer_interactive E h True answer c fs = (Inr (ok, c2), fs2)"
  shows "should_offer E h c2 fs3 = (Inr (False, c2), fs3)"
proof -
  have "cfg_prompted c2 = JBool True"
    using assms unfolding offer_interactive_def answer_offer_def
    by (auto simp: io_bind_def [of "should_offer E h c"] elim!: io_bind_InrE dest: mark_prompted_Inr
        split: option.split_asm if_split_asm prod.split_asm)
  then show ?thesis by (simp add: should_offer_def io_ret_def)
qed

text \<open>
  The search for \<open>running\<close> in the text after \<open>=\<close> also finds it in \<open>not running\<close>: a service that is loaded and
  stopped is reported as running.
\<close>

lemma stopped_counts_as_running:
  assumes "fexists fs (darwin_plist_path h)"
    and "run_cmd h [''launchctl'', ''print'', darwin_service_target h] =
      Inr \<lparr>returncode = 0, stdout = ''state = not running'', stderr = []\<rparr>"
  shows "\<exists>s. darwin_status h fs = (Inr s, fs) \<and> st_running s"
proof -
  have "split_lines ''state = not running'' = [''state = not running'']" by (simp add: line_end_def)
  moreover have "state_running ''state = not running''"
    by (simp add: state_running_def contains_sub_def)
  ultimately show ?thesis
    using assms by (simp add: darwin_status_def run_def file_there_def io_bind_def io_lift_def io_ret_def Let_def)
qed

end
