(* ===== verification/Tables.thy ===== *)
theory Tables
  imports ClientConfig
begin

text \<open>
  mdp2p_client/formatting.py and the tables of ui.py: what the client shows of sites, registered names and
  pins, without colour codes.  What is shown comes from files and from the network, so a value of an
  unexpected type raises here as it does there.  The texts of the locale files and the local calendar are
  arguments.
\<close>

record display =
  word :: "string \<Rightarrow> string"                 \<comment> \<open>t(key)\<close>
  counted :: "string \<Rightarrow> string \<Rightarrow> string"    \<comment> \<open>t(key, count=n)\<close>
  calendar :: "real \<Rightarrow> string res"            \<comment> \<open>datetime.fromtimestamp(ts).strftime(...)\<close>

section \<open>Sizes and dates\<close>

text \<open>The nearest integer, the even one of two: how \<open>:.1f\<close> and \<open>:.2f\<close> round the last digit they show.\<close>

definition half_even :: "real \<Rightarrow> int" where
  "half_even z =
     (let q = \<lfloor>z\<rfloor>; r = z - of_int q in
      if r < 1 / 2 \<or> r = 1 / 2 \<and> even q then q else q + 1)"

text \<open>\<open>f"{y:.1f}"\<close> for a value that is not negative, and \<open>f"{y:.2f}"\<close>.\<close>

definition one_decimal :: "real \<Rightarrow> string" where
  "one_decimal y = (let n = half_even (10 * y) in str_of_int (n div 10) @ ''.'' @ str_of_int (n mod 10))"

definition two_decimals :: "real \<Rightarrow> string" where
  "two_decimals y =
     (let n = half_even (100 * \<bar>y\<bar>) in
      (if y < 0 then ''-'' else []) @ str_of_int (n div 100) @ ''.'' @ str_of_int (n mod 100 div 10) @ str_of_int (n mod 10))"

definition sized :: "string \<Rightarrow> real \<Rightarrow> string" where
  "sized shown n =
     (if n < 1024 then shown @ '' B''
      else if n < 1024 * 1024 then one_decimal (n / 1024) @ '' KB''
      else one_decimal (n / (1024 * 1024)) @ '' MB'')"

fun format_size :: "env \<Rightarrow> json \<Rightarrow> string res" where
  "format_size E (JInt n) = Inr (sized (str_of_int n) (of_int n))"
| "format_size E (JBool b) = Inr (sized (py_str E (JBool b)) (if b then 1 else 0))"
| "format_size E (JFloat (Fin x)) = Inr (sized (py_str E (JFloat (Fin x))) x)"
| "format_size E (JFloat NegInf) = Inr ''-inf B''"
| "format_size E (JFloat PosInf) = Inr ''inf MB''"
| "format_size E (JFloat NaN) = Inr ''nan MB''"
| "format_size E v = Inl TypeError"

definition em_dash :: string where
  "em_dash = [CHR 0xE2, CHR 0x80, CHR 0x94]"

definition format_timestamp :: "display \<Rightarrow> json \<Rightarrow> string res" where
  "format_timestamp V ts =
     (case num ts of
        None \<Rightarrow> Inl TypeError
      | Some (Fin x) \<Rightarrow> if x = 0 then Inr em_dash else calendar V x
      | Some NaN \<Rightarrow> Inl (ValueError ''cannot convert float NaN to integer'')
      | Some f \<Rightarrow> Inl OverflowError)"

section \<open>Tables\<close>

definition bar :: string where
  "bar = '' '' @ [CHR 0xE2, CHR 0x94, CHR 0x82] @ '' ''"

definition dash :: string where
  "dash = [CHR 0xE2, CHR 0x94, CHR 0x80]"

definition crossing :: string where
  "crossing = dash @ [CHR 0xE2, CHR 0x94, CHR 0xBC] @ dash"

definition ljust :: "string \<Rightarrow> nat \<Rightarrow> string" where
  "ljust s w = s @ replicate (w - py_len s) CHR '' ''"

fun cell_text :: "json \<Rightarrow> string res" where
  "cell_text (JStr s) = Inr s"
| "cell_text v = Inl AttributeError"

definition col_widths :: "string list \<Rightarrow> nat list list \<Rightarrow> nat list" where
  "col_widths headers sizes = fold (\<lambda>row ws. map2 max ws row) sizes (map py_len headers)"

definition table_line :: "nat list \<Rightarrow> string list \<Rightarrow> string" where
  "table_line ws cells = ''  '' @ join bar (map2 ljust cells ws)"

definition rule_line :: "nat list \<Rightarrow> string" where
  "rule_line ws = ''  '' @ join crossing (map (\<lambda>w. concat (replicate w dash)) ws)"

text \<open>The header, the rule and the rows; each row has as many cells as there are headers.\<close>

definition table_body :: "string list \<Rightarrow> json list list \<Rightarrow> string list res" where
  "table_body headers rows =
     bindE (mapE (mapE py_size) rows) (\<lambda>sizes. let ws = col_widths headers sizes in
     bindE (mapE (mapE cell_text) rows) (\<lambda>texts.
     Inr (table_line ws headers # rule_line ws # map (table_line ws) texts)))"

definition render_table :: "string list \<Rightarrow> json list list \<Rightarrow> string option \<Rightarrow> string \<Rightarrow> string list res" where
  "render_table headers rows title footer =
     bindE (table_body headers rows) (\<lambda>body.
     Inr ([[]] @ (case title of None \<Rightarrow> [] | Some s \<Rightarrow> [''  '' @ dash @ dash @ '' '' @ s @ '' '' @ dash @ dash, []])
          @ body @ [[], ''  '' @ footer]))"

section \<open>What the tables show\<close>

text \<open>\<open>v[:n]\<close>; a dictionary and a number raise.\<close>

fun slice_to :: "nat \<Rightarrow> json \<Rightarrow> json res" where
  "slice_to n (JStr s) = Inr (JStr (case u8_decode s of Some cs \<Rightarrow> u8_encode (take n cs) | None \<Rightarrow> take n s))"
| "slice_to n (JList xs) = Inr (JList (take n xs))"
| "slice_to n v = Inl TypeError"

definition key_hint :: "env \<Rightarrow> json \<Rightarrow> string res" where
  "key_hint E key =
     (if truthy key then bindE (slice_to 8 key) (\<lambda>k. Inr ('' ('' @ py_str E k @ '')'')) else Inr [])"

definition seed_row :: "env \<Rightarrow> display \<Rightarrow> seeded_site \<Rightarrow> json list res" where
  "seed_row E V s =
     bindE (key_hint E (seed_public_key s)) (\<lambda>hint.
     bindE (format_size E (seed_total_size s)) (\<lambda>size.
     bindE (format_timestamp V (seed_timestamp s)) (\<lambda>published.
     Inr (map JStr [py_str E (seed_author s) @ hint @ ''@'' @ py_str E (seed_uri s), size,
                    counted V ''files_unit'' (py_str E (seed_file_count s)), published, path_str (seed_dir s)]))))"

definition print_seeds_table :: "env \<Rightarrow> display \<Rightarrow> seeded_site list \<Rightarrow> string list res" where
  "print_seeds_table E V sites =
     (if sites = [] then Inr [[], ''  '' @ word V ''no_seeds'', ''  '' @ word V ''no_seeds_hint'']
      else bindE (mapE (seed_row E V) sites) (\<lambda>rows.
        render_table (map (word V) [''col_site'', ''col_size'', ''col_files'', ''col_published'', ''col_path'']) rows None
          (counted V ''total_seeds'' (str_of_nat (length sites)))))"

definition browse_row :: "env \<Rightarrow> display \<Rightarrow> json \<Rightarrow> json list res" where
  "browse_row E V site =
     bindE (py_get site ''author'' (JStr ''?'')) (\<lambda>author.
     bindE (py_get site ''public_key'' (JStr [])) (\<lambda>key.
     bindE (key_hint E key) (\<lambda>hint.
     bindE (py_item site ''uri'') (\<lambda>uri.
     bindE (py_get site ''timestamp'' (JInt 0)) (\<lambda>ts.
     bindE (format_timestamp V ts) (\<lambda>published.
     Inr (map JStr [''md://'' @ py_str E uri, py_str E author @ hint, published])))))))"

definition print_browse_table :: "env \<Rightarrow> display \<Rightarrow> json \<Rightarrow> string list res" where
  "print_browse_table E V sites =
     (if \<not> truthy sites then Inr [[], ''  '' @ word V ''browse_no_sites'']
      else bindE (bindE (py_iter sites) (mapE (browse_row E V))) (\<lambda>rows.
        render_table (map (word V) [''col_uri'', ''col_author'', ''col_published'']) rows (Some (word V ''browse_header''))
          (counted V ''browse_total'' (str_of_nat (length rows)))))"

definition pin_row :: "env \<Rightarrow> display \<Rightarrow> string \<times> json \<Rightarrow> json list res" where
  "pin_row E V = (\<lambda>(uri, entry).
     bindE (py_get entry ''author'' (JStr ''?'')) (\<lambda>author.
     bindE (bindE (py_item entry ''public_key'') (slice_to 16)) (\<lambda>key.
     bindE (case key of JStr k \<Rightarrow> Inr (k @ ''...'') | _ \<Rightarrow> Inl TypeError) (\<lambda>short.
     bindE (bindE (py_get entry ''first_seen'' (JInt 0)) (format_timestamp V)) (\<lambda>first_seen.
     bindE (bindE (py_get entry ''last_seen'' (JInt 0)) (format_timestamp V)) (\<lambda>last_seen.
     Inr [JStr (''md://'' @ uri), author, JStr short, JStr first_seen, JStr last_seen]))))))"

definition print_pins_table :: "env \<Rightarrow> display \<Rightarrow> json \<Rightarrow> string list res" where
  "print_pins_table E V pinstore =
     (if \<not> truthy pinstore then Inr [[], ''  '' @ word V ''pins_no_keys'']
      else bindE (py_items pinstore) (\<lambda>pins.
        bindE (mapE (pin_row E V) (sort_key fst pins)) (\<lambda>rows.
        render_table (map (word V) [''col_uri'', ''col_author'', ''col_key'', ''pins_first_seen'', ''pins_last_seen'']) rows
          (Some (word V ''pins_header'')) (counted V ''pins_total'' (str_of_nat (length pins))))))"

section \<open>What is shown is the nearest value\<close>

lemma half_even_near: "\<bar>of_int (half_even z) - z\<bar> \<le> 1 / 2"
proof -
  define q where "q = \<lfloor>z\<rfloor>"
  have "of_int q \<le> z \<and> z < of_int q + 1" unfolding q_def by linarith
  then show ?thesis unfolding half_even_def Let_def q_def [symmetric] by (simp add: abs_le_iff field_simps; linarith?)
qed

lemma half_even_mono: "x \<le> y \<Longrightarrow> half_even x \<le> half_even y"
proof -
  assume le: "x \<le> y"
  show ?thesis
  proof (cases "\<lfloor>x\<rfloor> = \<lfloor>y\<rfloor>")
    case True
    then show ?thesis using le by (auto simp: half_even_def Let_def)
  next
    case False
    then have "\<lfloor>x\<rfloor> + 1 \<le> \<lfloor>y\<rfloor>" using floor_mono [of x y] le by linarith
    then show ?thesis by (auto simp: half_even_def Let_def)
  qed
qed

section \<open>The columns line up\<close>

lemma py_len_append [simp]: "py_len (a @ b) = py_len a + py_len b"
  by (simp add: py_len_def)

lemma py_len_join: "xs \<noteq> [] \<Longrightarrow> py_len (join s xs) = sum_list (map py_len xs) + py_len s * (length xs - 1)"
  by (induction s xs rule: join.induct) (auto simp: py_len_def)

lemma py_len_spaces: "py_len (replicate n CHR '' '') = n"
  by (induction n) (simp_all add: py_len_def is_cont_def)

lemma py_len_ljust: "py_len s \<le> w \<Longrightarrow> py_len (ljust s w) = w"
  by (simp add: ljust_def py_len_spaces)

lemma py_len_dashes: "py_len (concat (replicate w dash)) = w"
  by (induction w) (simp_all add: py_len_def dash_def is_cont_def)

definition line_width :: "nat list \<Rightarrow> nat" where
  "line_width ws = 2 + sum_list ws + 3 * (length ws - 1)"

lemma py_len_bars: "py_len bar = 3" "py_len crossing = 3" "py_len (CHR '' '' # s) = Suc (py_len s)"
  by (simp_all add: py_len_def bar_def crossing_def dash_def is_cont_def)

lemma py_len_rule: "ws \<noteq> [] \<Longrightarrow> py_len (rule_line ws) = line_width ws"
  by (simp add: rule_line_def line_width_def py_len_join py_len_bars comp_def py_len_dashes)

lemma padded_widths: "list_all2 (\<lambda>c w. py_len c \<le> w) cells ws \<Longrightarrow> map py_len (map2 ljust cells ws) = ws"
  by (induction rule: list_all2_induct) (simp_all add: py_len_ljust)

lemma py_len_line:
  assumes "list_all2 (\<lambda>c w. py_len c \<le> w) cells ws" and "ws \<noteq> []"
  shows "py_len (table_line ws cells) = line_width ws"
proof -
  have len: "length cells = length ws" using assms(1) by (rule list_all2_lengthD)
  then have "map2 ljust cells ws \<noteq> []" using assms(2) by (cases cells; cases ws) auto
  from py_len_join [OF this, of bar] show ?thesis
    unfolding table_line_def line_width_def padded_widths [OF assms(1)] by (simp add: py_len_bars len)
qed

lemma widths_cover:
  "\<forall>row \<in> set sizes. length row = length (ws :: nat list) \<Longrightarrow>
     list_all2 (\<le>) ws (fold (\<lambda>row ws. map2 max ws row) sizes ws) \<and>
     (\<forall>row \<in> set sizes. list_all2 (\<le>) row (fold (\<lambda>row ws. map2 max ws row) sizes ws))"
proof (induction sizes arbitrary: ws)
  case (Cons row sizes)
  let ?w = "map2 max ws row"
  have len: "length ?w = length ws" "length row = length ws" using Cons.prems by simp_all
  have ih: "list_all2 (\<le>) ?w (fold (\<lambda>row ws. map2 max ws row) sizes ?w)"
      "\<forall>r \<in> set sizes. list_all2 (\<le>) r (fold (\<lambda>row ws. map2 max ws row) sizes ?w)"
    using Cons.IH [of ?w] Cons.prems len by simp_all
  have "list_all2 (\<le>) ws ?w" "list_all2 (\<le>) row ?w"
    using len by (simp_all add: list_all2_conv_all_nth)
  then show ?case using ih by (auto intro: list_all2_trans [of "(\<le>)" "(\<le>)" "(\<le>)"])
qed (simp add: list.rel_refl)

lemma matched: "list_all2 P xs ys \<Longrightarrow> y \<in> set ys \<Longrightarrow> \<exists>x \<in> set xs. P x y"
  by (induction rule: list_all2_induct) auto

lemma cell_sizes:
  "py_size c = Inr n \<Longrightarrow> cell_text c = Inr s \<Longrightarrow> n = py_len s"
  by (cases c) auto

text \<open>Header, rule and rows have one width, and every cell is shown in full.\<close>

lemma table_lines_up:
  assumes "table_body headers rows = Inr lines" and "headers \<noteq> []" and "\<forall>row \<in> set rows. length row = length headers"
  shows "\<exists>w. \<forall>line \<in> set lines. py_len line = w"
proof -
  obtain sizes texts where s: "mapE (mapE py_size) rows = Inr sizes" and t: "mapE (mapE cell_text) rows = Inr texts"
      and lines: "lines = table_line (col_widths headers sizes) headers # rule_line (col_widths headers sizes)
                            # map (table_line (col_widths headers sizes)) texts"
    using assms(1) by (auto simp: table_body_def Let_def bindE_Inr_iff)
  let ?ws = "col_widths headers sizes"
  have sl: "list_all2 (list_all2 (\<lambda>c n. py_size c = Inr n)) rows sizes" using s by (simp add: mapE_Inr_iff)
  have tl: "list_all2 (list_all2 (\<lambda>c x. cell_text c = Inr x)) rows texts" using t by (simp add: mapE_Inr_iff)
  have "\<forall>row \<in> set sizes. length row = length (map py_len headers)"
  proof
    fix row assume "row \<in> set sizes"
    then obtain r where "r \<in> set rows" "list_all2 (\<lambda>c n. py_size c = Inr n) r row"
      using matched [OF sl] by blast
    then show "length row = length (map py_len headers)" using assms(3) list_all2_lengthD by fastforce
  qed
  note cover = widths_cover [OF this]
  have h: "list_all2 (\<lambda>c w. py_len c \<le> w) headers ?ws"
    using conjunct1 [OF cover] by (simp add: col_widths_def list_all2_map1)
  then have ne: "?ws \<noteq> []" using assms(2) by auto
  have r: "list_all2 (\<lambda>c w. py_len c \<le> w) x ?ws" if x: "x \<in> set texts" for x
  proof -
    obtain i where i: "i < length texts" "x = texts ! i" using x by (metis in_set_conv_nth)
    have li: "length rows = length texts" "length sizes = length texts"
      using list_all2_lengthD [OF sl] list_all2_lengthD [OF tl] by simp_all
    have a: "list_all2 (\<lambda>c n. py_size c = Inr n) (rows ! i) (sizes ! i)" using list_all2_nthD2 [OF sl] i li by simp
    have b: "list_all2 (\<lambda>c y. cell_text c = Inr y) (rows ! i) x" using list_all2_nthD2 [OF tl] i by simp
    have "list_all2 (\<le>) (sizes ! i) ?ws" using cover i li by (simp add: col_widths_def)
    then show ?thesis
      using a b cell_sizes by (fastforce simp: list_all2_conv_all_nth)
  qed
  show ?thesis
    unfolding lines using py_len_line [OF h ne] py_len_rule [OF ne] py_len_line [OF r ne] by auto
qed

end
