(* ===== verification/Console.thy ===== *)
theory Console
  imports ClientFlows Tables
begin

text \<open>
  What the commands and the menu of the client share: the user's lines (the prompt of ui.py), the language
  in use (i18n.py) and the repair of file permissions (permissions.py).
\<close>

section \<open>The user's lines\<close>

text \<open>A line is \<open>None\<close> where the input ends; after the last one it has ended.\<close>

record 's console =
  entered :: "string option list"
  session :: "'s peer"

definition in_session :: "('s peer, 'a) op \<Rightarrow> ('s console, 'a) op" where
  "in_session m w = (case m (session w) of (r, p) \<Rightarrow> (r, w\<lparr>session := p\<rparr>))"

definition next_line :: "('s console, string option) op" where
  "next_line w = (case entered w of [] \<Rightarrow> (Inr None, w) | l # ls \<Rightarrow> (Inr l, w\<lparr>entered := ls\<rparr>))"

text \<open>\<open>prompt_input\<close> takes the end of the input for an empty answer; a bare \<open>input()\<close> raises.\<close>

definition prompt_input :: "('s console, string) op" where
  "prompt_input = io_bind next_line (\<lambda>l. io_ret (case l of None \<Rightarrow> [] | Some s \<Rightarrow> strip s))"

definition press_enter :: "('s console, unit) op" where
  "press_enter = io_bind next_line (\<lambda>l. if l = None then io_raise EOFError else io_ret ())"

text \<open>The answer that confirms, in the five languages of the locale files; other languages fall back to English.\<close>

definition confirm_yes :: "string \<Rightarrow> string" where
  "confirm_yes lang =
     (if lang = ''fr'' then ''oui''
      else if lang = ''zh'' then [CHR 0xE6, CHR 0x98, CHR 0xAF]
      else if lang = ''ar'' then [CHR 0xD9, CHR 0x86, CHR 0xD8, CHR 0xB9, CHR 0xD9, CHR 0x85]
      else if lang = ''hi'' then [CHR 0xE0, CHR 0xA4, CHR 0xB9, CHR 0xE0, CHR 0xA4, CHR 0xBE, CHR 0xE0, CHR 0xA4, CHR 0x81]
      else ''yes'')"

definition confirmed :: "string \<Rightarrow> ('s console, bool) op" where
  "confirmed lang = io_bind prompt_input (\<lambda>answer. io_ret (lower answer = confirm_yes lang))"

section \<open>Languages\<close>

definition supported_languages :: "string list" where
  "supported_languages = [''fr'', ''en'', ''zh'', ''ar'', ''hi'']"

text \<open>A language without a file is replaced by English.\<close>

definition loaded_language :: "json \<Rightarrow> string" where
  "loaded_language v = (case v of JStr l \<Rightarrow> if l \<in> set supported_languages then l else ''en'' | _ \<Rightarrow> ''en'')"

section \<open>Permissions\<close>

definition resolve_chown_target :: "string \<Rightarrow> string \<Rightarrow> (string \<Rightarrow> bool) \<Rightarrow> (string \<Rightarrow> string) \<Rightarrow> string" where
  "resolve_chown_target config_dir error_path is_dir parent =
     (if prefix config_dir error_path then config_dir
      else if \<not> is_dir error_path then parent error_path else error_path)"

text \<open>The external command's success is an argument; ownership is not part of the disk's model.\<close>

definition fix_permissions :: "string \<Rightarrow> bool \<Rightarrow> ('s console, bool) op" where
  "fix_permissions lang chown_works =
     io_bind (confirmed lang) (\<lambda>yes. io_ret (yes \<and> chown_works))"

section \<open>What is shown\<close>

text \<open>Showing leaves the state as it is, but can raise.\<close>

definition shown :: "string list res \<Rightarrow> ('s, unit) op" where
  "shown r = io_bind (io_lift r) (\<lambda>_. io_ret ())"

end
