(* ===== verification/Commands.thy ===== *)
theory Commands
  imports Service Taxonomy Console
begin

text \<open>
  mdp2p_client/commands.py: the commands of the client by what they read from the user and do to the
  configuration, the disk and the network, with their exit codes; of what they print, the tables and the
  exceptions that printing malformed values raises are kept.
\<close>

abbreviation on_files :: "'a io \<Rightarrow> ('s console, 'a) op" where
  "on_files m \<equiv> in_session (on_disk m)"

definition get_pinstore_path :: "path \<Rightarrow> path" where
  "get_pinstore_path home = home @ [''.mdp2p'', ''known_keys.json'']"

text \<open>\<open>try: ...; return 0  except Exception: return 1\<close>.\<close>

definition exit_code :: "('s, 'a) op \<Rightarrow> ('s, int) op" where
  "exit_code m = io_try (io_bind m (\<lambda>_. io_ret 0)) (\<lambda>e. io_ret 1)"

text \<open>An action tried again once when it fails for lack of permission and the repair succeeds.\<close>

definition with_repair :: "('s, bool) op \<Rightarrow> (exn \<Rightarrow> ('s, int) op) \<Rightarrow> ('s, 'a) op \<Rightarrow> ('s, int) op" where
  "with_repair repair on_other m =
     io_try (io_bind m (\<lambda>_. io_ret 0))
       (\<lambda>e. if e \<noteq> PermissionError then on_other e
            else io_bind repair (\<lambda>fixed.
              if \<not> fixed then io_ret 1
              else io_try (io_bind m (\<lambda>_. io_ret 0)) (\<lambda>e'. if e' = PermissionError then io_ret 1 else on_other e')))"

section \<open>Local sites\<close>

text \<open>
  The sites of the configured data directory, as every command that shows them finds them first.  The
  result is \<open>None\<close> where the list of sites is outside the model.
\<close>

definition with_sites :: "env \<Rightarrow> path \<Rightarrow> client_config \<Rightarrow> (seeded_site list \<Rightarrow> ('s console, 'a) op) \<Rightarrow> ('s console, 'a option) op" where
  "with_sites E cwd c act =
     io_bind (io_lift (dir_of cwd (cfg_data_dir c))) (\<lambda>data_path.
     io_bind (on_files (get_seeded_sites E data_path)) (\<lambda>found.
     case found of
       None \<Rightarrow> io_ret None
     | Some sites \<Rightarrow> io_bind (act sites) (\<lambda>r. io_ret (Some r))))"

definition cli_list :: "env \<Rightarrow> display \<Rightarrow> path \<Rightarrow> client_config \<Rightarrow> ('s console, unit option) op" where
  "cli_list E V cwd c = with_sites E cwd c (\<lambda>sites. shown (print_seeds_table E V sites))"

definition cli_status :: "env \<Rightarrow> path \<Rightarrow> client_config \<Rightarrow> ('s console, unit option) op" where
  "cli_status E cwd c = with_sites E cwd c (\<lambda>sites. io_ret ())"

definition cli_remove :: "env \<Rightarrow> path \<Rightarrow> string \<Rightarrow> client_config \<Rightarrow> string \<Rightarrow> ('s console, int option) op" where
  "cli_remove E cwd lang c uri0 =
     (let uri = strip_uri_scheme uri0 in
      with_sites E cwd c (\<lambda>sites.
      case List.find (\<lambda>s. seed_uri s = JStr uri) sites of
        None \<Rightarrow> io_ret 1
      | Some site \<Rightarrow>
          io_bind (io_lift (format_size E (seed_total_size site))) (\<lambda>_.
          io_bind next_line (\<lambda>answer.
          case answer of
            None \<Rightarrow> io_raise EOFError
          | Some a \<Rightarrow>
              if lower (strip a) \<noteq> confirm_yes lang then io_ret 0
              else exit_code (on_files (rmtree (seed_dir site)))))))"

section \<open>Pins\<close>

definition cli_pins :: "env \<Rightarrow> display \<Rightarrow> path \<Rightarrow> ('s console, unit) op" where
  "cli_pins E V home =
     io_bind (on_files (load_pinstore E (get_pinstore_path home))) (\<lambda>pinstore. shown (print_pins_table E V pinstore))"

definition cli_unpin :: "env \<Rightarrow> nat \<Rightarrow> path \<Rightarrow> string \<Rightarrow> ('s console, int) op" where
  "cli_unpin E pid home uri =
     io_bind (on_files (unpin_key E pid (strip_uri_scheme uri) (get_pinstore_path home))) (\<lambda>found.
     io_ret (if found then 0 else 1))"

section \<open>Configuration\<close>

definition own_identity :: "env \<Rightarrow> pem \<Rightarrow> string \<Rightarrow> nat list \<Rightarrow> path \<Rightarrow> client_config \<Rightarrow> (string \<times> string) io" where
  "own_identity E P sk ks cwd c =
     io_bind (io_lift (dir_of cwd (cfg_reviewer_dir c))) (\<lambda>d. ensure_reviewer_identity E P sk ks d ''reviewer'')"

definition load_reviewer_pubkey :: "pem \<Rightarrow> path \<Rightarrow> client_config \<Rightarrow> string option io" where
  "load_reviewer_pubkey P cwd c =
     io_bind (io_lift (dir_of cwd (cfg_reviewer_dir c))) (\<lambda>d fs.
       (if \<not> fexists fs (d @ [''reviewer.pub'']) then io_ret None
        else io_opt (io_bind (load_public_key P (d @ [''reviewer.pub''])) (\<lambda>k. io_ret (public_key_to_b64 k)))) fs)"

definition cats_given :: "string list option \<Rightarrow> client_config \<Rightarrow> client_config" where
  "cats_given cats c = (case cats of None \<Rightarrow> c | Some cs \<Rightarrow> c\<lparr>cfg_categories := JList (map JStr cs)\<rparr>)"

definition bad_cats :: "string list option \<Rightarrow> bool" where
  "bad_cats cats = (case cats of None \<Rightarrow> False | Some cs \<Rightarrow> (case validate_categories cs of Inl e \<Rightarrow> True | Inr u \<Rightarrow> False))"

definition setup_config ::
  "path \<Rightarrow> client_config option \<Rightarrow> string \<Rightarrow> string option \<Rightarrow> string option \<Rightarrow> bool option \<Rightarrow> string list option \<Rightarrow> client_config" where
  "setup_config home given author naming language reviewer cats =
     (let c0 = (case given of None \<Rightarrow> new_config home (JStr author) | Some c \<Rightarrow> c\<lparr>cfg_author := JStr author\<rparr>);
          c1 = (case naming of None \<Rightarrow> c0 | Some n \<Rightarrow> if n = [] then c0 else c0\<lparr>cfg_naming := JStr n\<rparr>);
          c2 = (case language of None \<Rightarrow> c1 | Some l \<Rightarrow> if l \<in> set supported_languages then c1\<lparr>cfg_language := JStr l\<rparr> else c1);
          c3 = (case reviewer of None \<Rightarrow> c2 | Some b \<Rightarrow> c2\<lparr>cfg_reviewer_mode := JBool b\<rparr>)
      in cats_given cats c3)"

text \<open>\<open>', '.join(categories) if categories else ...\<close>: raises unless the elements are strings.\<close>

definition joinable :: "json \<Rightarrow> unit res" where
  "joinable v =
     (if truthy v then bindE (py_iter v) (\<lambda>xs. if list_all is_str xs then Inr () else Inl TypeError) else Inr ())"

definition cli_setup ::
  "env \<Rightarrow> pem \<Rightarrow> string \<Rightarrow> nat list \<Rightarrow> path \<Rightarrow> path \<Rightarrow> bool \<Rightarrow> client_config option \<Rightarrow> string \<Rightarrow> string option
     \<Rightarrow> string option \<Rightarrow> bool option \<Rightarrow> string list option \<Rightarrow> ('s console, int) op" where
  "cli_setup E P sk ks home cwd chown_works given author naming language reviewer cats =
     (if bad_cats cats then io_ret 1
      else let c = setup_config home given author naming language reviewer cats in
        with_repair (fix_permissions (loaded_language (cfg_language c)) chown_works) io_raise
          (io_bind (on_files (ensure_config home cwd (Some c))) (\<lambda>c'.
           io_bind (if truthy (cfg_reviewer_mode c')
                    then io_bind (on_files (own_identity E P sk ks cwd c')) (\<lambda>_. io_ret ()) else io_ret ()) (\<lambda>_.
           io_bind (on_files (config_save E c' (default_config_file home))) (\<lambda>_.
           io_lift (joinable (cfg_categories c')))))))"

text \<open>A command that changes the configuration in memory returns it with its exit code.\<close>

definition cli_reviewer_enable ::
  "env \<Rightarrow> pem \<Rightarrow> string \<Rightarrow> nat list \<Rightarrow> path \<Rightarrow> path \<Rightarrow> client_config \<Rightarrow> string list option \<Rightarrow> ('s console, int \<times> client_config) op" where
  "cli_reviewer_enable E P sk ks home cwd c cats =
     (if bad_cats cats then io_ret (1, c)
      else let c' = cats_given cats (c\<lparr>cfg_reviewer_mode := JBool True\<rparr>) in
        io_bind (exit_code (on_files
          (io_bind (own_identity E P sk ks cwd c') (\<lambda>_. config_save E c' (default_config_file home))))) (\<lambda>code.
        if code \<noteq> 0 then io_ret (code, c')
        else io_bind (io_lift (joinable (cfg_categories c'))) (\<lambda>_. io_ret (0, c'))))"

definition cli_reviewer_disable :: "env \<Rightarrow> path \<Rightarrow> client_config \<Rightarrow> ('s console, int \<times> client_config) op" where
  "cli_reviewer_disable E home c =
     (if \<not> truthy (cfg_reviewer_mode c) then io_ret (0, c)
      else let c' = c\<lparr>cfg_reviewer_mode := JBool False\<rparr> in
        io_bind (exit_code (on_files (config_save E c' (default_config_file home)))) (\<lambda>code. io_ret (code, c')))"

definition cli_reviewer_status :: "pem \<Rightarrow> path \<Rightarrow> client_config \<Rightarrow> ('s console, int) op" where
  "cli_reviewer_status P cwd c =
     io_bind (on_files (load_reviewer_pubkey P cwd c)) (\<lambda>_.
     io_bind (io_lift (joinable (cfg_categories c))) (\<lambda>_. io_ret 0))"

definition cli_language :: "env \<Rightarrow> path \<Rightarrow> client_config \<Rightarrow> string \<Rightarrow> ('s console, int \<times> client_config) op" where
  "cli_language E home c code =
     (if code \<notin> set supported_languages then io_ret (1, c)
      else let c' = c\<lparr>cfg_language := JStr code\<rparr> in
        io_bind (exit_code (on_files (config_save E c' (default_config_file home)))) (\<lambda>r. io_ret (r, c')))"

section \<open>Network\<close>

definition cli_browse :: "env \<Rightarrow> 's machine \<Rightarrow> display \<Rightarrow> settings \<Rightarrow> ('s console, int) op" where
  "cli_browse E K V S =
     exit_code (io_bind (in_session (list_registered_sites E K S)) (\<lambda>records. shown (print_browse_table E V records)))"

text \<open>The one-time offer of service.py with the user's next line for its answer.\<close>

definition make_offer :: "env \<Rightarrow> host \<Rightarrow> bool \<Rightarrow> client_config \<Rightarrow> ('s console, bool \<times> client_config) op" where
  "make_offer E h tty c =
     io_bind (on_files (should_offer E h c)) (\<lambda>(offer, c1).
     if \<not> offer \<or> \<not> tty then io_ret (False, c1)
     else io_bind next_line (\<lambda>answer. on_files (answer_offer E h answer c1)))"

definition cli_fetch ::
  "env \<Rightarrow> 's machine \<Rightarrow> settings \<Rightarrow> client_config \<Rightarrow> host \<Rightarrow> bool \<Rightarrow> int \<Rightarrow> (string list \<Rightarrow> string list) \<Rightarrow> string \<Rightarrow> string option
     \<Rightarrow> ('s console, int) op" where
  "cli_fetch E K S c h tty now order uri naming =
     io_bind (io_opt (in_session (do_fetch E K S now order uri naming False))) (\<lambda>r.
     if r = Some True then io_bind (make_offer E h tty c) (\<lambda>_. io_ret 0) else io_ret 1)"

text \<open>
  The publication and the offer that follows it stand in one \<open>try\<close>: an exception of either decides the exit
  code, and a permission error that is repaired runs both once more.
\<close>

definition cli_publish ::
  "env \<Rightarrow> 's machine \<Rightarrow> settings \<Rightarrow> client_config \<Rightarrow> host \<Rightarrow> bool \<Rightarrow> bool \<Rightarrow> string \<Rightarrow> int \<Rightarrow> string \<Rightarrow> path \<Rightarrow> string list option
     \<Rightarrow> ('s console, int) op" where
  "cli_publish E K S c h tty chown_works lang now uri site cats w =
     (if bad_cats cats \<or> \<not> fexists (pdisk (session w)) site \<or> md_under (pdisk (session w)) site = [] then (Inr 1, w)
      else with_repair (fix_permissions lang chown_works) (\<lambda>e. io_ret 1)
        (io_bind (in_session (do_publish E K S now uri site (case cats of None \<Rightarrow> [] | Some cs \<Rightarrow> cs))) (\<lambda>_.
         make_offer E h tty c)) w)"

definition cli_inbox :: "env \<Rightarrow> 's machine \<Rightarrow> settings \<Rightarrow> int \<Rightarrow> ('s console, int) op" where
  "cli_inbox E K S now = exit_code (in_session (do_list_inbox E K S now))"

definition cli_review :: "env \<Rightarrow> 's machine \<Rightarrow> settings \<Rightarrow> int \<Rightarrow> string \<Rightarrow> string \<Rightarrow> string \<Rightarrow> ('s console, int) op" where
  "cli_review E K S now content_key verdict comment = exit_code (in_session (do_attach_review E K S now content_key verdict comment))"

text \<open>The seeder from its start to the signal that stops it; its loops are those of the peer and the daemon.\<close>

definition cli_serve ::
  "env \<Rightarrow> 's machine \<Rightarrow> settings \<Rightarrow> client_config \<Rightarrow> path \<Rightarrow> int \<Rightarrow> (string list \<Rightarrow> string list) \<Rightarrow> string list
     \<Rightarrow> ('s console, int option) op" where
  "cli_serve E K S c cwd now order host_addrs =
     with_sites E cwd c (\<lambda>sites.
     io_bind (io_lift (require_naming S)) (\<lambda>_. exit_code (in_session (do_serve E K S now order host_addrs))))"

section \<open>The service\<close>

definition cli_service :: "host \<Rightarrow> string \<Rightarrow> ('s console, int) op" where
  "cli_service h action =
     (if get_platform h = ''unsupported'' then io_ret 1
      else if action = ''status'' then io_bind (on_files (svc_status h)) (\<lambda>_. io_ret 0)
      else if action = ''install'' then io_bind (on_files (svc_install h)) (\<lambda>(ok, p, msg). io_ret (if ok then 0 else 1))
      else if action = ''uninstall'' then io_bind (on_files (svc_uninstall h)) (\<lambda>(ok, msg). io_ret (if ok then 0 else 1))
      else io_ret 1)"

section \<open>Settings survive\<close>

text \<open>Changing one setting keeps the others, in memory and on disk.\<close>

lemma cli_language_saved:
  assumes "cli_language E home c code w = (Inr (0, c'), w')" and "config_wf (c\<lparr>cfg_language := JStr code\<rparr>)"
  shows "c' = c\<lparr>cfg_language := JStr code\<rparr> \<and>
    config_load E home (default_config_file home) (pdisk (session w')) = (Inr (Some c'), pdisk (session w'))"
proof -
  obtain u where "config_save E (c\<lparr>cfg_language := JStr code\<rparr>) (default_config_file home) (pdisk (session w)) =
        (Inr u, pdisk (session w'))"
      and "c' = c\<lparr>cfg_language := JStr code\<rparr>"
    using assms(1) unfolding cli_language_def exit_code_def Let_def
    by (auto simp: io_bind_def io_try_def io_ret_def in_session_def on_disk_def split: if_split_asm prod.split_asm sum.split_asm)
  then show ?thesis using saved_config_loads [OF assms(2)] by blast
qed

end
