(* ===== verification/Samples.thy ===== *)
theory Samples
  imports Commands PinStore Selection Trust Taxonomy
begin

text \<open>
  Sample values at which the properties are shown to apply: an environment whose signature scheme meets
  \<open>ed25519_ok\<close> (a signature is the key followed by the message), small disks, and records and servers
  built by the program's own functions.
\<close>

definition demo_env :: env where
  "demo_env = \<lparr>sha256 = (\<lambda>s. s), pub_of = (\<lambda>sk. sk), ed_sign = (\<lambda>sk m. sk @ m),
     ed_verify = (\<lambda>pk s m. s = pk @ m), pk_accepts = (\<lambda>_. True), float_repr = (\<lambda>_. ''0.0''),
     float_parse = (\<lambda>_. None), str_of_other = (\<lambda>_. [])\<rparr>"

lemma demo_env_ok: "ed25519_ok demo_env"
  by (simp add: ed25519_ok_def demo_env_def)

lemma demo_env_inj: "inj (sha256 demo_env)"
  by (simp add: demo_env_def inj_on_def)

lemma demo_env_simps [simp]: "pk_accepts demo_env pk" "pub_of demo_env sk = sk" "ed_sign demo_env sk m = sk @ m"
    "sha256 demo_env s = s"
  by (simp_all add: demo_env_def)

definition demo_disk :: fsys where
  "demo_disk = \<lparr>nodes = [([''site''], Dir), ([''site'', ''a.md''], File ''# a'')], faults = []\<rparr>"

definition empty_disk :: fsys where
  "empty_disk = \<lparr>nodes = [], faults = []\<rparr>"

lemma empty_disk_simps [simp]:
  "nodes empty_disk = []" "faults empty_disk = []" "at_path empty_disk p = (if p = [] then Some Dir else None)"
  "fs_wf empty_disk"
  by (simp_all add: empty_disk_def at_path_def fs_wf_def)

text \<open>A file can be saved at the root of an empty disk.\<close>

lemma demo_room: "can_save ext [x] empty_disk"
  by (simp add: can_save_def is_directory_def)

lemma save_empty_disk: "ext \<noteq> [] \<Longrightarrow> \<exists>fs'. save_atomic ext [''n''] text empty_disk = (Inr (), fs')"
  by (rule save_atomic_ok [OF demo_room])

section \<open>A name server\<close>

definition empty_server :: server where
  "empty_server = \<lparr>name_recs = [], reviewer_recs = Some [], assignments = Some [], attachments = Some [],
     strict_reviews = True, names_path = [''n''], reviewers_path = [''r''], assignments_path = [''a''],
     attachments_path = [''t''], disk = empty_disk\<rparr>"

lemma empty_server_inv: "server_inv E empty_server"
  by (simp add: server_inv_def empty_server_def entry_at_def slot_of_def)

definition demo_name :: json where
  "demo_name = JDict (build_name_record 100 ''site'' ''ann'' (public_key_to_b64 ''k'') ''ref'' None)"

definition demo_sig :: string where
  "demo_sig = b64_encode (''k'' @ canonical_json demo_env demo_name)"

definition demo_entry :: entry where
  "demo_entry = (sort_keys demo_name, JStr demo_sig)"

lemma demo_signed: "sign_name_record demo_env demo_name ''k'' = Inr demo_sig" "demo_sig \<noteq> []"
proof -
  show "sign_name_record demo_env demo_name ''k'' = Inr demo_sig"
    by (simp add: sign_name_record_def sign_by_Inr demo_name_def build_name_record_def demo_sig_def)
  have "length demo_sig \<noteq> 0" by (simp add: demo_sig_def length_b64_encode)
  then show "demo_sig \<noteq> []" by auto
qed

lemma demo_entry_facts: "field_of ''public_key'' demo_entry = JStr (public_key_to_b64 ''k'')" "stamp_of demo_entry = 100"
  by (simp_all add: demo_entry_def demo_name_def build_name_record_def field_of_def stamp_of_def ts_of_def get_or_def)

text \<open>The server after one registration over the wire, and after a request that never arrives.\<close>

lemma demo_name_json: "jwf demo_name" "no_float demo_name" "jsize demo_name \<le> 500"
  using length_small_int [of 100] utf8_public_key [of "''k''"]
  by (simp_all add: demo_name_def build_name_record_def utf8_ascii public_key_to_b64_def)

lemma demo_request_small: "jsize (JDict (signed_request ''register'' demo_name (JStr demo_sig))) \<le> 65536"
proof -
  have "length (canonical_json demo_env demo_name) \<le> 500"
    using length_canonical [OF demo_name_json(1,2), of demo_env] demo_name_json(3) by simp
  then have "length demo_sig \<le> 700" by (simp add: demo_sig_def length_b64_encode)
  then show ?thesis using demo_name_json(3) by (simp add: signed_request_def)
qed

lemma demo_registered:
  "\<exists>fs'. client_register demo_env (server_end demo_env 110) demo_name (JStr demo_sig) empty_server =
    (Inr (JDict [(''type'', JStr ''ok''), (''uri'', JStr ''site'')]),
     empty_server\<lparr>name_recs := [(JStr ''site'', demo_entry)], disk := fs'\<rparr>)"
proof -
  obtain fs' where "save_atomic ''.tmp'' [''n'']
      (dumps_indent_sorted demo_env (entries_json demo_env [(JStr ''site'', demo_entry)])) empty_disk = (Inr (), fs')"
    using save_empty_disk [of "''.tmp''"] by fastforce
  then have s: "save_entries demo_env (names_path empty_server) [(JStr ''site'', demo_entry)] (disk empty_server) = (Inr (), fs')"
    by (simp add: save_entries_def save_checked_def keys_sortable_def empty_server_def)
  have u: "uri_ok ''site''" by (simp add: uri_ok_def uri_char_def is_alnum_def is_digit_def contains_sub_def Let_def)
  have st: "name_store_set (name_recs empty_server) (JStr ''site'') (fst demo_entry) (snd demo_entry) =
      Inr ((True, []), [(JStr ''site'', demo_entry)])"
    by (simp add: name_store_set_def empty_server_def)
  have n: "demo_name = JDict (build_name_record 100 ''site'' ''ann'' (public_key_to_b64 (pub_of demo_env ''k'')) ''ref'' None)"
    by (simp add: demo_name_def)
  have "client_register demo_env (server_end demo_env 110) demo_name (JStr demo_sig) empty_server =
    (Inr (JDict [(''type'', JStr ''ok''), (''uri'', JStr ''site'')]),
     empty_server\<lparr>name_recs := [(JStr ''site'', demo_entry)], disk := fs'\<rparr>)"
    by (rule register_served [OF demo_env_ok u _ _ _ n demo_signed demo_request_small _ st s])
      (simp_all add: demo_entry_def utf8_ascii)
  then show ?thesis by blast
qed

text \<open>The server after that registration.\<close>

definition demo_server :: server where
  "demo_server = snd (client_register demo_env (server_end demo_env 110) demo_name (JStr demo_sig) empty_server)"

lemma demo_server_facts:
  "name_recs demo_server = [(JStr ''site'', demo_entry)]" "strict_reviews demo_server"
  using demo_registered by (auto simp: demo_server_def empty_server_def)

lemma demo_server_run: "server_run demo_env empty_server demo_server"
proof -
  obtain r where "client_register demo_env (server_end demo_env 110) demo_name (JStr demo_sig) empty_server = (r, demo_server)"
    by (simp add: demo_server_def prod_eq_iff)
  then show ?thesis unfolding client_register_def by (rule rpc_run [OF _ server_run.start])
qed

text \<open>A client that sends nothing is answered, and the server goes on as it was.\<close>

lemma silent_client: "serves E srv srv"
  by (rule serves.serve [where now = 0 and chunks = None and resp = "err_resp ''empty, oversized or malformed request''"])
    (simp add: handle_stream_def)

lemma silent_run: "server_run E srv srv"
  by (rule server_run.again [OF server_run.start silent_client])

text \<open>A server with strict reviews that holds an opt-in, an assignment and the review that answers it.\<close>

definition demo_signature :: "string \<Rightarrow> jdict \<Rightarrow> json" where
  "demo_signature sk d = JStr (b64_encode (sk @ canonical_json demo_env (JDict d)))"

lemma demo_signature_valid:
  "map_of d kf = Some (JStr (public_key_to_b64 sk)) \<Longrightarrow> sig_valid demo_env kf (JDict d) (demo_signature sk d)"
  unfolding demo_signature_def by (rule sign_by_valid [OF demo_env_ok]) (simp add: sign_by_Inr)

definition demo_ck :: string where
  "demo_ck = compute_content_key demo_env (JStr ''site'') (JStr (public_key_to_b64 ''k''))"

definition demo_opt_in :: jdict where
  "demo_opt_in = [(''public_key'', JStr (public_key_to_b64 ''r'')), (''peer_id'', JStr ''p''), (''addrs'', JList []),
     (''categories'', JList [JStr ''other'']), (''timestamp'', JInt 90)]"

definition demo_assignment :: jdict where
  "demo_assignment = [(''uri'', JStr ''site''), (''content_key'', JStr demo_ck),
     (''publisher_public_key'', JStr (public_key_to_b64 ''k'')),
     (''reviewer_public_keys'', JList [JStr (public_key_to_b64 ''r'')]), (''deadline'', JInt 200), (''timestamp'', JInt 100)]"

definition demo_review :: jdict where
  "demo_review = [(''content_key'', JStr demo_ck), (''reviewer_public_key'', JStr (public_key_to_b64 ''r'')),
     (''verdict'', JStr ''ok''), (''comment'', JStr ''fine''), (''timestamp'', JInt 150)]"

definition demo_strict :: server where
  "demo_strict = empty_server\<lparr>
     reviewer_recs := Some [(JStr (public_key_to_b64 ''r''), (JDict demo_opt_in, demo_signature ''r'' demo_opt_in))],
     assignments := Some [(JStr (public_key_to_b64 ''r''), [(JStr demo_ck, (JDict demo_assignment, demo_signature ''k'' demo_assignment))])],
     attachments := Some [(JStr demo_ck, [(JStr (public_key_to_b64 ''r''), (JDict demo_review, demo_signature ''r'' demo_review))])]\<rparr>"

lemma demo_good:
  "good_reviewer demo_env (JStr (public_key_to_b64 ''r'')) (JDict demo_opt_in, demo_signature ''r'' demo_opt_in)"
  "good_assignment demo_env (JStr (public_key_to_b64 ''r'')) (JStr demo_ck) (JDict demo_assignment, demo_signature ''k'' demo_assignment)"
  "good_review demo_env (JStr demo_ck) (JStr (public_key_to_b64 ''r'')) (JDict demo_review, demo_signature ''r'' demo_review)"
  subgoal
    using demo_signature_valid [of demo_opt_in "''public_key''" "''r''"]
    by (simp add: good_reviewer_def demo_opt_in_def opt_in_wf_def opt_in_fields_def)
  subgoal
    using demo_signature_valid [of demo_assignment "''publisher_public_key''" "''k''"]
    by (simp add: good_assignment_def demo_assignment_def assignment_wf_def assignment_fields_def get_or_def demo_ck_def)
      (rule exI [of _ "[public_key_to_b64 ''r'']"], simp)
  subgoal
    using demo_signature_valid [of demo_review "''reviewer_public_key''" "''r''"]
    by (simp add: good_review_def demo_review_def review_wf_def review_fields_def valid_verdicts_def)
  done

lemma demo_strict_inv: "server_inv demo_env demo_strict"
  by (rule server_invI)
    (auto simp: demo_strict_def empty_server_def demo_good entry_at_def slot_of_def split: if_split_asm)

text \<open>A server whose reviewer has no assignment yet, and the posting of one.\<close>

definition demo_reviewers :: server where
  "demo_reviewers = demo_strict\<lparr>assignments := Some [], attachments := Some []\<rparr>"

definition demo_posting :: jdict where
  "demo_posting = signed_request ''post_assignment'' (JDict demo_assignment) (demo_signature ''k'' demo_assignment)"

lemma demo_posting_record: "msg_record demo_posting = JDict demo_assignment"
  by (simp add: demo_posting_def signed_request_def msg_record_def get_or_def json_or_def demo_assignment_def)

lemma demo_posted:
  "\<exists>srv'. handle_post_assignment demo_env 110 demo_posting demo_reviewers =
    (Inr (JDict [(''type'', JStr ''ok''), (''content_key'', JStr demo_ck)]), srv')"
proof -
  let ?e = "(JDict demo_assignment, demo_signature ''k'' demo_assignment)"
  let ?ib = "[(JStr (public_key_to_b64 ''r''), [(JStr demo_ck, ?e)])]"
  have ck: "demo_ck \<noteq> []" by (simp add: demo_ck_def compute_content_key_def hexdigest_def)
  have sig: "truthy (demo_signature ''k'' demo_assignment)"
  proof -
    have "length (b64_encode (''k'' @ canonical_json demo_env (JDict demo_assignment))) \<noteq> 0" by (simp add: length_b64_encode)
    then show ?thesis by (auto simp: demo_signature_def)
  qed
  have rec: "msg_record demo_posting = JDict demo_assignment" "msg_signature demo_posting = demo_signature ''k'' demo_assignment"
    by (simp_all add: demo_posting_record) (simp add: demo_posting_def signed_request_def msg_signature_def get_or_def)
  have fields: "map_of demo_assignment ''content_key'' = Some (JStr demo_ck)" "map_of demo_assignment ''timestamp'' = Some (JInt 100)"
      "map_of demo_assignment ''reviewer_public_keys'' = Some (JList [JStr (public_key_to_b64 ''r'')])"
    by (simp_all add: demo_assignment_def)
  have "assignment_wf demo_env demo_assignment" "sig_valid demo_env ''publisher_public_key'' (JDict demo_assignment) (demo_signature ''k'' demo_assignment)"
    using demo_good(2) by (auto simp: good_assignment_def)
  then have v: "verify_review_assignment demo_env 110 (Some max_review_drift_seconds) (JDict demo_assignment) (demo_signature ''k'' demo_assignment) = Inr (True, [])"
    using assignment.accepts_iff fields(2) by (auto simp: fresh_Some max_review_drift_seconds_def)
  have chk: "check_assignment_reviewers demo_reviewers (JDict demo_assignment) = Inr []"
    by (simp add: check_assignment_reviewers_def get_or_def fields json_or_def max_reviewers_per_assignment_def demo_reviewers_def demo_strict_def)
  have add: "assignment_store_add [] (JDict demo_assignment) (demo_signature ''k'' demo_assignment) = (Inr (True, []), ?ib)"
    using ck by (simp add: assignment_store_add_def get_or_def fields json_or_def ts_of_def assign_one_def entry_at_def slot_of_def
        set_default_def put_slot_def)
  obtain fs' where "save_inbox demo_env [''a''] ?ib empty_disk = (Inr (), fs')"
    using save_inbox_ok [OF demo_room, of ?ib] by (auto simp: keys_sortable_def)
  moreover have "demo_assignment \<noteq> []" by (simp add: demo_assignment_def)
  moreover have "assignments demo_reviewers = Some []" "assignments_path demo_reviewers = [''a'']" "disk demo_reviewers = empty_disk"
    by (simp_all add: demo_reviewers_def demo_strict_def empty_server_def)
  ultimately show ?thesis
    using sig v chk add by (simp add: handle_post_assignment_def rec get_or_def fields sliceable_def run_disk_def Let_def)
qed

section \<open>A pin\<close>

text \<open>A pin on disk, and its update.\<close>

definition demo_pin :: jdict where
  "demo_pin = [(''author'', JStr ''ann''), (''first_seen'', JInt 100), (''last_seen'', JInt 100), (''public_key'', JStr ''k''),
     (''record_timestamp'', JInt 90)]"

definition demo_pin_disk :: fsys where
  "demo_pin_disk = \<lparr>nodes = [([''n''], File (dumps_indent_sorted demo_env (JDict [(''site'', JDict demo_pin)])))], faults = []\<rparr>"

lemma demo_pinned:
  "load_pinstore demo_env [''n''] demo_pin_disk = (Inr (JDict [(''site'', JDict demo_pin)]), demo_pin_disk)"
  "can_save ext [''n''] demo_pin_disk"
proof -
  have a: "at_path demo_pin_disk [''n''] = Some (File (dumps_indent_sorted demo_env (JDict [(''site'', JDict demo_pin)])))"
    by (simp add: demo_pin_disk_def at_path_def)
  have wf: "jwf (JDict [(''site'', JDict demo_pin)])" "no_float (JDict [(''site'', JDict demo_pin)])"
    by (simp_all add: demo_pin_def utf8_ascii)
  have srt: "sort_keys (JDict [(''site'', JDict demo_pin)]) = JDict [(''site'', JDict demo_pin)]"
    by (simp add: demo_pin_def)
  show "load_pinstore demo_env [''n''] demo_pin_disk = (Inr (JDict [(''site'', JDict demo_pin)]), demo_pin_disk)"
    using read_dumped [OF wf a] a srt by (simp add: load_pinstore_def fexists_def io_bind_def io_lift_def)
  show "can_save ext [''n''] demo_pin_disk"
    by (simp add: can_save_def is_directory_def demo_pin_disk_def at_path_def)
qed

lemma demo_pin_update:
  "\<exists>fs'. update_pin_last_seen demo_env 7 200 ''site'' [''n''] (Some 80) demo_pin_disk = (Inr (), fs')"
proof -
  obtain v where v: "raise_mark 200 (Some 80) (JDict demo_pin) = Inr v" by (simp add: raise_mark_def demo_pin_def get_or_def)
  obtain fs' where "save_pinstore demo_env 7 (JDict [(''site'', v)]) [''n''] demo_pin_disk = (Inr (), fs')"
    using save_atomic_ok [of "''.tmp-'' @ str_of_nat 7" "[''n'']" demo_pin_disk] demo_pinned(2) by (auto simp: save_pinstore_def)
  then show ?thesis
    by (simp add: update_pin_last_seen_def io_bind_def demo_pinned(1) io_lift_def v)
qed

section \<open>A site and a bundle\<close>

definition demo_payload :: json where
  "demo_payload = JDict [(''manifest'', JDict [(''files'', JList [JDict [(''path'', JStr ''a.md''), (''hash'', JStr (hexdigest demo_env ''# a''))]])]),
     (''signature'', JStr ''c2ln''), (''files'', JDict [(''a.md'', JStr ''# a'')])]"

lemma demo_paths: "rel_ok ''a.md''" "is_md ''a.md''" "validate_path base (JStr ''a.md'') = Inr (base @ [''a.md''])"
    "rel_posix [''site''] [''site'', ''a.md''] = ''a.md''" "split_on (CHR ''/'') ''a.md'' = [''a.md'']"
proof -
  show r: "rel_ok ''a.md''" by (simp add: rel_ok_def norm_seg_def)
  show "is_md ''a.md''" unfolding is_md_def suffix_def by (rule exI [of _ "''a''"]) simp
  show "validate_path base (JStr ''a.md'') = Inr (base @ [''a.md''])" using r by (simp add: validate_path_iff)
qed (simp_all add: rel_posix_def)

lemma demo_payload_accepted: "validate_bundle_payload demo_env demo_payload out = Inr [(''a.md'', ''# a'')]"
  by (simp add: validate_bundle_payload_def demo_payload_def get_or_def max_bundle_files_def max_bundle_total_size_def demo_paths)

lemma demo_md: "md_under demo_disk [''site''] = [[''site'', ''a.md'']]"
  by (simp add: md_under_def demo_disk_def demo_paths strict_prefix_def)

lemma demo_disk_at: "at_path demo_disk [''site'', ''a.md''] = Some (File ''# a'')" "at_path demo_disk [''site''] = Some Dir"
  by (simp_all add: demo_disk_def at_path_def)

lemma demo_disk_wf: "fs_wf demo_disk"
  by (auto simp: fs_wf_def demo_disk_def at_path_def split: if_split_asm)

lemma demo_created: "\<exists>m. create_manifest demo_env 100 [''site''] ''site'' ''k'' 1 60 [] demo_disk = (Inr m, demo_disk)"
  unfolding create_manifest_Inr
  by (simp add: demo_md list_all2_Cons1 category_slugs_def demo_disk_at)

definition demo_manifest :: json where
  "demo_manifest = (case create_manifest demo_env 100 [''site''] ''site'' ''k'' 1 60 [] demo_disk of (Inr m, fs) \<Rightarrow> m | (Inl e, fs) \<Rightarrow> JNull)"

lemma demo_manifest_created: "create_manifest demo_env 100 [''site''] ''site'' ''k'' 1 60 [] demo_disk = (Inr demo_manifest, demo_disk)"
  using demo_created by (auto simp: demo_manifest_def)

end
