(* ===== verification/NetworkSamples.thy ===== *)
theory NetworkSamples
  imports Samples
begin

text \<open>
  Sample runs of the peer: a fetch that succeeds from the resolution of the name to the cached reviews, and
  passes of a reviewer's daemon.
\<close>

section \<open>A far end that always gives the same answer\<close>

definition same_answer :: "json \<Rightarrow> 's far" where
  "same_answer answer ws s = (send_framed_json demo_env answer max_msg_size, s)"

lemma same_answer_rpc:
  assumes "jwf (JDict m)" "no_float (JDict m)" "jsize (JDict m) \<le> 1000000"
    and "jwf (JDict d)" "no_float (JDict d)" "sort_keys (JDict d) = JDict d" "jsize (JDict d) \<le> 1000000"
  shows "rpc demo_env (same_answer (JDict d)) m s = (Inr (JDict d), s)"
proof -
  obtain ws where ws: "send_framed_json demo_env (JDict m) max_msg_size = Inr ws"
    using send_small [of "JDict m" max_msg_size demo_env] assms by (auto simp: max_msg_size_def)
  obtain cs where cs: "send_framed_json demo_env (JDict d) max_msg_size = Inr cs"
    using send_small [of "JDict d" max_msg_size demo_env] assms(4,5,7) by (auto simp: max_msg_size_def)
  have "fst (recv_framed_json demo_env cs max_msg_size) = Inr (JDict d)"
    using sent_is_received [OF assms(4,5) cs] assms(6) by simp
  then show ?thesis by (simp add: rpc_def ws same_answer_def cs)
qed

section \<open>A fetch\<close>

definition fetch_md :: jdict where
  "fetch_md = [(''file_count'', JInt 1),
     (''files'', JList [JDict [(''hash'', JStr (hexdigest demo_env ''# a'')), (''path'', JStr ''a.md'')]]),
     (''public_key'', JStr (public_key_to_b64 ''k'')), (''total_size'', JInt 3), (''uri'', JStr ''site'')]"

definition fetch_sig :: string where
  "fetch_sig = b64_encode (''k'' @ canonical_json demo_env (JDict fetch_md))"

definition fetch_rd :: jdict where
  "fetch_rd = [(''author'', JStr ''ann''), (''manifest_ref'', JStr (compute_manifest_ref demo_env (JDict fetch_md))),
     (''public_key'', JStr (public_key_to_b64 ''k'')), (''timestamp'', JInt 100), (''uri'', JStr ''site'')]"

definition fetch_bundle :: json where
  "fetch_bundle = JDict [(''files'', JDict [(''a.md'', JStr ''# a'')]), (''manifest'', JDict fetch_md),
     (''signature'', JStr fetch_sig), (''type'', JStr ''bundle'')]"

definition fetch_answer :: json where
  "fetch_answer = JDict [(''record'', JDict fetch_rd), (''signature'', demo_signature ''k'' fetch_rd), (''type'', JStr ''record'')]"

lemma length_hexdigest: "length (hexdigest E b) = 2 * length (sha256 E b)"
  by (simp add: hexdigest_def length_concat comp_def sum_list_triv)

lemma fetch_md_json: "jwf (JDict fetch_md)" "no_float (JDict fetch_md)" "sort_keys (JDict fetch_md) = JDict fetch_md"
  by (simp_all add: fetch_md_def utf8_ascii)

lemma fetch_md_size: "jsize (JDict fetch_md) \<le> 500"
  by (simp add: fetch_md_def length_hexdigest public_key_to_b64_def length_b64_encode str_of_int_def str_of_nat.simps)

lemma fetch_md_length: "length (canonical_json demo_env (JDict fetch_md)) \<le> 500"
  using length_canonical [OF fetch_md_json(1,2), of demo_env] fetch_md_size by simp

lemma fetch_ref_length: "length (compute_manifest_ref demo_env (JDict fetch_md)) \<le> 1000" "utf8 (compute_manifest_ref demo_env (JDict fetch_md))"
  using fetch_md_length by (simp_all add: compute_manifest_ref_def length_hexdigest)

lemma fetch_rd_json: "jwf (JDict fetch_rd)" "no_float (JDict fetch_rd)" "sort_keys (JDict fetch_rd) = JDict fetch_rd"
  by (simp_all add: fetch_rd_def utf8_ascii fetch_ref_length(2))

lemma fetch_rd_size: "jsize (JDict fetch_rd) \<le> 7000"
  using fetch_ref_length(1)
  by (simp add: fetch_rd_def public_key_to_b64_def length_b64_encode str_of_int_def str_of_nat.simps)

lemma fetch_answer_json: "jwf fetch_answer" "no_float fetch_answer" "sort_keys fetch_answer = fetch_answer"
  using fetch_rd_json by (simp_all add: fetch_answer_def demo_signature_def utf8_ascii)

lemma fetch_answer_size: "jsize fetch_answer \<le> 1000000"
proof -
  have "length (canonical_json demo_env (JDict fetch_rd)) \<le> 7000"
    using length_canonical [OF fetch_rd_json(1,2), of demo_env] fetch_rd_size by simp
  then show ?thesis using fetch_rd_size by (simp add: fetch_answer_def demo_signature_def length_b64_encode)
qed

lemma fetch_bundle_json: "jwf fetch_bundle" "no_float fetch_bundle" "sort_keys fetch_bundle = fetch_bundle" "jsize fetch_bundle \<le> 100000"
  using fetch_md_json fetch_md_size fetch_md_length
  by (simp_all add: fetch_bundle_def fetch_sig_def utf8_ascii length_b64_encode)

text \<open>The naming server answers every request with the record; the seeder always sends the bundle.\<close>

definition fetch_far :: "unit far" where
  "fetch_far = same_answer fetch_answer"

definition fetch_conf :: "unit pconf" where
  "fetch_conf = \<lparr>naming_end = Some fetch_far, own_id = ''me'', data_dir = [''d''], pins_path = [''p''], dht_provide = None,
     dht_from_naming = (\<lambda>_. Inr []), dht_find = (\<lambda>_. Inr []),
     dial = (\<lambda>addr ws. send_framed_json demo_env fetch_bundle max_bundle_msg_size), slow = (\<lambda>_. False),
     codec = \<lparr>private_pem = (\<lambda>pw k. k), public_pem = (\<lambda>k. k), load_private_pem = (\<lambda>pw b. Inr b), load_public_pem = (\<lambda>b. Inr b)\<rparr>,
     process_id = 0\<rparr>"

definition fetch_start :: "unit peer" where
  "fetch_start = \<lparr>far_state = (), pdisk = empty_disk, psites = [], provided = []\<rparr>"

lemma fetch_rpc:
  assumes "jwf (JDict m)" "no_float (JDict m)" "jsize (JDict m) \<le> 1000000"
  shows "rpc demo_env fetch_far m s = (Inr fetch_answer, s)"
proof -
  obtain d where d: "fetch_answer = JDict d" by (simp add: fetch_answer_def)
  show ?thesis
    unfolding fetch_far_def d
    by (rule same_answer_rpc [OF assms]) (use fetch_answer_json fetch_answer_size in \<open>simp_all add: d\<close>)
qed

lemma fetch_download: "download_one demo_env (dial fetch_conf) ''site'' addr = Inr (Some fetch_bundle)"
proof -
  obtain ws where ws: "send_framed_json demo_env (bundle_request ''get_bundle'' ''site'') max_bundle_msg_size = Inr ws"
    using send_small [of "bundle_request ''get_bundle'' ''site''" max_bundle_msg_size demo_env]
    by (auto simp: max_bundle_msg_size_def bundle_request_def utf8_ascii)
  obtain cs where cs: "send_framed_json demo_env fetch_bundle max_bundle_msg_size = Inr cs"
    using send_small [of fetch_bundle max_bundle_msg_size demo_env] fetch_bundle_json by (auto simp: max_bundle_msg_size_def)
  have "fst (recv_framed_json demo_env cs max_bundle_msg_size) = Inr fetch_bundle"
    using sent_is_received [OF fetch_bundle_json(1,2) cs] fetch_bundle_json(3) by simp
  then show ?thesis by (simp add: download_one_def exchange_def ws cs fetch_conf_def) (simp add: fetch_bundle_def get_or_def)
qed

lemma fetch_payload: "validate_bundle_payload demo_env fetch_bundle out = Inr [(''a.md'', ''# a'')]"
  by (simp add: validate_bundle_payload_def fetch_bundle_def fetch_md_def get_or_def max_bundle_files_def max_bundle_total_size_def demo_paths)

lemma fetch_checked:
  "check_downloaded_bundle demo_env 110 fetch_bundle ''site'' ''k'' (JStr (compute_manifest_ref demo_env (JDict fetch_md))) out = Inr None"
proof -
  have v: "verify_manifest demo_env (JDict fetch_md) (JStr fetch_sig) ''k'' = Inr True"
    using b64_decode_str_encode
    by (auto simp: verify_manifest_True fetch_sig_def fetch_md_def get_or_def demo_env_def)
  show ?thesis
    using v fetch_payload [of out]
    by (simp add: check_downloaded_bundle_def fetch_bundle_def get_or_def) (simp add: fetch_md_def get_or_def is_manifest_expired_def)
qed


lemma fetch_resolved: "resolve_verified demo_env fetch_far ''site'' fetch_start = (Inr (Some (JDict fetch_rd)), fetch_start)"
proof -
  have n: "on_naming (client_resolve demo_env fetch_far ''site'') fetch_start = (Inr fetch_answer, fetch_start)"
    using fetch_rpc [of "[(''type'', JStr ''resolve''), (''uri'', JStr ''site'')]" "()"]
    by (simp add: on_naming_def client_resolve_def utf8_ascii fetch_start_def)
  have wf: "name_record_wf fetch_rd"
    by (simp add: name_record_wf_def fetch_rd_def name_record_fields_def)
  have "sig_valid demo_env ''public_key'' (JDict fetch_rd) (demo_signature ''k'' fetch_rd)"
    by (rule demo_signature_valid) (simp add: fetch_rd_def)
  then have v: "verify_name_record demo_env 0 None (JDict fetch_rd) (demo_signature ''k'' fetch_rd) = Inr (True, [])"
    using wf name_rec.accepts_iff [of demo_env 0 None fetch_rd "demo_signature ''k'' fetch_rd" "[]"] by simp
  show ?thesis
    by (simp add: resolve_verified_def io_bind_def n get_field_def get_item_def fetch_answer_def io_lift_def io_ret_def get_or_def v)
      (simp add: fetch_rd_def)
qed

lemma fetch_picked:
  "pick_bundle demo_env fetch_conf 110 (\<lambda>as. as) ''site'' [''s''] (JDict fetch_rd) fetch_start =
    (Inr (Some (JStr (public_key_to_b64 ''k''), JStr ''ann'', 100, Unknown, fetch_bundle)), fetch_start)"
proof -
  have pins: "load_pinstore demo_env [''p''] empty_disk = (Inr (JDict []), empty_disk)"
    by (simp add: load_pinstore_def fexists_def)
  have dl: "try_download demo_env fetch_conf (\<lambda>as. as)
      (\<lambda>d. check_downloaded_bundle demo_env 110 d ''site'' ''k'' (JStr (compute_manifest_ref demo_env (JDict fetch_md))) [''d'', ''site''])
      ''site'' [''s''] = Some fetch_bundle"
    by (simp add: try_download_def race_result_def attempt_of_def fetch_download try_one_def fetch_checked) (simp add: fetch_conf_def)
  have fields: "py_item (JDict fetch_rd) ''public_key'' = Inr (JStr (public_key_to_b64 ''k''))"
      "py_item (JDict fetch_rd) ''manifest_ref'' = Inr (JStr (compute_manifest_ref demo_env (JDict fetch_md)))"
      "py_get (JDict fetch_rd) ''author'' (JStr ''unknown'') = Inr (JStr ''ann'')" "py_item (JDict fetch_rd) ''timestamp'' = Inr (JInt 100)"
    by (simp_all add: fetch_rd_def get_or_def)
  have conf: "pins_path fetch_conf = [''p'']" "data_dir fetch_conf = [''d'']" by (simp_all add: fetch_conf_def)
  have rp: "read_pins demo_env fetch_conf fetch_start = (Inr (Some (JDict [])), fetch_start)"
    by (simp add: read_pins_def conf io_try_def io_bind_def on_disk_def io_ret_def fetch_start_def pins)
  have ck: "check_pin (JDict []) ''site'' (JStr (public_key_to_b64 ''k'')) (Some 100) = Inr Unknown" by (simp add: check_pin_def get_or_def)
  have bk: "b64_to_public_key demo_env (JStr (public_key_to_b64 ''k'')) = Inr ''k''" by (rule b64_to_public_key_b64) simp
  show ?thesis
    unfolding pick_bundle_def Let_def get_item_def get_field_def fields
    by (simp add: io_bind_def [of "read_pins _ _"] rp ck bk conf dl io_ret_def)
qed

lemma fetch_installed:
  "\<exists>fs. install_bundle demo_env fetch_conf fetch_bundle [''d'', ''site''] fetch_start = (Inr True, fetch_start\<lparr>pdisk := fs\<rparr>) \<and>
    faults fs = [] \<and> nodes fs = [([''d''], Dir), ([''d'', ''site''], Dir), ([''d'', ''site'', ''a.md''], File ''# a''),
      ([''d'', ''site'', ''manifest.json''], File (dumps_indent demo_env (JDict fetch_md))), ([''d'', ''site'', ''manifest.sig''], File fetch_sig)]"
proof -
  have pl: "validate_path [''d'', ''.site.staging-0''] (JStr ''a.md'') = Inr [''d'', ''.site.staging-0'', ''a.md'']"
    using demo_paths(3) [of "[''d'', ''.site.staging-0'']"] by simp
  have items: "py_item fetch_bundle ''manifest'' = Inr (JDict fetch_md)" "py_item fetch_bundle ''signature'' = Inr (JStr fetch_sig)"
    by (simp_all add: fetch_bundle_def)
  show ?thesis
    by (simp add: install_bundle_def on_disk_def fetch_start_def dict_to_bundle_def fetch_payload items pl io_bind_def io_try_def io_lift_def io_ret_def
        staging_of_def str_of_nat_0 fetch_conf_def mkdir_p_def mkdir_step_def mkdir_def is_directory_def fexists_def at_path_def put_def tick_def
        next_fault_def write_payload_def save_bundle_def write_bytes_def swap_into_place_def rename_def rename_allowed_def no_children_def
        move_under_def moved_def empty_disk_def Let_def)
qed


lemma fetch_written: "\<exists>fs. dict_to_bundle demo_env 0 fetch_bundle [''d'', ''site''] empty_disk = (Inr [''d'', ''site''], fs)"
proof -
  obtain fs where i: "install_bundle demo_env fetch_conf fetch_bundle [''d'', ''site''] fetch_start = (Inr True, fetch_start\<lparr>pdisk := fs\<rparr>)"
    using fetch_installed by blast
  obtain r fs1 where d: "dict_to_bundle demo_env 0 fetch_bundle [''d'', ''site''] empty_disk = (r, fs1)" by fastforce
  have "process_id fetch_conf = 0" "pdisk fetch_start = empty_disk" by (simp_all add: fetch_conf_def fetch_start_def)
  then obtain q where "r = Inr q"
    using i d by (cases r) (auto simp: install_bundle_def io_try_def io_bind_def on_disk_def io_ret_def io_raise_def split: if_split_asm)
  then show ?thesis using dict_to_bundle_result [OF _ empty_disk_simps(4) d] d by auto
qed

text \<open>The whole fetch succeeds.\<close>

lemma fetch_succeeds: "\<exists>p'. fetch_site demo_env fetch_conf 110 (\<lambda>as. as) ''site'' [''s''] False fetch_start = (Inr True, p')"
proof -
  obtain fs where inst: "install_bundle demo_env fetch_conf fetch_bundle [''d'', ''site''] fetch_start = (Inr True, fetch_start\<lparr>pdisk := fs\<rparr>)"
      and ff: "faults fs = []" and nd: "nodes fs = [([''d''], Dir), ([''d'', ''site''], Dir), ([''d'', ''site'', ''a.md''], File ''# a''),
      ([''d'', ''site'', ''manifest.json''], File (dumps_indent demo_env (JDict fetch_md))), ([''d'', ''site'', ''manifest.sig''], File fetch_sig)]"
    using fetch_installed by blast
  have md: "md_under fs [''d'', ''site''] = [[''d'', ''site'', ''a.md'']]"
    using nd demo_paths(2) by (simp add: md_under_def strict_prefix_def is_md_def suffix_def)
  have rel: "rel_posix [''d'', ''site''] [''d'', ''site'', ''a.md''] = ''a.md''" by (simp add: rel_posix_def)
  have ver: "verify_files demo_env (JDict fetch_md) [''d'', ''site''] fs = (Inr [], fs)"
    by (simp add: verify_files_def fetch_md_def io_bind_def io_lift_def io_ret_def verify_entry_def demo_paths(3) fexists_def at_path_def nd
        hash_file_def read_bytes_def md rel)
  have conf: "pins_path fetch_conf = [''p'']" "data_dir fetch_conf = [''d'']" "naming_end fetch_conf = Some fetch_far" "process_id fetch_conf = 0"
    by (simp_all add: fetch_conf_def)
  obtain fs2 where pin: "pin_key demo_env 0 110 ''site'' (JStr (public_key_to_b64 ''k'')) (JStr ''ann'') [''p''] (Some 100) fs = (Inr (), fs2)"
      and f2: "faults fs2 = []" and d2: "at_path fs2 [''d'', ''site''] = Some Dir" "at_path fs2 [''d'', ''site'', ''attachments.json''] = None"
    by (simp add: pin_key_def io_bind_def load_pinstore_def fexists_def at_path_def nd io_lift_def get_or_def pin_entry_def set_item.simps save_pinstore_def
        save_atomic_def mkdir_p_def mkdir_step_def write_bytes_def is_directory_def next_fault_def ff put_def tick_def rename_def rename_allowed_def
        no_children_def move_under_def moved_def str_of_nat_0 io_ret_def)
  let ?p2 = "fetch_start\<lparr>pdisk := fs2\<rparr>"
  let ?p3 = "?p2\<lparr>psites := AList.update ''site'' [''d'', ''site''] (psites ?p2)\<rparr>"
  have rpc: "on_naming (client_get_attachments demo_env fetch_far ck) p = (Inr fetch_answer, p)"
    if "utf8 ck" "length ck \<le> 2000" for ck and p :: "unit peer"
    using that fetch_rpc [of "[(''type'', JStr ''get_attachments''), (''content_key'', JStr ck)]" "far_state p"]
    by (simp add: on_naming_def client_get_attachments_def utf8_ascii)
  have ckl: "length (compute_content_key demo_env (JStr ''site'') (JStr (public_key_to_b64 ''k''))) \<le> 2000"
    by (simp add: compute_content_key_def length_hexdigest public_key_to_b64_def length_b64_encode)
  have "\<exists>p4. cache_attachments demo_env fetch_conf ''site'' (JStr (public_key_to_b64 ''k'')) [''d'', ''site''] ?p3 = (Inr (), p4)"
    using rpc [OF utf8_content_key ckl] d2
    by (simp add: cache_attachments_def conf Let_def io_opt_def io_try_def io_bind_def io_ret_def get_field_def io_lift_def on_disk_def write_bytes_def
        fetch_answer_def get_or_def next_fault_def f2 is_directory_def fetch_start_def)
  then obtain p4 where ca: "cache_attachments demo_env fetch_conf ''site'' (JStr (public_key_to_b64 ''k'')) [''d'', ''site''] ?p3 = (Inr (), p4)" ..
  have items: "py_item fetch_bundle ''manifest'' = Inr (JDict fetch_md)" "map_of fetch_md ''file_count'' = Some (JInt 1)"
      "map_of fetch_md ''total_size'' = Some (JInt 3)"
    by (simp_all add: fetch_bundle_def fetch_md_def)
  have "finish_fetch demo_env fetch_conf 110 ''site'' False (JStr (public_key_to_b64 ''k'')) (JStr ''ann'') 100 Unknown fetch_bundle fetch_start = (Inr True, p4)"
    by (simp add: finish_fetch_def Let_def get_item_def items conf io_bind_def [of "install_bundle _ _ _ _"] inst
        io_bind_def [of "on_disk _"] on_disk_def ver remember_key_def io_bind_def [of "remember_key _ _ _ _ _ _ _ _"] pin
        io_bind_def [of "set_site _ _"] set_site_def io_bind_def [of "cache_attachments _ _ _ _ _"] ca [simplified] io_bind_def [of "io_ret _"] io_ret_def)
  then have fv: "fetch_verified demo_env fetch_conf 110 (\<lambda>as. as) ''site'' [''s''] False (JDict fetch_rd) fetch_start = (Inr True, p4)"
    by (simp add: fetch_verified_def io_bind_def fetch_picked)
  have "validate_uri (JStr ''site'') = Inr ''site''"
    by (simp add: validate_uri_iff uri_ok_def uri_char_def is_alnum_def is_digit_def contains_sub_def Let_def)
  then have "fetch_site demo_env fetch_conf 110 (\<lambda>as. as) ''site'' [''s''] False fetch_start = (Inr True, p4)"
    by (simp add: fetch_site_def conf io_bind_def [of "resolve_verified _ _ _"] fetch_resolved fv)
  then show ?thesis ..
qed

lemma fetch_apart: "apart (data_dir fetch_conf @ [u]) (pins_path fetch_conf)"
    "apart (data_dir fetch_conf @ [u]) (butlast (pins_path fetch_conf) @ [last (pins_path fetch_conf) @ ''.tmp-'' @ str_of_nat (process_id fetch_conf)])"
    "fs_wf (pdisk fetch_start)"
  by (simp_all add: apart_def fetch_conf_def fetch_start_def)

section \<open>A reviewer's daemon\<close>

definition inbox_rd :: jdict where
  "inbox_rd = [(''content_key'', JStr demo_ck), (''deadline'', JInt 200), (''publisher_public_key'', JStr (public_key_to_b64 ''k'')),
     (''reviewer_public_keys'', JList [JStr (public_key_to_b64 ''r'')]), (''timestamp'', JInt 100), (''uri'', JStr ''site'')]"

definition inbox_entry :: json where
  "inbox_entry = JDict [(''record'', JDict inbox_rd), (''signature'', demo_signature ''k'' inbox_rd)]"

definition inbox_answer :: "json list \<Rightarrow> jdict" where
  "inbox_answer entries = [(''records'', JList entries), (''type'', JStr ''assignments'')]"

text \<open>The far end's state is the list of content keys the callback has answered for.\<close>

definition demo_daemon :: "json list \<Rightarrow> string list daemon" where
  "demo_daemon entries = \<lparr>inbox_end = same_answer (JDict (inbox_answer entries)), reviewer_key = ''r'',
     reviewer_pub = public_key_to_b64 ''r'', reviewer_peer_id = ''p'', get_addrs = (\<lambda>_. []), fetch_content = (\<lambda>_. io_ret (JDict [])),
     ask_reviewer = (\<lambda>ctx p. (Inr (Some \<lparr>rv_verdict = ''ok'', rv_comment = []\<rparr>), p\<lparr>far_state := far_state p @ [key_of ctx]\<rparr>)),
     cache_path = [''n''], offered_categories = []\<rparr>"

definition daemon_start :: "string list peer" where
  "daemon_start = \<lparr>far_state = [], pdisk = empty_disk, psites = [], provided = []\<rparr>"

lemma demo_daemon_observed: "observes far_state (demo_daemon entries)"
  by (auto simp: observes_def demo_daemon_def same_answer_def quiet_def io_ret_def)

lemma demo_ck_facts: "utf8 demo_ck" "length demo_ck \<le> 2000" "demo_ck \<noteq> []"
  by (simp_all add: demo_ck_def) (simp_all add: compute_content_key_def length_hexdigest public_key_to_b64_def length_b64_encode)

lemma inbox_rd_json: "jwf (JDict inbox_rd)" "no_float (JDict inbox_rd)" "sort_keys (JDict inbox_rd) = JDict inbox_rd"
  by (simp_all add: inbox_rd_def utf8_ascii demo_ck_facts)

lemma inbox_rd_size: "jsize (JDict inbox_rd) \<le> 20000"
  using demo_ck_facts(2)
  by (simp add: inbox_rd_def public_key_to_b64_def length_b64_encode str_of_int_def str_of_nat.simps)

lemma inbox_answer_json:
  assumes "entries = [inbox_entry] \<or> entries = [inbox_entry, JList []]"
  shows "jwf (JDict (inbox_answer entries))" "no_float (JDict (inbox_answer entries))"
    "sort_keys (JDict (inbox_answer entries)) = JDict (inbox_answer entries)" "jsize (JDict (inbox_answer entries)) \<le> 1000000"
proof -
  have "length (canonical_json demo_env (JDict inbox_rd)) \<le> 20000"
    using length_canonical [OF inbox_rd_json(1,2), of demo_env] inbox_rd_size by simp
  then show "jwf (JDict (inbox_answer entries))" "no_float (JDict (inbox_answer entries))"
    "sort_keys (JDict (inbox_answer entries)) = JDict (inbox_answer entries)" "jsize (JDict (inbox_answer entries)) \<le> 1000000"
    using assms inbox_rd_json inbox_rd_size
    by (auto simp: inbox_answer_def inbox_entry_def demo_signature_def utf8_ascii length_b64_encode)
qed

lemma inbox_verified: "verify_review_assignment demo_env now None (JDict inbox_rd) (demo_signature ''k'' inbox_rd) = Inr (True, [])"
proof -
  have "assignment_wf demo_env inbox_rd"
    by (simp add: inbox_rd_def assignment_wf_def assignment_fields_def get_or_def demo_ck_def)
      (rule exI [of _ "[public_key_to_b64 ''r'']"], simp)
  moreover have "sig_valid demo_env ''publisher_public_key'' (JDict inbox_rd) (demo_signature ''k'' inbox_rd)"
    by (rule demo_signature_valid) (simp add: inbox_rd_def)
  ultimately show ?thesis using assignment.accepts_iff [of demo_env now None inbox_rd "demo_signature ''k'' inbox_rd" "[]"] by simp
qed

text \<open>One open assignment is settled.\<close>

lemma inbox_settled:
  assumes "entries = [inbox_entry] \<or> entries = [inbox_entry, JList []]"
  shows "poll_entry demo_env (demo_daemon entries) 110 inbox_entry ([], ch) p = (Inr ([JStr demo_ck], True), p\<lparr>far_state := far_state p @ [demo_ck]\<rparr>)"
proof -
  let ?D = "demo_daemon entries" and ?p = "p\<lparr>far_state := far_state p @ [demo_ck]\<rparr>"
  let ?review = "[(''content_key'', JStr demo_ck), (''reviewer_public_key'', JStr (public_key_to_b64 ''r'')),
        (''verdict'', JStr ''ok''), (''comment'', JStr []), (''timestamp'', JInt 110)]"
  have sg: "sign_review_record demo_env (JDict ?review) ''r'' = Inr (b64_encode (CHR ''r'' # canonical_json demo_env (JDict ?review)))"
    by (simp add: sign_review_record_def sign_by_Inr)
  have rj: "jwf (JDict ?review)" "no_float (JDict ?review)" "jsize (JDict ?review) \<le> 20000"
    using demo_ck_facts
    by (simp_all add: utf8_ascii) (simp add: public_key_to_b64_def length_b64_encode str_of_int_def str_of_nat.simps)
  have "length (canonical_json demo_env (JDict ?review)) \<le> 20000"
    using length_canonical [OF rj(1,2), of demo_env] rj(3) by simp
  then have rpc: "rpc demo_env (same_answer (JDict (inbox_answer entries)))
      (signed_request ''attach_review'' (JDict ?review) (JStr (b64_encode (CHR ''r'' # canonical_json demo_env (JDict ?review))))) s =
      (Inr (JDict (inbox_answer entries)), s)" for s :: "string list"
    using rj inbox_answer_json [OF assms]
    by (intro same_answer_rpc) (simp_all add: signed_request_def utf8_ascii length_b64_encode)
  have D: "inbox_end ?D = same_answer (JDict (inbox_answer entries))" "reviewer_key ?D = ''r''" "reviewer_pub ?D = public_key_to_b64 ''r''"
    by (simp_all add: demo_daemon_def)
  have ty: "py_get (JDict (inbox_answer entries)) ''type'' JNull = Inr (JStr ''assignments'')"
    by (simp add: inbox_answer_def get_or_def)
  have att: "attach_verdict demo_env ?D 110 (JStr demo_ck) \<lparr>rv_verdict = ''ok'', rv_comment = []\<rparr> q = (Inr (), q)" for q
    by (simp add: attach_verdict_def D build_review_record_def valid_verdicts_def text_of_def or_now_def sg io_bind_def io_lift_def io_opt_def io_try_def
        io_ret_def on_naming_def client_attach_review_def rpc get_field_def ty del: py_get.simps)
  have key: "key_of \<lparr>ctx_assignment = JDict inbox_rd, ctx_manifest = m\<rparr> = demo_ck" for m
    by (simp add: key_of_def inbox_rd_def get_or_def)
  have F: "fetch_content ?D a = io_ret (JDict [])"
      "ask_reviewer ?D ctx q = (Inr (Some \<lparr>rv_verdict = ''ok'', rv_comment = []\<rparr>), q\<lparr>far_state := far_state q @ [key_of ctx]\<rparr>)" for a ctx q
    by (simp_all add: demo_daemon_def)
  have "settle demo_env ?D 110 (JDict inbox_rd) (JStr demo_ck) p = (Inr True, ?p)"
    by (simp add: settle_def io_bind_def io_opt_def io_try_def io_ret_def att F key)
  moreover have "map_of inbox_rd ''content_key'' = Some (JStr demo_ck)" "map_of inbox_rd ''deadline'' = Some (JInt 200)"
      "json_or (JDict inbox_rd) (JDict []) = JDict inbox_rd"
    by (simp_all add: inbox_rd_def json_or_def)
  ultimately show ?thesis
    using inbox_verified [of 110]
    by (simp add: poll_entry_def inbox_entry_def get_field_def io_bind_def io_lift_def io_ret_def get_or_def Let_def demo_ck_facts)
qed

text \<open>A pass over that inbox completes; one over an inbox with a malformed entry behind it does not, each time.\<close>

lemma demo_listing:
  assumes "entries = [inbox_entry] \<or> entries = [inbox_entry, JList []]"
  shows "on_naming (client_list_assignments demo_env (inbox_end (demo_daemon entries)) (reviewer_pub (demo_daemon entries))) p =
    (Inr (JDict (inbox_answer entries)), p)"
proof -
  have "length (public_key_to_b64 ''r'') = 4" by (simp add: public_key_to_b64_def length_b64_encode)
  then have "rpc demo_env (same_answer (JDict (inbox_answer entries)))
      [(''type'', JStr ''list_assignments''), (''reviewer_public_key'', JStr (public_key_to_b64 ''r''))] s =
      (Inr (JDict (inbox_answer entries)), s)" for s :: "string list"
    using inbox_answer_json [OF assms] by (intro same_answer_rpc) (simp_all add: utf8_ascii)
  then show ?thesis by (simp add: on_naming_def client_list_assignments_def demo_daemon_def)
qed

lemma demo_cache_path [simp]: "cache_path (demo_daemon entries) = [''n'']"
  by (simp add: demo_daemon_def)

lemma no_cache_yet: "load_cache demo_env [''n''] empty_disk = (Inr no_cache, empty_disk)"
  by (simp add: load_cache_def fexists_def)

lemma demo_pass: "\<exists>p'. poll_once demo_env (demo_daemon [inbox_entry]) 110 daemon_start = (Inr (), p') \<and> far_state p' = [demo_ck]"
proof -
  obtain fs' where "save_cache demo_env [(''processed'', JList [JStr demo_ck])] [''n''] empty_disk = (Inr (), fs')"
    using save_empty_disk [of "''.tmp''"] unfolding save_cache_def by fastforce
  moreover have "pdisk daemon_start = empty_disk" "far_state daemon_start = []" by (simp_all add: daemon_start_def)
  moreover have "truthy (JList [inbox_entry])" by simp
  ultimately show ?thesis
    by (simp add: poll_once_def io_bind_def demo_listing no_cache_yet inbox_settled get_field_def io_lift_def io_ret_def Let_def no_cache_def get_or_def
        json_or_def on_disk_def inbox_answer_def [of "[inbox_entry]"])
qed

lemma demo_poisoned_pass:
  assumes "pdisk p = empty_disk"
  shows "poll_once demo_env (demo_daemon [inbox_entry, JList []]) 110 p = (Inl AttributeError, p\<lparr>far_state := far_state p @ [demo_ck]\<rparr>)"
proof -
  have bad: "poll_entry demo_env D 110 (JList []) st q = (Inl AttributeError, q)" for D :: "string list daemon" and st q
    by (cases st) (simp add: poll_entry_def io_bind_def get_field_def io_lift_def)
  show ?thesis
    using assms
    by (simp add: poll_once_def io_bind_def demo_listing no_cache_yet inbox_settled get_field_def io_lift_def io_ret_def Let_def no_cache_def get_or_def
        json_or_def bad on_disk_def inbox_answer_def [of "[inbox_entry, JList []]"])
qed

section \<open>A review, an opt-in, a copy and a configuration\<close>

definition review_entry :: json where
  "review_entry = JDict [(''record'', JDict demo_review), (''signature'', demo_signature ''r'' demo_review)]"

definition opt_in_entry :: json where
  "opt_in_entry = JDict [(''record'', JDict demo_opt_in), (''signature'', demo_signature ''r'' demo_opt_in)]"

lemma b64_encode_Nil [simp]: "b64_encode s = [] \<longleftrightarrow> s = []"
  using b64_encode_inj [of s "[]"] by simp

lemma one_signal: "\<exists>s. attachments_to_signals demo_env [review_entry] demo_ck = Inr [s]"
proof -
  have "review_wf demo_review" "sig_valid demo_env ''reviewer_public_key'' (JDict demo_review) (demo_signature ''r'' demo_review)"
    using demo_good(3) by (auto simp: good_review_def)
  then have v: "verify_review_record demo_env 0 None (JDict demo_review) (demo_signature ''r'' demo_review) = Inr (True, [])"
    using review.accepts_iff [of demo_env 0 None demo_review "demo_signature ''r'' demo_review" "[]"] by simp
  have f: "map_of demo_review ''content_key'' = Some (JStr demo_ck)" "map_of demo_review ''reviewer_public_key'' = Some (JStr (public_key_to_b64 ''r''))"
      "map_of demo_review ''verdict'' = Some (JStr ''ok'')" "map_of demo_review ''comment'' = Some (JStr ''fine'')"
      "ts_of (JDict demo_review) = Inr 150"
    by (simp_all add: demo_review_def ts_of_def)
  have t: "truthy (demo_signature ''r'' demo_review)" by (simp add: demo_signature_def)
  show ?thesis
    using v f t by (simp add: attachments_to_signals_def signal_of_entry_def review_entry_def get_or_def Let_def text_of_def)
qed

lemma one_reviewer:
  "extract_fresh_reviewer_pool demo_env 100 [opt_in_entry] (Some 50) (Some [JStr ''other'']) = Inr [JStr (public_key_to_b64 ''r'')]"
proof -
  have "opt_in_wf demo_opt_in" "sig_valid demo_env ''public_key'' (JDict demo_opt_in) (demo_signature ''r'' demo_opt_in)"
    using demo_good(1) by (auto simp: good_reviewer_def)
  then have v: "verify_reviewer_opt_in demo_env 0 None (JDict demo_opt_in) (demo_signature ''r'' demo_opt_in) = Inr (True, [])"
    using opt_in.accepts_iff [of demo_env 0 None demo_opt_in "demo_signature ''r'' demo_opt_in" "[]"] by simp
  have f: "map_of demo_opt_in ''public_key'' = Some (JStr (public_key_to_b64 ''r''))" "map_of demo_opt_in ''categories'' = Some (JList [JStr ''other''])"
      "ts_of (JDict demo_opt_in) = Inr 90"
    by (simp_all add: demo_opt_in_def ts_of_def)
  have t: "truthy (demo_signature ''r'' demo_opt_in)" "public_key_to_b64 ''r'' \<noteq> []"
    by (simp_all add: demo_signature_def public_key_to_b64_def)
  show ?thesis
    using v f t by (simp add: extract_fresh_reviewer_pool_def reviewer_of_entry_def opt_in_entry_def get_or_def Let_def
        stale_reviewer_def fits_categories_def json_or_def)
qed

lemma demo_copied:
  "\<exists>fs'. copy_pages [''site''] [''out''] demo_disk = (Inr (), fs') \<and> at_path fs' [''out'', ''a.md''] \<noteq> Some Dir"
proof -
  have e: "copy_pages [''site''] [''out''] demo_disk = io_each (copy_page [''site''] [''out'']) [[''site'', ''a.md'']] demo_disk"
    by (simp add: copy_pages_def demo_md)
  show ?thesis unfolding e
    by (simp add: copy_page_def Let_def io_bind_def io_ret_def mkdir_p_def mkdir_step_def mkdir_def is_directory_def at_path_def
        demo_disk_def fexists_def next_fault_def put_def tick_def read_bytes_def write_bytes_def)
qed

lemma demo_config_saved: "\<exists>fs'. config_save demo_env (new_config [''h''] (JStr ''ann'')) [''n''] empty_disk = (Inr (), fs')"
  by (simp add: config_save_def io_bind_def mkdir_p_def mkdir_step_def io_ret_def write_bytes_def next_fault_def is_directory_def at_path_def empty_disk_def)

lemma demo_config_wf: "config_wf (new_config [''h''] (JStr ''ann''))"
  by (simp add: config_wf_def config_dict_def new_config_def Let_def path_str_def utf8_ascii)

lemma demo_keypair:
  "\<exists>fs'. generate_keypair demo_env (codec fetch_conf) ''k'' [0] [''d''] ''n'' None empty_disk = (Inr ([''d'', ''n.key''], [''d'', ''n.pub'']), fs')"
proof -
  have r: "resolve_in [''d''] ''n.key'' = [''d'', ''n.key'']" "resolve_in [''d''] ''n.pub'' = [''d'', ''n.pub'']"
    by (simp_all add: resolve_in_def resolve_parts_def resolve_step_def)
  show ?thesis
    by (simp add: generate_keypair_def Let_def r io_bind_def io_ret_def write_private_file_complete mkdir_p_def mkdir_step_def mkdir_def
        is_directory_def fexists_def next_fault_def put_def tick_def write_bytes_def empty_disk_def at_path_def)
qed

end
