(* ===== verification/Reseed.thy ===== *)
theory Reseed
  imports PeerFetch
begin

text \<open>
  A reader becomes a seeder: what bundle/serialization.py installed from a download (\<open>dict_to_bundle\<close>) is what
  it ships to the next reader (\<open>bundle_to_dict\<close>), and the next reader's checks accept it again.
\<close>

section \<open>Reading an installed bundle\<close>

lemma io_map_pure:
  assumes "\<forall>x \<in> set xs. f x s = (Inr (g x), s)"
  shows "io_map f xs s = (Inr (map g xs), s)"
  using assms by (induction xs) (simp_all add: io_bind_def io_ret_def)

lemma map_of_fold_keyed:
  "map_of (fold (\<lambda>(k, v). AList.update k v) (map (\<lambda>k. (k, g k)) ks) d) k =
    (if k \<in> set ks then Some (g k) else map_of d k)"
  by (induction ks arbitrary: d) auto

lemma distinct_fold_update:
  "distinct (map fst d) \<Longrightarrow> distinct (map fst (fold (\<lambda>(k, v). AList.update k v) xs d))"
  by (induction xs arbitrary: d) (auto simp: AList.distinct_update)

lemma installed_page:
  assumes "installed E data vs fs out" and "(p, c) \<in> set vs" "distinct (map fst vs)" "is_md p"
  shows "at_path fs (out @ split_on (CHR ''/'') p) = Some (File c)"
proof -
  let ?f = "\<lambda>(p, c). (split_on (CHR ''/'') p, c)"
  have inj: "inj_on (split_on (CHR ''/'')) (fst ` set vs)" using rel_path_inj by (auto simp: inj_on_def)
  have "map fst (map ?f vs) = map (split_on (CHR ''/'')) (map fst vs)" by (simp add: case_prod_beta comp_def)
  then have "distinct (map fst (map ?f vs))"
    using inj assms(3) by (simp only: distinct_map set_map)
  then have "map_of (rev (map ?f vs)) (split_on (CHR ''/'') p) = Some c"
    using assms(2) by (subst map_of_rev_distinct) (auto intro: map_of_is_SomeI)
  moreover have ne: "split_on (CHR ''/'') p \<noteq> [x]" if "\<not> is_md x" for x
  proof
    assume "split_on (CHR ''/'') p = [x]"
    then have "join ''/'' (split_on (CHR ''/'') p) = join ''/'' [x]" by (rule arg_cong)
    then show False using assms(4) that by simp
  qed
  have "split_on (CHR ''/'') p \<noteq> [''manifest.json'']" "split_on (CHR ''/'') p \<noteq> [''manifest.sig'']"
    by (rule ne, simp add: is_md_def suffix_to_prefix)+
  ultimately have "content fs out (split_on (CHR ''/'') p) = Some c"
    using assms(1) by (auto simp: installed_def)
  then show ?thesis by (simp add: content_eq_Some)
qed

text \<open>The signature is read as text and stripped; base64 skips what that may change.\<close>

definition b64_significant :: "char \<Rightarrow> bool" where
  "b64_significant c \<longleftrightarrow> c = CHR ''='' \<or> b64_val c \<noteq> None"

lemma b64_loop_filter: "b64_loop q l p (filter b64_significant s) = b64_loop q l p s"
  by (induction q l p s rule: b64_loop.induct)
    (auto simp: b64_loop.simps(2) b64_significant_def split: option.split)

lemma filter_newlines: "filter b64_significant (universal_newlines s) = filter b64_significant s"
  by (induction s rule: universal_newlines.induct)
    (auto simp: b64_significant_def b64_val_def split: list.split)

lemma filter_dropWhile: "(\<And>c. P c \<Longrightarrow> \<not> Q c) \<Longrightarrow> filter Q (dropWhile P s) = filter Q s"
  by (induction s) auto

lemma ascii_newlines: "\<forall>c \<in> set s. of_char c < (128::nat) \<Longrightarrow> \<forall>c \<in> set (universal_newlines s). of_char c < (128::nat)"
  by (induction s rule: universal_newlines.induct) (auto split: list.split)

lemma b64decode_read_back:
  assumes "b64decode (JStr s) = Inr b"
  shows "b64decode (JStr (strip (universal_newlines s))) = Inr b"
proof -
  have a: "\<forall>c \<in> set s. of_char c < (128::nat)" and l: "b64_loop 0 0 0 s = Inr b"
    using assms by (auto simp: b64_decode_str_def byte_def not_le split: if_split_asm)
  let ?t = "strip (universal_newlines s)"
  note st = strip_ascii [OF ascii_newlines [OF a]]
  have "\<forall>c \<in> set ?t. of_char c < (128::nat)"
    unfolding st using ascii_newlines [OF a] by (auto dest!: set_dropWhileD)
  moreover have sp: "is_space c \<Longrightarrow> \<not> b64_significant c" for c
    by (auto simp: is_space_def b64_significant_def b64_val_def Let_def)
  then have "filter b64_significant ?t = filter b64_significant s"
    unfolding st rev_filter [symmetric] by (simp add: filter_dropWhile rev_filter filter_newlines)
  then have "b64_loop 0 0 0 ?t = Inr b"
    using l b64_loop_filter by metis
  ultimately show ?thesis by (auto simp: b64_decode_str_def byte_def not_le split: if_split)
qed

section \<open>What is served\<close>

definition payload_json :: "(string \<times> string) list \<Rightarrow> jdict" where
  "payload_json vs = map (\<lambda>(p, c). (p, JStr c)) vs"

definition served :: "json \<Rightarrow> string \<Rightarrow> (string \<times> string) list \<Rightarrow> jdict" where
  "served m sg vs = [(''manifest'', m), (''signature'', JStr sg), (''files'', JDict (payload_json vs))]"

lemma jwf_member: "jwf_items d \<Longrightarrow> (k, v) \<in> set d \<Longrightarrow> utf8 k \<and> jwf v"
  by (induction d) auto

lemma payload_text:
  assumes "jwf data" and "py_item data ''files'' = Inr (JDict (payload_json vs))"
  shows "distinct (map fst vs)" "(p, c) \<in> set vs \<Longrightarrow> utf8 p \<and> utf8 c"
proof -
  obtain d where d: "data = JDict d" "map_of d ''files'' = Some (JDict (payload_json vs))"
    using assms(2) by (auto simp: py_item_Inr_iff)
  have w: "jwf (JDict (payload_json vs))"
    using jwf_member [OF _ map_of_SomeD [OF d(2)]] assms(1) d(1) by simp
  have m: "map fst (payload_json vs) = map fst vs" by (simp add: payload_json_def case_prod_beta comp_def)
  show "distinct (map fst vs)" using w m by simp
  show "(p, c) \<in> set vs \<Longrightarrow> utf8 p \<and> utf8 c" 
    using jwf_member [of "payload_json vs" p "JStr c"] w unfolding payload_json_def by (force intro: rev_image_eqI)
qed

lemma bundle_file_installed:
  assumes "py_item e ''path'' = Inr (JStr p)" and "rel_ok p" "utf8 c"
    and "at_path fs (out @ split_on (CHR ''/'') p) = Some (File c)"
  shows "bundle_file out e fs = (Inr (p, JStr c), fs)"
proof -
  have "validate_path out (JStr p) = Inr (out @ split_on (CHR ''/'') p)"
    using assms(2) validate_path_iff by blast
  then show ?thesis
    using assms by (simp add: bundle_file_def io_bind_def io_lift_def io_ret_def read_bytes_def decode_utf8_def)
qed

lemma load_installed:
  assumes "installed E data vs fs out" and "jwf data" "no_float data"
  obtains m s where "py_item data ''manifest'' = Inr m" "py_item data ''signature'' = Inr (JStr s)"
    "load_bundle E out fs = (Inr (m, strip (universal_newlines s)), fs)"
proof -
  obtain m s where ms: "py_item data ''manifest'' = Inr m" "py_item data ''signature'' = Inr (JStr s)"
      "content fs out [''manifest.json''] = Some (dumps_indent E m)" "content fs out [''manifest.sig''] = Some s"
    using assms(1) by (auto simp: installed_def)
  obtain d where d: "data = JDict d" "(''manifest'', m) \<in> set d" "(''signature'', JStr s) \<in> set d"
    using ms(1,2) by (auto simp: py_item_Inr_iff dest!: map_of_SomeD)
  have wf: "jwf m" "no_float m" "utf8 s"
    using assms(2,3) d by (auto simp: jwf_items_iff no_float_items_iff)
  have "at_path fs (out @ [''manifest.json'']) = Some (File (dumps_indent E m))" "at_path fs (out @ [''manifest.sig'']) = Some (File s)"
    using ms(3,4) by (simp_all add: content_eq_Some)
  then have "load_bundle E out fs = (Inr (m, strip (universal_newlines s)), fs)"
    using read_dumped_indent [OF wf(1,2)] wf(3)
    by (simp add: load_bundle_def io_bind_def io_lift_def io_ret_def read_text_def [of "out @ [''manifest.sig'']"] read_bytes_def decode_utf8_def)
  then show thesis using ms that by blast
qed

text \<open>
  The pages come back as a list in the manifest's order, each with its content; a path that the manifest
  lists twice comes once.
\<close>

lemma payload_of_keys:
  assumes "distinct (map fst vs)" and "set ks = fst ` set vs"
  shows "\<exists>ws. fold (\<lambda>(k, v). AList.update k v) (map (\<lambda>k. (k, JStr (the (map_of vs k)))) ks) [] = payload_json ws \<and>
    set ws = set vs \<and> distinct (map fst ws)"
proof -
  let ?d = "fold (\<lambda>(k, v). AList.update k v) (map (\<lambda>k. (k, JStr (the (map_of vs k)))) ks) ([] :: jdict)"
  have dd: "distinct (map fst ?d)" by (rule distinct_fold_update) simp
  have m: "map_of ?d k = map_option JStr (map_of vs k)" for k
  proof -
    have "map_of ?d k = (if k \<in> set ks then Some (JStr (the (map_of vs k))) else map_of [] k)"
      by (rule map_of_fold_keyed)
    moreover have "k \<in> fst ` set vs \<longleftrightarrow> map_of vs k \<noteq> None" by (simp add: map_of_eq_None_iff)
    ultimately show ?thesis using assms(2) by (cases "map_of vs k") simp_all
  qed
  have e: "(k, v) \<in> set ?d \<longleftrightarrow> (\<exists>c. v = JStr c \<and> (k, c) \<in> set vs)" for k v
    unfolding map_of_eq_Some_iff [OF dd, symmetric] map_of_eq_Some_iff [OF assms(1), symmetric] m by auto
  define ws where "ws = map (\<lambda>(k, v). (k, case v of JStr c \<Rightarrow> c | _ \<Rightarrow> [])) ?d"
  have "payload_json ws = ?d"
    unfolding payload_json_def ws_def by (simp add: comp_def, rule map_idI) (auto simp: e)
  moreover have "set ws = set vs"
  proof -
    have "x \<in> set ws \<longleftrightarrow> x \<in> set vs" for x
      unfolding ws_def set_map image_iff Bex_def by (cases x) (fastforce simp: e split: prod.split)
    then show ?thesis by blast
  qed
  moreover have "map fst ws = map fst ?d" unfolding ws_def by (simp add: case_prod_beta comp_def)
  ultimately show ?thesis using dd by (intro exI [of _ ws]) simp
qed

lemma installed_is_served:
  assumes "validate_bundle_payload E data site = Inr vs" and "installed E data vs fs out" and "jwf data" "no_float data"
  shows "\<exists>m s ws. py_item data ''manifest'' = Inr m \<and> py_item data ''signature'' = Inr (JStr s) \<and>
    set ws = set vs \<and> distinct (map fst ws) \<and>
    bundle_to_dict E out fs = (Inr (served m (strip (universal_newlines s)) ws), fs)"
proof -
  obtain md phs where acc: "accepted E data vs md phs" using validate_bundle_payload_accepted [OF assms(1)] by blast
  obtain entries where en: "bindE (py_item (JDict md) ''files'') py_iter = Inr entries"
      "list_all2 (\<lambda>e ph. py_item e ''path'' = Inr (fst ph) \<and> py_item e ''hash'' = Inr (snd ph)) entries phs"
    using acc by (auto simp: accepted_def)
  have pl: "py_item data ''files'' = Inr (JDict (payload_json vs))" and man: "py_item data ''manifest'' = Inr (JDict md)"
    using acc by (auto simp: accepted_def payload_json_def)
  note pages = payload_text [OF assms(3) pl]
  define rel where "rel = (\<lambda>e. case py_item e ''path'' of Inr (JStr p) \<Rightarrow> p | _ \<Rightarrow> [])"
  have keys: "map (\<lambda>e. JStr (rel e)) entries = map fst phs" and
      listed: "\<forall>e \<in> set entries. py_item e ''path'' = Inr (JStr (rel e)) \<and> rel e \<in> fst ` set vs"
  proof -
    have sub: "fst ` set phs \<subseteq> JStr ` fst ` set vs" using acc by (simp add: accepted_def)
    have *: "py_item e ''path'' = Inr (JStr (rel e)) \<and> rel e \<in> fst ` set vs \<and> fst ph = JStr (rel e)"
      if "(e, ph) \<in> set (zip entries phs)" for e ph
      using that en(2) sub set_zip_rightD [OF that] by (force simp: list_all2_iff rel_def)
    have len: "length entries = length phs" using en(2) by (rule list_all2_lengthD)
    show "map (\<lambda>e. JStr (rel e)) entries = map fst phs"
    proof (rule nth_equalityI)
      fix i assume "i < length (map (\<lambda>e. JStr (rel e)) entries)"
      then have i: "i < length entries" by simp
      then have "(entries ! i, phs ! i) \<in> set (zip entries phs)" using len in_set_zip by fastforce
      from * [OF this] show "map (\<lambda>e. JStr (rel e)) entries ! i = map fst phs ! i" using i len by simp
    qed (simp add: len)
    show "\<forall>e \<in> set entries. py_item e ''path'' = Inr (JStr (rel e)) \<and> rel e \<in> fst ` set vs"
      using * len by (metis in_set_impl_in_set_zip1)
  qed
  have "bundle_file out e fs = (Inr (rel e, JStr (the (map_of vs (rel e)))), fs)" if "e \<in> set entries" for e
  proof -
    obtain c where c: "(rel e, c) \<in> set vs" using listed \<open>e \<in> set entries\<close> by force
    have ok: "rel_ok (rel e)" "is_md (rel e)" using c acc by (auto simp: accepted_def)
    show ?thesis
      using bundle_file_installed [OF _ ok(1) _ installed_page [OF assms(2) c pages(1) ok(2)]] pages(2) [OF c] listed that
        map_of_is_SomeI [OF pages(1) c] by simp
  qed
  then have files: "io_map (bundle_file out) entries fs = (Inr (map (\<lambda>e. (rel e, JStr (the (map_of vs (rel e))))) entries), fs)"
    by (intro io_map_pure) simp
  have "JStr ` set (map rel entries) = JStr ` fst ` set vs"
  proof -
    have "JStr ` set (map rel entries) = set (map (\<lambda>e. JStr (rel e)) entries)" by auto
    then show ?thesis using acc unfolding keys accepted_def by simp
  qed
  then have "set (map rel entries) = fst ` set vs" by (rule inj_image_eq_iff [THEN iffD1, rotated]) (simp add: inj_def)
  from payload_of_keys [OF pages(1) this] obtain ws where ws: "set ws = set vs" "distinct (map fst ws)"
      "fold (\<lambda>(k, v). AList.update k v) (map (\<lambda>e. (rel e, JStr (the (map_of vs (rel e))))) entries) [] = payload_json ws"
    by (auto simp: comp_def)
  obtain s where "py_item data ''signature'' = Inr (JStr s)" "load_bundle E out fs = (Inr (JDict md, strip (universal_newlines s)), fs)"
    using load_installed [OF assms(2-4)] man by (metis sum.inject(2))
  then show ?thesis
    using man ws files en(1)
    by (intro exI [of _ "JDict md"] exI [of _ s] exI [of _ ws])
      (simp add: bundle_to_dict_def io_bind_def io_lift_def io_ret_def served_def)
qed

section \<open>The next reader accepts it\<close>

text \<open>
  The wire sorts the keys of what it carries.  No check of a manifest sees that: the ones that compare fields
  look at strings and numbers, and the signature and the reference are over the canonical text.
\<close>

lemma jwf_item: "jwf x \<Longrightarrow> py_item x k = Inr v \<Longrightarrow> jwf v"
  using jwf_member [OF _ map_of_SomeD] by (cases x) (auto split: option.split_asm)

lemma py_item_sorted: "jwf m \<Longrightarrow> py_item m k = Inr v \<Longrightarrow> py_item (sort_keys m) k = Inr (sort_keys v)"
  using map_of_sort_keys by (auto simp: py_item_Inr_iff)

lemma py_get_sorted: "jwf m \<Longrightarrow> sort_keys d = d \<Longrightarrow> py_get m k d = Inr v \<Longrightarrow> py_get (sort_keys m) k d = Inr (sort_keys v)"
  using map_of_sort_keys by (cases m) (auto simp: get_or_def split: option.split)

lemma num_gt_sorted: "num_gt v n = Inr b \<Longrightarrow> num_gt (sort_keys v) n = Inr b"
  by (cases v) auto

lemma int_greater_sorted: "int_greater n v = Inr b \<Longrightarrow> int_greater n (sort_keys v) = Inr b"
  by (cases v) auto

lemma hashable_sorted: "hashable p = Inr u \<Longrightarrow> sort_keys p = p"
  by (cases p) auto

abbreviation sorted_values :: "(json \<times> json) list \<Rightarrow> (json \<times> json) list" where
  "sorted_values d \<equiv> map (\<lambda>(p, h). (p, sort_keys h)) d"

lemma update_sorted_values: "AList.update p (sort_keys h) (sorted_values d) = sorted_values (AList.update p h d)"
  by (induction d) auto

lemma map_of_sorted_values: "map_of (sorted_values d) p = map_option sort_keys (map_of d p)"
  by (induction d) auto

lemma expected_sorted:
  "\<forall>e \<in> set es. jwf e \<Longrightarrow> expected_loop d es = Inr d' \<Longrightarrow>
     expected_loop (sorted_values d) (map sort_keys es) = Inr (sorted_values d')"
proof (induction d es rule: expected_loop.induct)
  case (2 d e es)
  then obtain p h where ph: "py_item e ''path'' = Inr p" "py_item e ''hash'' = Inr h" "hashable p = Inr ()"
      "expected_loop (AList.update p h d) es = Inr d'"
    by (auto simp: bindE_Inr_iff)
  have "expected_loop (sorted_values (AList.update p h d)) (map sort_keys es) = Inr (sorted_values d')"
    by (rule "2.IH" [OF ph(1-3)]) (use 2 ph(4) in simp_all)
  then show ?case
    using 2 py_item_sorted [OF _ ph(1)] py_item_sorted [OF _ ph(2)] hashable_sorted [OF ph(3)] ph(3)
    by (simp add: update_sorted_values)
qed simp

lemma py_iter_sorted:
  assumes "py_iter fs = Inr es" and "expected_loop d es = Inr d'" and "jwf fs"
  shows "py_iter (sort_keys fs) = Inr (map sort_keys es) \<and> (\<forall>e \<in> set es. jwf e)"
proof (cases "is_list fs")
  case True
  then show ?thesis using assms(1,3) by (cases fs) (auto simp: sort_keys_list_map jwf_list_iff)
next
  case False
  then have "\<forall>e \<in> set es. is_str e" using assms(1) by (cases fs) (auto split: option.split_asm)
  moreover have "py_item (JStr t) k = Inl TypeError" for t k by simp
  ultimately have "es = []" using assms(2) by (cases es) (auto simp: is_str_iff)
  then show ?thesis using assms(1) False by (cases fs) (auto split: option.split_asm)
qed

text \<open>Whether a payload is acceptable depends on the manifest and on the set of pages, not on their order.\<close>

lemma validate_again:
  assumes "validate_bundle_payload E data site = Inr vs" and "jwf data"
    and "py_item data ''manifest'' = Inr m" "py_item data' ''manifest'' = Inr (sort_keys m)"
    and "py_item data' ''files'' = Inr (JDict (payload_json ws))" "set ws = set vs" "distinct (map fst ws)"
  shows "validate_bundle_payload E data' site' = Inr ws"
proof -
  obtain m0 files_data n items fs entries expected fc fc' big u vs' where
      m0: "py_item data ''manifest'' = Inr m0" and f: "py_item data ''files'' = Inr files_data"
      and mg0: "py_get m0 ''file_count'' JNull = Inr fc" "py_get m0 ''file_count'' (JInt (int n)) = Inr fc'"
        "num_gt fc' (int max_bundle_files) = Inr big"
      and n: "py_size files_data = Inr n" "\<not> (big \<or> n > max_bundle_files)" "py_items files_data = Inr items"
      and pl': "payload_loop site 0 items = Inr vs'"
      and e0: "py_item m0 ''files'' = Inr fs" and e': "py_iter fs = Inr entries" "expected_loop [] entries = Inr expected"
      and k: "\<not> set (map (\<lambda>x. JStr (fst x)) items) \<noteq> set (map fst expected)"
      and h': "hash_loop E expected vs' = Inr u" and v: "(Inr vs' :: (string \<times> string) list res) = Inr vs"
    using assms(1) unfolding validate_bundle_payload_def
    by (elim bindE_InrE if_InlE if2_InlE) (rule that; assumption)
  have "m0 = m" using m0 assms(3) by simp
  note mg = mg0 [unfolded this] and e = e0 [unfolded this] e'
  have pl: "payload_loop site 0 items = Inr vs" and h: "hash_loop E expected vs = Inr u" using pl' h' v by simp_all
  have it: "items = payload_json vs" "files_data = JDict (payload_json vs)"
      and ok: "\<forall>(p, c) \<in> set vs. rel_ok p" "vs = [] \<or> (\<Sum>x\<leftarrow>vs. length (snd x)) \<le> max_bundle_total_size"
    using pl n(3) by (auto simp: payload_loop_Inr py_items_Inr_iff payload_json_def)
  have d: "distinct (map fst vs)" using payload_text [OF assms(2)] f it(2) by simp
  have ms: "mset ws = mset vs"
    using assms(6,7) d by (intro set_eq_iff_mset_eq_distinct [THEN iffD1]) (auto simp: distinct_map)
  have len: "length ws = length vs" using arg_cong [OF ms, of size] by simp
  have "mset (map (\<lambda>x. length (snd x)) ws) = mset (map (\<lambda>x. length (snd x)) vs)" using ms by simp
  from arg_cong [OF this, of sum_mset] have sum: "(\<Sum>x\<leftarrow>ws. length (snd x)) = (\<Sum>x\<leftarrow>vs. length (snd x))"
    by (simp only: sum_mset_sum_list)
  have "payload_loop site' 0 (payload_json ws) = Inr ws"
    using ok assms(6) sum by (auto simp: payload_loop_Inr payload_json_def)
  moreover have "py_size (JDict (payload_json ws)) = Inr n" "py_items (JDict (payload_json ws)) = Inr (payload_json ws)"
    using n(1) it(2) len by (auto simp: payload_json_def py_items_Inr_iff)
  moreover have "set (map (\<lambda>x. JStr (fst x)) (payload_json ws)) = set (map fst (sorted_values expected))"
  proof -
    have "map fst (sorted_values expected) = map fst expected" by (simp add: case_prod_beta comp_def)
    moreover have "set (map (\<lambda>x. JStr (fst x)) (payload_json ws)) = set (map (\<lambda>x. JStr (fst x)) (payload_json vs))"
      using assms(6) by (simp add: payload_json_def case_prod_beta comp_def image_image)
    ultimately show ?thesis using k it(1) by simp
  qed
  moreover have "hash_loop E (sorted_values expected) ws = Inr ()"
    using h assms(6) by (auto simp: hash_loop_Inr map_of_sorted_values)
  moreover have wm: "jwf m" by (rule jwf_item [OF assms(2,3)])
  moreover have wf: "jwf fs" by (rule jwf_item [OF wm e(1)])
  note it' = py_iter_sorted [OF e(2,3) wf]
  have "expected_loop [] (map sort_keys entries) = Inr (sorted_values expected)"
    using expected_sorted [OF conjunct2 [OF it'] e(3)] by simp
  moreover note py_get_sorted [OF wm _ mg(1)] py_get_sorted [OF wm _ mg(2)] num_gt_sorted [OF mg(3)]
    py_item_sorted [OF wm e(1)] conjunct1 [OF it']
  ultimately show ?thesis
    using n(2) assms(4,5) unfolding validate_bundle_payload_def by (simp del: set_map)
qed

lemma check_again:
  assumes "check_downloaded_bundle E now data uri key ref site = Inr None" and "validate_bundle_payload E data site = Inr vs" "jwf data"
    and "py_item data ''manifest'' = Inr m" "py_item data ''signature'' = Inr (JStr s)"
    and "py_item data' ''manifest'' = Inr (sort_keys m)" "py_item data' ''signature'' = Inr (JStr (strip (universal_newlines s)))"
    and "py_item data' ''files'' = Inr (JDict (payload_json ws))" "set ws = set vs" "distinct (map fst ws)"
  shows "check_downloaded_bundle E now data' uri key ref site' = Inr None"
proof -
  obtain d md t sb where acc: "data = JDict d" "map_of d ''manifest'' = Some (JDict md)" "map_of d ''signature'' = Some (JStr t)"
      "b64decode (JStr t) = Inr sb" "ed_verify E key sb (canonical_json E (JDict md))"
      "get_or md ''public_key'' (JStr []) = JStr (public_key_to_b64 key)" "map_of md ''uri'' = Some (JStr uri)"
      "ref = JStr (compute_manifest_ref E (JDict md))" "is_manifest_expired now (JDict md) = Inr False"
    using acceptable_bundle [OF assms(1)] by blast
  have m: "m = JDict md" "s = t" using assms(4,5) acc(1-3) by auto
  note v = validate_again [OF assms(2-4,6,8-10), of site']
  have "distinct (map fst md)" "jwf (JDict md)"
    using assms(3) jwf_member [OF _ map_of_SomeD [OF acc(2)]] acc(1) by auto
  note mo = map_of_sort_keys [OF this(1)]
  let ?md = "sort_key fst (sort_keys_items md)"
  obtain d' where d': "data' = JDict d'" "map_of d' ''manifest'' = Some (JDict ?md)"
      "map_of d' ''signature'' = Some (JStr (strip (universal_newlines s)))" "map_of d' ''files'' = Some (JDict (payload_json ws))"
    using assms(6-8) m(1) by (auto simp: py_item_Inr_iff)
  have "canonical_json E (JDict ?md) = canonical_json E (JDict md)"
    using canonical_sorted [of E "JDict md"] by simp
  moreover have "get_or ?md ''public_key'' (JStr []) = JStr (public_key_to_b64 key)" "map_of ?md ''uri'' = Some (JStr uri)"
    using acc(6,7) by (auto simp: mo get_or_def split: option.split_asm)
  moreover have "is_manifest_expired now (JDict ?md) = Inr False"
    using acc(9) int_greater_sorted
    by (simp add: is_manifest_expired_def get_or_def mo split: option.split_asm if_split_asm)
  moreover have "b64decode (JStr (strip (universal_newlines s))) = Inr sb" 
    using b64decode_read_back [of t sb] acc(4) m(2) by simp
  ultimately have "verify_manifest E (JDict ?md) (JStr (strip (universal_newlines s))) key = Inr True"
      "ref = JStr (compute_manifest_ref E (JDict ?md))" "is_manifest_expired now (JDict ?md) = Inr False" "map_of ?md ''uri'' = Some (JStr uri)"
    using acc(5,8) by (auto simp: verify_manifest_True compute_manifest_ref_def)
  then show ?thesis
    using v unfolding d'(1) by (simp add: check_downloaded_bundle_def get_or_def d'(2-4))
qed

lemma insort_payload: "insort_key fst (p, JStr c) (payload_json ws) = payload_json (insort_key fst (p, c) ws)"
  by (induction ws) (auto simp: payload_json_def)

lemma sort_payload: "sort_key fst (payload_json ws) = payload_json (sort_key fst ws)"
proof (induction ws)
  case (Cons x ws)
  have "payload_json (x # ws) = (fst x, JStr (snd x)) # payload_json ws" by (simp add: payload_json_def case_prod_beta)
  then show ?case using Cons insort_payload [of "fst x" "snd x" "sort_key fst ws"] by simp
qed (simp add: payload_json_def)

lemma sort_keys_payload: "sort_keys (JDict (payload_json ws)) = JDict (payload_json (sort_key fst ws))"
proof -
  have "sort_keys_items (payload_json ws) = payload_json ws" by (induction ws) (auto simp: payload_json_def)
  then show ?thesis by (simp add: sort_payload)
qed

lemma jsize_three:
  assumes "distinct (map fst d)" and "(k1, v1) \<in> set d" "(k2, v2) \<in> set d" "(k3, v3) \<in> set d" and "distinct [k1, k2, k3]"
  shows "jsize_items [(k1, v1), (k2, v2), (k3, v3)] \<le> jsize_items d"
proof -
  let ?f = "\<lambda>x. 4 + 6 * length (fst x) + jsize (snd x)"
  have "distinct d" using assms(1) by (simp add: distinct_map)
  then have "jsize_items d = sum ?f (set d)" by (simp add: jsize_items_sum sum_list_distinct_conv_sum_set)
  moreover have "sum ?f {(k1, v1), (k2, v2), (k3, v3)} \<le> sum ?f (set d)"
    using assms(2-4) by (intro sum_mono2) auto
  moreover have "sum ?f {(k1, v1), (k2, v2), (k3, v3)} = jsize_items [(k1, v1), (k2, v2), (k3, v3)]"
    using assms(5) by simp
  ultimately show ?thesis by linarith
qed

lemma length_strip_front: "length (strip_front us s) \<le> length s"
proof (induction us s rule: strip_front.induct)
  case (2 us c s)
  then show ?case
  proof (cases "is_space c")
    case False
    show ?thesis using "2.IH"(2) [OF False] False by (cases "List.find (\<lambda>u. prefix u (c # s)) us") fastforce+
  qed simp
qed simp

lemma length_strip: "length (strip s) \<le> length s"
  using length_strip_front [of "map rev space_units" "rev (strip_front space_units s)"] length_strip_front [of space_units s]
  by (simp add: strip_def)

lemma length_newlines: "length (universal_newlines s) \<le> length s"
proof (induction s rule: length_induct)
  case (1 s)
  show ?case
  proof (cases s)
    case (Cons c r)
    have r: "length (universal_newlines r) \<le> length r" using 1 Cons by simp
    show ?thesis
    proof (cases r)
      case (Cons d t)
      then have "length (universal_newlines t) \<le> length t" using 1 \<open>s = c # r\<close> by simp
      then show ?thesis using r \<open>s = c # r\<close> Cons by (simp del: universal_newlines.simps add: universal_newlines.simps(2) [of c "d # t"])
    qed (simp add: Cons)
  qed simp
qed

lemma served_size:
  assumes "jwf data" "py_item data ''manifest'' = Inr m" "py_item data ''signature'' = Inr (JStr s)"
    and "py_item data ''files'' = Inr (JDict (payload_json vs))" "mset ws = mset vs"
  shows "jsize (JDict (served m (strip (universal_newlines s)) ws)) \<le> jsize data"
proof -
  obtain d where d: "data = JDict d" "(''manifest'', m) \<in> set d" "(''signature'', JStr s) \<in> set d"
      "(''files'', JDict (payload_json vs)) \<in> set d"
    using assms(2-4) by (auto simp: py_item_Inr_iff dest!: map_of_SomeD)
  have "mset (map (\<lambda>x. 4 + 6 * length (fst x) + jsize (snd x)) (payload_json ws)) =
      mset (map (\<lambda>x. 4 + 6 * length (fst x) + jsize (snd x)) (payload_json vs))"
    using assms(5) by (simp add: payload_json_def)
  from arg_cong [OF this, of sum_mset] have "jsize_items (payload_json ws) = jsize_items (payload_json vs)"
    by (simp only: sum_mset_sum_list jsize_items_sum)
  moreover have "length (strip (universal_newlines s)) \<le> length s"
    using length_strip [of "universal_newlines s"] length_newlines [of s] by linarith
  moreover have "jsize_items [(''manifest'', m), (''signature'', JStr s), (''files'', JDict (payload_json vs))] \<le> jsize_items d"
    using assms(1) d by (intro jsize_three) auto
  ultimately show ?thesis unfolding d(1) by (simp add: served_def)
qed

lemma payload_wf:
  assumes "distinct (map fst ws)" and "\<And>p c. (p, c) \<in> set ws \<Longrightarrow> utf8 p \<and> utf8 c"
  shows "jwf (JDict (payload_json ws))" "no_float (JDict (payload_json ws))"
proof -
  have m: "map fst (payload_json ws) = map fst ws" by (simp add: payload_json_def case_prod_beta comp_def)
  have "\<forall>x \<in> set ws. utf8 (fst x) \<and> utf8 (snd x)" using assms(2) by force
  then have "jwf_items (payload_json ws) \<and> no_float_items (payload_json ws)"
    by (induction ws) (auto simp: payload_json_def)
  then show "jwf (JDict (payload_json ws))" "no_float (JDict (payload_json ws))" using assms(1) m by simp_all
qed

text \<open>A seeder whose answer does not fit the frame answers with an error, which is no bundle.\<close>

lemma oversized_not_served:
  assumes "map_of ss uri = Some site" and "bundle_to_dict E site fs = (Inr data, fs1)" and "utf8 uri"
    and "\<not> frameable E max_bundle_msg_size (JDict (AList.update ''type'' (JStr ''bundle'') data))"
    and "send_framed_json E (bundle_request ''get_bundle'' uri) bundle_request_size = Inr ws"
  shows "download_one E (\<lambda>addr. seeder_end E ss fs) uri addr = Inr None"
proof -
  let ?resp = "JDict (AList.update ''type'' (JStr ''bundle'') data)"
  obtain x where big: "send_framed_json E ?resp max_bundle_msg_size = Inl x"
    using send_frameable [of max_bundle_msg_size E ?resp] assms(4)
    by (cases "send_framed_json E ?resp max_bundle_msg_size") (auto simp: max_bundle_msg_size_def)
  have err: "jwf (bundle_error ''internal error'')" "no_float (bundle_error ''internal error'')"
      "jsize (bundle_error ''internal error'') \<le> max_bundle_msg_size"
    by (simp_all add: bundle_error_def utf8_ascii max_bundle_msg_size_def)
  obtain cs where cs: "send_framed_json E (bundle_error ''internal error'') max_bundle_msg_size = Inr cs"
    using send_small [OF err, of E] by (auto simp: max_bundle_msg_size_def)
  have req: "jwf (bundle_request ''get_bundle'' uri)" "no_float (bundle_request ''get_bundle'' uri)"
    using assms(3) by (simp_all add: bundle_request_def utf8_ascii)
  have "fst (recv_framed_json E ws bundle_request_size) = Inr (JDict [(''type'', JStr ''get_bundle''), (''uri'', JStr uri)])"
    using sent_is_received [OF req assms(5)] by (simp add: bundle_request_def)
  then have "bundle_handler E ss (Some ws) fs = (Some (bundle_error ''internal error''), fs1)"
    using assms(1,2) big by (simp add: bundle_handler_def bundle_answer_def sites_lookup_def io_bind_def io_lift_def io_ret_def get_or_def)
  then have "seeder_end E ss fs ws = Inr cs" using cs by (simp add: seeder_end_def)
  moreover have "send_framed_json E (bundle_request ''get_bundle'' uri) max_bundle_msg_size = Inr ws"
    using assms(5) by (rule send_other_limit) (simp add: bundle_request_size_def max_bundle_msg_size_def)
  ultimately show ?thesis
    using sent_is_received [OF err(1,2) cs] by (simp add: download_one_def exchange_def get_or_def bundle_error_def)
qed

text \<open>
  What a reader installed is served and accepted again, or does not fit the frame and is not served.
\<close>

lemma reader_becomes_seeder:
  assumes "check_downloaded_bundle E now data uri key ref out = Inr None"
    and "jwf data" "no_float data"
    and "dict_to_bundle E pid data out fs = (Inr p, fs')" "out \<noteq> []" "fs_wf fs"
    and "map_of ss uri = Some out" "utf8 uri" "length uri \<le> 1000"
  shows "\<exists>answer. bundle_to_dict E out fs' = (Inr answer, fs') \<and>
    (jsize data \<le> 100000000 \<longrightarrow> frameable E max_bundle_msg_size (JDict (AList.update ''type'' (JStr ''bundle'') answer))) \<and>
    (if frameable E max_bundle_msg_size (JDict (AList.update ''type'' (JStr ''bundle'') answer))
     then \<exists>data'. download_one E (\<lambda>addr. seeder_end E ss fs') uri addr = Inr (Some data') \<and>
       check_downloaded_bundle E now data' uri key ref site' = Inr None
     else download_one E (\<lambda>addr. seeder_end E ss fs') uri addr = Inr None)"
proof -
  obtain vs where v: "validate_bundle_payload E data out = Inr vs" and inst: "installed E data vs fs' out"
    using dict_to_bundle_result [OF assms(5,6,4)] by blast
  obtain m s ws where i: "py_item data ''manifest'' = Inr m" "py_item data ''signature'' = Inr (JStr s)" "set ws = set vs"
      "distinct (map fst ws)" "bundle_to_dict E out fs' = (Inr (served m (strip (universal_newlines s)) ws), fs')"
    using installed_is_served [OF v inst assms(2,3)] by blast
  let ?sg = "strip (universal_newlines s)"
  let ?d = "served m ?sg ws" and ?r = "AList.update ''type'' (JStr ''bundle'') (served m (strip (universal_newlines s)) ws)"
  have pl: "py_item data ''files'' = Inr (JDict (payload_json vs))"
    using validate_bundle_payload_accepted [OF v] by (auto simp: accepted_def payload_json_def)
  obtain d where d: "data = JDict d" "map_of d ''manifest'' = Some m" "map_of d ''signature'' = Some (JStr s)"
    using i(1,2) by (auto simp: py_item_Inr_iff)
  have dd: "jwf_items d" "no_float_items d" using assms(2,3) d(1) by auto
  note pages = payload_text [OF assms(2) pl]
  have m: "jwf m" "no_float m"
    using jwf_member [OF dd(1) map_of_SomeD [OF d(2)]] map_of_SomeD [OF d(2)] dd(2) by (auto simp: no_float_items_iff)
  obtain sb where "b64decode (JStr s) = Inr sb" using acceptable_bundle [OF assms(1)] d(1,3) by auto
  then have "b64decode (JStr ?sg) = Inr sb" by (rule b64decode_read_back)
  then have sg: "utf8 ?sg"
    by (intro utf8_ascii) (auto simp: b64_decode_str_def byte_def not_le split: if_split_asm)
  note ws = pages(2) [folded i(3)]
  have wf: "jwf (JDict ?d)" "no_float (JDict ?d)" "map_of ?d ''type'' = None"
    using m sg payload_wf [OF i(4) ws] by (simp_all add: served_def utf8_ascii)
  have up: "?r = ?d @ [(''type'', JStr ''bundle'')]" by (simp add: served_def)
  have wf': "jwf (JDict ?r)" "no_float (JDict ?r)"
    using wf(1,2) unfolding up by (simp_all add: served_def utf8_ascii)
  have ms: "mset ws = mset vs"
    using i(3,4) pages(1) by (intro set_eq_iff_mset_eq_distinct [THEN iffD1]) (auto simp: distinct_map)
  obtain qs where qs: "send_framed_json E (bundle_request ''get_bundle'' uri) bundle_request_size = Inr qs"
    using send_small [of "bundle_request ''get_bundle'' uri" bundle_request_size E] assms(8,9)
    by (auto simp: bundle_request_def bundle_request_size_def utf8_ascii)
  have "if frameable E max_bundle_msg_size (JDict ?r)
     then \<exists>data'. download_one E (\<lambda>addr. seeder_end E ss fs') uri addr = Inr (Some data') \<and>
       check_downloaded_bundle E now data' uri key ref site' = Inr None
     else download_one E (\<lambda>addr. seeder_end E ss fs') uri addr = Inr None"
  proof (cases "frameable E max_bundle_msg_size (JDict ?r)")
    case True
    then obtain cs where cs: "send_framed_json E (JDict ?r) max_bundle_msg_size = Inr cs"
      using send_frameable [of max_bundle_msg_size E] by (auto simp: max_bundle_msg_size_def)
    let ?data' = "sort_keys (JDict ?r)"
    have dl: "download_one E (\<lambda>addr. seeder_end E ss fs') uri addr = Inr (Some ?data')"
      by (rule download_from_seeder [OF assms(7) i(5) assms(8) wf qs cs])
    have mo: "map_of (sort_key fst (sort_keys_items ?r)) k = map_option sort_keys (map_of ?r k)" for k
      using wf'(1) by (intro map_of_sort_keys) simp
    have "py_item ?data' ''manifest'' = Inr (sort_keys m)" "py_item ?data' ''signature'' = Inr (JStr ?sg)"
        "py_item ?data' ''files'' = Inr (JDict (payload_json (sort_key fst ws)))"
      using mo [of "''manifest''"] mo [of "''signature''"] mo [of "''files''"] sort_keys_payload [of ws]
      by (simp_all only: sort_keys.simps py_item_Inr_iff) (simp_all add: served_def)
    from check_again [OF assms(1) v assms(2) i(1,2) this]
    have "check_downloaded_bundle E now ?data' uri key ref site' = Inr None"
      using i(3,4) by (simp add: distinct_fst_sort_key)
    then show ?thesis using dl True by auto
  qed (use oversized_not_served [OF assms(7) i(5) assms(8) _ qs] in simp)
  moreover have "frameable E max_bundle_msg_size (JDict ?r)" if "jsize data \<le> 100000000"
    using length_canonical [OF wf', of E] served_size [OF assms(2) i(1,2) pl ms] that
    by (simp add: frameable_def served_def max_bundle_msg_size_def)
  ultimately show ?thesis using i(5) by blast
qed

end
