(* ===== verification/Answers.thy ===== *)
theory Answers
  imports NamingClient
begin

text \<open>
  The types of the naming protocol of naming.py: which answer each kind of request can get, and that every
  answer can be framed.
\<close>

definition answer_kinds :: "(string \<times> string) list" where
  "answer_kinds =
     [(''register'', ''ok''), (''resolve'', ''record''), (''list'', ''names''),
      (''register_reviewer'', ''ok''), (''list_reviewers'', ''reviewers''),
      (''post_assignment'', ''ok''), (''list_assignments'', ''assignments''),
      (''attach_review'', ''ok''), (''get_attachments'', ''attachments'')]"

definition is_error_answer :: "json \<Rightarrow> bool" where
  "is_error_answer resp \<longleftrightarrow> (\<exists>m. resp = JDict [(''type'', JStr ''error''), (''msg'', JStr m)])"

definition is_listing :: "jdict \<Rightarrow> bool" where
  "is_listing d \<longleftrightarrow> (\<exists>rs. map_of d ''records'' = Some (JList rs))"

text \<open>The answer of the kind that fits the request: a record with its signature, a listing, or what was stored.\<close>

definition fits_request :: "string \<Rightarrow> json \<Rightarrow> bool" where
  "fits_request kind resp \<longleftrightarrow>
     (\<exists>d answer. resp = JDict d \<and> map_of answer_kinds kind = Some answer \<and> map_of d ''type'' = Some (JStr answer) \<and>
       (answer \<in> {''names'', ''reviewers'', ''assignments'', ''attachments''} \<longrightarrow> is_listing d) \<and>
       (answer = ''record'' \<longrightarrow> map_of d ''record'' \<noteq> None \<and> map_of d ''signature'' \<noteq> None))"

lemma error_answer [simp]: "is_error_answer (err_resp m)"
  by (simp add: is_error_answer_def err_resp_def)

lemma fits_page: "page_resp k items msg = Inr resp \<Longrightarrow> map_of answer_kinds kind = Some k \<Longrightarrow> k \<noteq> ''record'' \<Longrightarrow> fits_request kind resp"
  by (auto simp: page_resp_def bindE_Inr_iff fits_request_def is_listing_def)

lemma fits_records: "map_of answer_kinds kind = Some k \<Longrightarrow> k \<noteq> ''record'' \<Longrightarrow> fits_request kind (records_resp k es)"
  by (auto simp: records_resp_def fits_request_def is_listing_def)

lemma fits_ok: "map_of answer_kinds kind = Some ''ok'' \<Longrightarrow> fits_request kind (JDict [(''type'', JStr ''ok''), x])"
  by (auto simp: fits_request_def)

lemma dispatch_typed:
  assumes "dispatch E now msg srv = (Inr resp, srv')"
  shows "is_error_answer resp \<or> (\<exists>kind. map_of msg ''type'' = Some (JStr kind) \<and> fits_request kind resp)"
proof -
  have t: "get_or msg ''type'' JNull = JStr k \<Longrightarrow> map_of msg ''type'' = Some (JStr k)" for k
    by (auto simp: get_or_def split: option.split_asm)
  have reg: "handle_register E now msg srv = (Inr resp, srv') \<Longrightarrow> is_error_answer resp \<or> fits_request ''register'' resp"
    unfolding handle_register_def Let_def
    by (auto simp: bindE_Inr_iff fits_ok answer_kinds_def split: if_split_asm sum.split_asm prod.split_asm bool.split_asm)
  have res: "handle_resolve msg srv = (Inr resp, srv') \<Longrightarrow> is_error_answer resp \<or> fits_request ''resolve'' resp"
    unfolding handle_resolve_def Let_def
    by (auto simp: fits_request_def answer_kinds_def split: sum.split_asm option.split_asm prod.split_asm)
  have lst: "handle_list msg srv = (Inr resp, srv') \<Longrightarrow> is_error_answer resp \<or> fits_request ''list'' resp"
    unfolding handle_list_def using fits_page [of "''names''" _ msg resp "''list''"] by (auto simp: answer_kinds_def)
  have rr: "handle_register_reviewer E now msg srv = (Inr resp, srv') \<Longrightarrow> is_error_answer resp \<or> fits_request ''register_reviewer'' resp"
    unfolding handle_register_reviewer_def Let_def
    by (auto simp: bindE_Inr_iff fits_ok answer_kinds_def split: if_split_asm sum.split_asm prod.split_asm bool.split_asm option.split_asm)
  have lr: "handle_list_reviewers msg srv = (Inr resp, srv') \<Longrightarrow> is_error_answer resp \<or> fits_request ''list_reviewers'' resp"
    unfolding handle_list_reviewers_def
    using fits_page [of "''reviewers''" _ msg resp "''list_reviewers''"]
    by (cases "reviewer_recs srv") (auto simp: answer_kinds_def fits_request_def [of _ "JDict [_, _, _]"] is_listing_def)
  have pa: "handle_post_assignment E now msg srv = (Inr resp, srv') \<Longrightarrow> is_error_answer resp \<or> fits_request ''post_assignment'' resp"
    unfolding handle_post_assignment_def Let_def
    by (auto simp: bindE_Inr_iff fits_ok answer_kinds_def split: if_split_asm sum.split_asm prod.split_asm bool.split_asm option.split_asm)
  have la: "handle_list_assignments msg srv = (Inr resp, srv') \<Longrightarrow> is_error_answer resp \<or> fits_request ''list_assignments'' resp"
    unfolding handle_list_assignments_def Let_def
    by (auto simp: bindE_Inr_iff answer_kinds_def intro!: fits_records split: option.split_asm if_split_asm)
  have ar: "handle_attach_review E now msg srv = (Inr resp, srv') \<Longrightarrow> is_error_answer resp \<or> fits_request ''attach_review'' resp"
    unfolding handle_attach_review_def Let_def
    by (auto simp: bindE_Inr_iff fits_ok answer_kinds_def split: if_split_asm sum.split_asm prod.split_asm bool.split_asm option.split_asm)
  have ga: "handle_get_attachments msg srv = (Inr resp, srv') \<Longrightarrow> is_error_answer resp \<or> fits_request ''get_attachments'' resp"
    unfolding handle_get_attachments_def Let_def
    by (auto simp: bindE_Inr_iff answer_kinds_def intro!: fits_records split: option.split_asm if_split_asm)
  show ?thesis
    using assms unfolding dispatch_def Let_def
    by (simp split: if_split_asm) ((blast dest: t reg res lst rr lr pa la ar ga)+, auto)
qed

lemma error_frames: "utf8 m \<Longrightarrow> length m \<le> 1000 \<Longrightarrow> \<exists>ws. send_framed_json E (err_resp m) max_msg_size = Inr ws"
  using send_small [of "err_resp m" max_msg_size E] by (simp add: err_resp_def max_msg_size_def utf8_ascii)

lemma handle_stream_typed:
  assumes "handle_stream E now chunks srv = (resp, srv')"
  shows "(\<exists>ws. send_framed_json E resp max_msg_size = Inr ws) \<and>
    (is_error_answer resp \<or>
     (\<exists>cs msg kind. chunks = Some cs \<and> fst (recv_framed_json E cs max_request_size) = Inr (JDict msg) \<and>
        map_of msg ''type'' = Some (JStr kind) \<and> fits_request kind resp))"
proof -
  have internal: "resp = err_resp ''internal error'' \<Longrightarrow> ?thesis"
    using error_frames [of "''internal error''" E] by (simp add: utf8_ascii)
  have refused: "resp = err_resp ''empty, oversized or malformed request'' \<Longrightarrow> ?thesis"
    using error_frames [of "''empty, oversized or malformed request''" E] by (simp add: utf8_ascii)
  let ?got = "case chunks of None \<Rightarrow> Inr JNull | Some cs \<Rightarrow> fst (recv_framed_json E cs max_request_size)"
  show ?thesis
  proof (cases "\<exists>msg. ?got = Inr (JDict msg)")
    case False
    then have "resp = err_resp ''internal error'' \<or> resp = err_resp ''empty, oversized or malformed request''"
      using assms unfolding handle_stream_def by (cases ?got) (simp, simp split: json.split_asm)
    then show ?thesis using internal refused by blast
  next
    case True
    then obtain msg where msg: "?got = Inr (JDict msg)" by blast
    then obtain cs where cs: "chunks = Some cs" "fst (recv_framed_json E cs max_request_size) = Inr (JDict msg)"
      by (cases chunks) simp_all
    obtain r srv1 where d: "dispatch E now msg srv = (r, srv1)" by fastforce
    show ?thesis
    proof (cases "\<exists>resp1 ws. r = Inr resp1 \<and> send_framed_json E resp1 max_msg_size = Inr ws")
      case True
      then obtain resp1 ws where r: "r = Inr resp1" "send_framed_json E resp1 max_msg_size = Inr ws" by blast
      then have "resp = resp1" using assms msg d by (simp add: handle_stream_def)
      then show ?thesis using r cs dispatch_typed [of E now msg srv resp srv1] d by blast
    next
      case False
      then have "resp = err_resp ''internal error''"
        using assms msg d by (auto simp: handle_stream_def split: sum.split_asm)
      then show ?thesis by (rule internal)
    qed
  qed
qed

end
