(* ===== verification/DiskTree.thy ===== *)
theory DiskTree
  imports Commands
begin

text \<open>
  The disk is a tree whatever the program does to it: \<open>fs_wf\<close> is kept by every file-system call, at any
  fault, and so by every operation of the bundles, the stores, the peer, the daemon and the client.
\<close>

section \<open>Code that keeps a property of its state\<close>

named_theorems kept_rules "operations that keep a property of the state"

definition keeps :: "('s \<Rightarrow> bool) \<Rightarrow> ('s, 'a) op \<Rightarrow> bool" where
  "keeps P m \<longleftrightarrow> (\<forall>s. P s \<longrightarrow> P (snd (m s)))"

lemma keepsD: "keeps P m \<Longrightarrow> m s = (r, s') \<Longrightarrow> P s \<Longrightarrow> P s'"
  unfolding keeps_def by (metis snd_conv)

lemma keeps_basic [kept_rules]: "keeps P (io_ret x)" "keeps P (io_raise e)" "keeps P (io_lift r)" "keeps P (get_field j k d)" "keeps P (get_item j k)"
  by (simp_all add: keeps_def io_ret_def io_raise_def io_lift_def get_field_def get_item_def)

lemma keeps_reads: "reads m \<Longrightarrow> keeps P m"
  by (simp add: keeps_def reads_def)

lemma keeps_bind [kept_rules]: "keeps P m \<Longrightarrow> (\<And>x. keeps P (f x)) \<Longrightarrow> keeps P (io_bind m f)"
  by (auto simp: keeps_def io_bind_def split: prod.split sum.split)

lemma keeps_try [kept_rules]: "keeps P m \<Longrightarrow> (\<And>e. keeps P (h e)) \<Longrightarrow> keeps P (io_try m h)"
  by (auto simp: keeps_def io_try_def split: prod.split sum.split)

lemma keeps_opt [kept_rules]: "keeps P m \<Longrightarrow> keeps P (io_opt m)"
  unfolding io_opt_def by (intro kept_rules)

lemma keeps_effort [kept_rules]: "keeps P m \<Longrightarrow> keeps P (best_effort m)"
  unfolding best_effort_def by (intro kept_rules)

lemma keeps_each [kept_rules]: "(\<And>x. keeps P (f x)) \<Longrightarrow> keeps P (io_each f xs)"
  by (induction xs) (auto intro!: kept_rules)

lemma keeps_map [kept_rules]: "(\<And>x. keeps P (f x)) \<Longrightarrow> keeps P (io_map f xs)"
  by (induction xs) (auto intro!: kept_rules)

text \<open>Code that looks at the state before it decides.\<close>

lemma keeps_bind_dep [kept_rules]: "keeps P m \<Longrightarrow> (\<And>x s. keeps P (f x s)) \<Longrightarrow> keeps P (\<lambda>s. io_bind m (\<lambda>x. f x s) s)"
  by (auto simp: keeps_def io_bind_def split: prod.split sum.split)

lemma keeps_each_dep [kept_rules]: "(\<And>x. keeps P (f x)) \<Longrightarrow> keeps P (\<lambda>s. io_each f (xs s) s)"
  using keeps_each [of P f] by (simp add: keeps_def)

lemma keeps_if [kept_rules]: "keeps P a \<Longrightarrow> keeps P b \<Longrightarrow> keeps P (\<lambda>s. if c s then a s else b s)"
  by (simp add: keeps_def)

lemma keeps_same [kept_rules]: "keeps P (\<lambda>s. (r s, s))"
  by (simp add: keeps_def)

lemma keeps_cases [kept_rules]:
  "keeps P a \<Longrightarrow> keeps P b \<Longrightarrow> keeps P (if c then a else b)"
  "keeps P a \<Longrightarrow> (\<And>y. keeps P (f y)) \<Longrightarrow> keeps P (case x of None \<Rightarrow> a | Some y \<Rightarrow> f y)"
  "(\<And>u v. keeps P (g u v)) \<Longrightarrow> keeps P (case y of (u, v) \<Rightarrow> g u v)"
  "keeps P a \<Longrightarrow> (\<And>d. keeps P (h d)) \<Longrightarrow> keeps P (case j of JDict d \<Rightarrow> h d | _ \<Rightarrow> a)"
  "keeps P a \<Longrightarrow> (\<And>t. keeps P (k t)) \<Longrightarrow> keeps P (case j of JStr t \<Rightarrow> k t | _ \<Rightarrow> a)"
  "(\<And>e. keeps P (l e)) \<Longrightarrow> (\<And>t. keeps P (m t)) \<Longrightarrow> keeps P (case z of Inl e \<Rightarrow> l e | Inr t \<Rightarrow> m t)"
  by (simp_all split: option.split prod.split json.split sum.split)

lemma keeps_find [kept_rules]:
  "keeps P a \<Longrightarrow> (\<And>y. keeps P (f y)) \<Longrightarrow> keeps P (\<lambda>s. case g s of None \<Rightarrow> a s | Some y \<Rightarrow> f y s)"
  by (simp add: keeps_def split: option.split)

lemma keeps_arg: "(\<And>x. keeps P (f x)) \<Longrightarrow> keeps P (\<lambda>s. f (g s) s)"
  by (simp add: keeps_def)

lemma keeps_bind_if [kept_rules]:
  assumes "keeps P a" and "keeps P b" and "\<And>x. keeps P (f x)"
  shows "keeps P (\<lambda>s. io_bind (if c s then a else b) f s)"
  using keeps_bind [OF assms(1,3)] keeps_bind [OF assms(2,3)] by (simp add: keeps_def)

section \<open>The file system\<close>

lemma is_directory_tick [simp]: "is_directory (tick fs) p = is_directory fs p"
  by (simp add: is_directory_def)

lemma wf_put:
  assumes "fs_wf fs" and "p \<noteq> []" "is_directory fs (butlast p)" "n = Dir \<or> \<not> is_directory fs p"
  shows "fs_wf (put p n fs)"
  using assms by (auto simp: fs_wf_def at_put is_directory_def)

lemma wf_write [kept_rules]: "keeps fs_wf (write_bytes p c)"
  by (auto simp: keeps_def write_bytes_def intro!: wf_put split: fault.split)

lemma wf_mkdir [kept_rules]: "keeps fs_wf (mkdir p)"
proof -
  have "fexists fs []" for fs by (simp add: fexists_def)
  then show ?thesis by (cases p) (auto simp: keeps_def mkdir_def intro!: wf_put split: fault.split)
qed

lemma wf_mkdir_p [kept_rules]: "keeps fs_wf (mkdir_p p)"
proof -
  have "keeps fs_wf (mkdir_step q)" for q
    using wf_mkdir by (simp add: keeps_def mkdir_step_def)
  then show ?thesis unfolding mkdir_p_def by (intro kept_rules)
qed

lemma prefix_parent: "prefix p (butlast r) \<Longrightarrow> prefix p r"
  by (cases r rule: rev_cases) (auto simp: prefix_def)

lemma wf_remove_under: "fs_wf fs \<Longrightarrow> p \<noteq> [] \<Longrightarrow> fs_wf (remove_under p fs)"
  using prefix_parent by (auto simp: fs_wf_def at_remove_under split: if_split_asm)

lemma drop_files_below: "map_of (drop_files p n xs) r = Some m \<Longrightarrow> \<exists>m'. map_of xs r = Some m'"
  by (induction p n xs rule: drop_files.induct) (auto split: if_split_asm)

lemma drop_files_dirs: "map_of xs r = Some Dir \<Longrightarrow> map_of (drop_files p n xs) r = Some Dir"
  by (induction p n xs rule: drop_files.induct) (auto split: if_split_asm)

lemma wf_drop_files: "fs_wf fs \<Longrightarrow> fs_wf (fs\<lparr>nodes := drop_files p n (nodes fs)\<rparr>)"
  unfolding fs_wf_def at_path_def
  by (auto dest!: drop_files_below intro: drop_files_dirs split: if_split_asm)

lemma wf_rmtree [kept_rules]: "keeps fs_wf (rmtree p)"
proof -
  have "fs_wf ((tick s)\<lparr>nodes := drop_files p n (nodes s)\<rparr>)" if "fs_wf s" for s n
    using wf_drop_files [of "tick s" p n] that by simp
  then show ?thesis by (auto simp: keeps_def rmtree_def intro!: wf_remove_under split: fault.split)
qed

lemma wf_rmtree_quiet [kept_rules]: "keeps fs_wf (rmtree_quiet p)"
  using wf_rmtree by (simp add: keeps_def rmtree_quiet_def)

lemma wf_unlink [kept_rules]: "keeps fs_wf (unlink p)"
  by (cases "p = []") (auto simp: keeps_def unlink_def intro!: wf_remove_under split: option.split node.split fault.split)

lemma wf_move_under:
  assumes "fs_wf fs" and "p \<noteq> []" "q \<noteq> []" "\<not> prefix p q" "\<not> prefix q p" "is_directory fs (butlast q)"
  shows "fs_wf (move_under p q fs)"
proof -
  note at = at_move_under [OF assms(2-5), of fs]
  have "at_path (move_under p q fs) (butlast r) = Some Dir"
    if "r \<noteq> []" and n: "at_path (move_under p q fs) r = Some n" for r n
  proof (cases "prefix q r")
    case True
    then obtain s where r: "r = q @ s" by (auto simp: prefix_def)
    show ?thesis
    proof (cases "s = []")
      case True
      have "\<not> prefix q (butlast q)" using assms(3) by (metis append_butlast_last_id not_Cons_self2 prefix_order.antisym prefixI self_append_conv)
      moreover have "\<not> prefix p (butlast q)" using assms(4) prefix_parent by blast
      ultimately show ?thesis using r True assms(6) by (simp add: at is_directory_def)
    next
      case False
      then have "at_path fs (p @ butlast s) = Some Dir"
        using assms(1) n r by (force simp: fs_wf_def at butlast_append split: if_split_asm)
      then show ?thesis using r False by (simp add: at butlast_append)
    qed
  next
    case False
    then have "\<not> prefix p r" "at_path fs r = Some n" using n by (auto simp: at split: if_split_asm)
    then show ?thesis using assms(1) that(1) False prefix_parent by (auto simp: at fs_wf_def)
  qed
  then show ?thesis by (auto simp: fs_wf_def)
qed

lemma wf_rename [kept_rules]: "keeps fs_wf (rename p q)"
  by (auto simp: keeps_def rename_def rename_allowed_def intro!: wf_move_under split: fault.split)

section \<open>Bundles and stores\<close>

lemma wf_dict_to_bundle [kept_rules]: "keeps fs_wf (dict_to_bundle E pid data out)"
  unfolding dict_to_bundle_def swap_into_place_def write_payload_def save_bundle_def Let_def
  by (auto intro!: kept_rules split: prod.split json.split)

lemma wf_save_atomic [kept_rules]: "keeps fs_wf (save_atomic ext p d)"
  unfolding save_atomic_def by (intro kept_rules)

text \<open>Reading changes nothing.\<close>

lemma kept_readers [kept_rules]:
  "keeps P (read_bytes q)" "keeps P (read_text q)" "keeps P (load_bundle E site)" "keeps P (load_pinstore E q)"
  "keeps P (load_private_key pm q w)" "keeps P (load_public_key pm q)"
  by (auto intro!: keeps_reads reads_bind simp: load_private_key_def load_public_key_def)

lemma kept_loaders [kept_rules]:
  "keeps P (load_policy E q)" "keeps P (load_store E q)" "keeps P (load_cache E q)" "keeps P (config_load E home q)"
proof -
  show "keeps P (load_policy E q)" unfolding load_policy_def [abs_def] by (intro kept_rules)
  show "keeps P (load_store E q)" unfolding load_store_def [abs_def] by (intro kept_rules)
  show "keeps P (load_cache E q)" unfolding load_cache_def [abs_def] by (intro kept_rules)
  show "keeps P (config_load E home q)" unfolding config_load_def [abs_def] by (intro kept_rules)
qed

lemma kept_manifest [kept_rules]: "keeps P (hash_file E q)" "keeps P (create_manifest E now site uri author v ttl cats)"
    "keeps P (verify_files E m site)"
proof -
  show h: "keeps P (hash_file E q)" for q
    unfolding hash_file_def by (intro kept_rules)
  show "keeps P (create_manifest E now site uri author v ttl cats)"
    unfolding create_manifest_def [abs_def] Let_def file_entry_def
    by (intro kept_rules h)
  have "keeps P (verify_entry E site e)" for e
    unfolding verify_entry_def [abs_def] Let_def by (intro kept_rules h)
  then show "keeps P (verify_files E m site)"
    unfolding verify_files_def [abs_def] by (intro kept_rules)
qed

lemma wf_pins [kept_rules]:
  "keeps fs_wf (pin_key E pid now uri pk author p ts)" "keeps fs_wf (update_pin_last_seen E pid now uri p ts)"
  "keeps fs_wf (unpin_key E pid uri p)"
  unfolding pin_key_def update_pin_last_seen_def unpin_key_def save_pinstore_def
  by (intro kept_rules)+

lemma wf_files [kept_rules]:
  "keeps fs_wf (write_private_file ks p d)" "keeps fs_wf (generate_keypair E pm sk ks kd name pw)"
  "keeps fs_wf (load_or_create_peer_seed seed ks kp)" "keeps fs_wf (ensure_reviewer_identity E pm sk ks kd name)"
  "keeps fs_wf (config_save E c p)" "keeps fs_wf (ensure_config home cwd given)"
  "keeps fs_wf (load_or_create_config E home cwd user p)" "keeps fs_wf (save_cache E cache p)" "keeps fs_wf (save_bundle E site m sg)"
proof -
  show w: "keeps fs_wf (write_private_file ks p d)" for ks p d
    unfolding write_private_file_def by (intro kept_rules)
  show g: "keeps fs_wf (generate_keypair E pm sk ks kd name pw)" for pm sk ks kd name pw
    unfolding generate_keypair_def Let_def by (intro kept_rules w)
  show "keeps fs_wf (load_or_create_peer_seed seed ks kp)"
    unfolding load_or_create_peer_seed_def [abs_def] by (intro kept_rules w)
  show "keeps fs_wf (ensure_reviewer_identity E pm sk ks kd name)"
    unfolding ensure_reviewer_identity_def [abs_def] Let_def by (intro kept_rules g)
  show c: "keeps fs_wf (config_save E c p)" for c p
    unfolding config_save_def by (intro kept_rules)
  show e: "keeps fs_wf (ensure_config home cwd given)" for given
    unfolding ensure_config_def Let_def by (intro kept_rules)
  show "keeps fs_wf (load_or_create_config E home cwd user p)"
    unfolding load_or_create_config_def Let_def by (intro kept_rules c e)
  show "keeps fs_wf (save_cache E cache p)" unfolding save_cache_def by (intro kept_rules)
  show "keeps fs_wf (save_bundle E site m sg)" unfolding save_bundle_def by (intro kept_rules)
qed

section \<open>The peer\<close>

definition tree_peer :: "'s peer \<Rightarrow> bool" where
  "tree_peer p \<longleftrightarrow> fs_wf (pdisk p)"

lemma tree_on_disk [kept_rules]: "keeps fs_wf m \<Longrightarrow> keeps tree_peer (on_disk m)"
  by (simp add: keeps_def tree_peer_def on_disk_def split_beta)

lemma tree_on_naming [kept_rules]: "keeps tree_peer (on_naming m)"
  by (simp add: keeps_def tree_peer_def on_naming_def split_beta)

lemma tree_set_site [kept_rules]: "keeps tree_peer (set_site uri site)"
  by (simp add: keeps_def tree_peer_def set_site_def)

lemma tree_announce [kept_rules]: "keeps tree_peer (announce E C uri)"
proof -
  have "pdisk p' = pdisk p" if "announce E C uri p = (r, p')" for r p p' using announce_keeps [OF that] by simp
  then show ?thesis unfolding keeps_def tree_peer_def by (metis surjective_pairing)
qed

lemma tree_solicit [kept_rules]: "keeps tree_peer (solicit_reviews E C far now uri pub sk cats n days fr)"
  unfolding solicit_reviews_def Let_def by (intro kept_rules)

lemma tree_next_version [kept_rules]: "keeps tree_peer (next_version E site)"
  unfolding next_version_def [abs_def] by (intro kept_rules)

lemma tree_publish [kept_rules]: "keeps tree_peer (publish E C now uri author site kp cats n days fr)"
  unfolding publish_def Let_def by (intro kept_rules)

lemma tree_fetch_site [kept_rules]: "keeps tree_peer (fetch_site E C now order uri given ann)"
  unfolding fetch_site_def resolve_verified_def fetch_verified_def pick_bundle_def finish_fetch_def read_pins_def
    install_bundle_def remember_key_def cache_attachments_def Let_def
  by (intro kept_rules)

lemma tree_start [kept_rules]: "keeps tree_peer (start_peer E C)"
proof -
  have one: "keeps tree_peer (rediscover_one E site)" for site
    unfolding rediscover_one_def [abs_def] by (intro kept_rules)
  have "keeps tree_peer (rediscover_local_sites E C)"
    unfolding rediscover_local_sites_def [abs_def] by (intro kept_rules one)
  then have "keeps tree_peer (\<lambda>p. rediscover_local_sites E C (p\<lparr>psites := []\<rparr>))"
    by (simp add: keeps_def tree_peer_def)
  then show ?thesis unfolding start_peer_def by (intro kept_rules)
qed

section \<open>The daemon\<close>

lemma tree_settle:
  assumes "\<And>a. keeps tree_peer (fetch_content D a)" and "\<And>ctx. keeps tree_peer (ask_reviewer D ctx)"
  shows "keeps tree_peer (settle E D now a ck)"
  unfolding settle_def attach_verdict_def by (intro kept_rules assms)

lemma tree_poll:
  assumes "\<And>a. keeps tree_peer (fetch_content D a)" and "\<And>ctx. keeps tree_peer (ask_reviewer D ctx)"
  shows "keeps tree_peer (poll_once E D now)"
proof -
  have one: "keeps tree_peer (poll_entry E D now e st)" for e st
    unfolding poll_entry_def Let_def by (cases st) (simp, intro kept_rules tree_settle assms)
  have "keeps tree_peer (poll_entries E D now es st)" for es st
    by (induction es arbitrary: st) (simp_all, (intro kept_rules one | assumption)+)
  then show ?thesis unfolding poll_once_def Let_def by (intro kept_rules)
qed

lemma tree_heartbeat: "keeps tree_peer (heartbeat E D now)"
proof -
  have "keeps tree_peer (register_reviewer_once E far now sk pk i addrs cats ts)" for far sk pk i addrs cats ts
    unfolding register_reviewer_once_def by (intro kept_rules)
  then show ?thesis unfolding heartbeat_def [abs_def] by (rule keeps_arg)
qed

lemma tree_daemon_run:
  assumes "daemon_run E D p0 p" and "tree_peer p0"
    and "\<And>a. keeps tree_peer (fetch_content D a)" "\<And>ctx. keeps tree_peer (ask_reviewer D ctx)"
  shows "tree_peer p"
  using assms(1)
proof (induction rule: daemon_run.induct)
  case (boots now b p)
  then show ?case using keepsD [OF tree_heartbeat boots assms(2)] by simp
next
  case (beats p now b p')
  then show ?case using keepsD [OF tree_heartbeat] by blast
next
  case (polls p now r p')
  have "keeps tree_peer (poll_turn E D now)"
    unfolding poll_turn_def by (intro kept_rules tree_poll assms(3,4))
  from keepsD [OF this polls.hyps(2)] show ?case using polls.IH by blast
qed

section \<open>The client\<close>

lemma wf_copy_pages [kept_rules]: "keeps fs_wf (copy_pages source target)"
proof -
  have "keeps fs_wf (\<lambda>fs. write_bytes (q fs) c fs)" for q c using wf_write by (simp add: keeps_def)
  then have "keeps fs_wf (copy_page source target md)" for md
    unfolding copy_page_def Let_def by (intro kept_rules)
  then show ?thesis unfolding copy_pages_def [abs_def] by (intro kept_rules)
qed

lemma tree_run_peer:
  assumes "\<And>C'. keeps tree_peer (body C')"
  shows "keeps tree_peer (run_peer E K C kp relay body)"
  unfolding run_peer_def Let_def by (intro kept_rules assms)

lemma tree_do_publish: "keeps tree_peer (do_publish E K S now uri source cats)"
  unfolding do_publish_def Let_def by (intro kept_rules tree_run_peer)

lemma tree_do_fetch: "keeps tree_peer (do_fetch E K S now order uri naming ann)"
  unfolding do_fetch_def by (intro kept_rules tree_run_peer)

lemma tree_content_fetcher: "keeps tree_peer (content_fetcher_for E C now order a)"
  unfolding content_fetcher_for_def by (intro kept_rules)

lemma tree_do_serve: "keeps tree_peer (do_serve E K S now order addrs)"
proof -
  have "keeps tree_peer (announce_all E C uris)" for C uris unfolding announce_all_def by (intro kept_rules)
  then have "keeps tree_peer (\<lambda>p. announce_all E C (f p) p)" for C f by (rule keeps_arg)
  then show ?thesis unfolding do_serve_def reviewer_identity_def by (intro kept_rules tree_run_peer)
qed

section \<open>What the client fetches is genuine\<close>

lemma run_peer_body:
  assumes "run_peer E K C kp relay body p = (Inr x, p')" and "tree_peer p"
  obtains seed p1 where "tree_peer p1" "body (C\<lparr>own_id := host_id K seed\<rparr>) p1 = (Inr x, p')"
proof -
  let ?kp = "case kp of Some q \<Rightarrow> q | None \<Rightarrow> data_dir C @ [''peer.key'']"
  obtain u p1 seed p2 v p3 where a: "on_disk (mkdir_p (data_dir C)) p = (Inr u, p1)"
      and b: "on_disk (load_or_create_peer_seed (fresh_seed K) (write_sizes K) ?kp) p1 = (Inr seed, p2)"
      and c: "start_peer E (C\<lparr>own_id := host_id K seed\<rparr>) p2 = (Inr v, p3)"
      and d: "body (C\<lparr>own_id := host_id K seed\<rparr>) p3 = (Inr x, p')"
    using assms(1) unfolding run_peer_def Let_def
    by (auto elim!: io_bind_InrE split: if_split_asm)
  have "tree_peer p1" using keepsD [of tree_peer, OF tree_on_disk [OF wf_mkdir_p] a] assms(2) by blast
  then have "tree_peer p2" using keepsD [of tree_peer, OF tree_on_disk [OF wf_files(3)] b] by blast
  then have "tree_peer p3" using keepsD [of tree_peer, OF tree_start c] by blast
  then show thesis using d that by blast
qed

lemma do_fetch_genuine:
  assumes "do_fetch E K S now order uri naming ann p = (Inr True, p')" and "fs_wf (pdisk p)"
    and "\<And>u. apart (s_sites S @ [u]) (pins_default K)"
    and "\<And>u. apart (s_sites S @ [u]) (butlast (pins_default K) @ [last (pins_default K) @ ''.tmp-'' @ str_of_nat (process_id (network K))])"
  shows "\<exists>C p1. data_dir C = s_sites S \<and> pins_path C = pins_default K \<and>
    genuine_fetch E C now (strip_uri_scheme uri) p1 p'"
proof -
  obtain far p0 where r: "run_peer E K ((network K)\<lparr>naming_end := Some far, data_dir := s_sites S, pins_path := pins_default K\<rparr>) None ''none''
       (\<lambda>C. fetch_site E C now order (strip_uri_scheme uri) [] ann) p0 = (Inr True, p')" and p0: "p0 = p"
    using assms(1) unfolding do_fetch_def by (auto elim!: io_bind_InrE)
  have t: "tree_peer p0" using assms(2) p0 by (simp add: tree_peer_def)
  obtain seed p1 where p1: "tree_peer p1" "fetch_site E ((network K)\<lparr>naming_end := Some far, data_dir := s_sites S,
      pins_path := pins_default K, own_id := host_id K seed\<rparr>) now order (strip_uri_scheme uri) [] ann p1 = (Inr True, p')"
    by (rule run_peer_body [OF r t]) simp
  let ?C = "(network K)\<lparr>naming_end := Some far, data_dir := s_sites S, pins_path := pins_default K, own_id := host_id K seed\<rparr>"
  have "genuine_fetch E ?C now (strip_uri_scheme uri) p1 p'"
    by (rule fetch_site_genuine [OF p1(2)]) (use p1(1) assms(3,4) in \<open>simp_all add: tree_peer_def\<close>)
  then show ?thesis by (intro exI [of _ ?C] exI [of _ p1] conjI) simp_all
qed

end
