(* ===== verification/Interactive.thy ===== *)
theory Interactive
  imports DiskTree
begin

text \<open>
  mdp2p_client/interactive.py: the menu and its actions as code that reads the user's lines and works on the
  peer's state.  Of what is printed the tables are kept, and what printing a malformed value raises.
\<close>

section \<open>Choices\<close>

text \<open>\<open>choice.isdigit()\<close> on ASCII text, then the list element with that number, counted from one.\<close>

definition all_digits :: "string \<Rightarrow> bool" where
  "all_digits s \<longleftrightarrow> s \<noteq> [] \<and> list_all is_digit s"

definition numbered :: "string \<Rightarrow> 'a list \<Rightarrow> 'a option" where
  "numbered choice xs =
     (case int_of_str choice of
        None \<Rightarrow> None
      | Some n \<Rightarrow> if 0 \<le> n - 1 \<and> n - 1 < int (length xs) then Some (xs ! nat (n - 1)) else None)"

section \<open>Actions\<close>

definition action_add ::
  "env \<Rightarrow> 's machine \<Rightarrow> (string \<Rightarrow> path res) \<Rightarrow> bool \<Rightarrow> string \<Rightarrow> settings \<Rightarrow> int \<Rightarrow> ('s console, unit) op" where
  "action_add E K locate chown_works lang S now =
     io_bind prompt_input (\<lambda>uri.
     if uri = [] then io_ret ()
     else io_bind prompt_input (\<lambda>dir.
       if dir = [] then io_ret ()
       else io_bind (io_lift (locate dir)) (\<lambda>site w.
         if \<not> fexists (pdisk (session w)) site \<or> md_under (pdisk (session w)) site = [] then (Inr (), w)
         else io_bind (with_repair (fix_permissions lang chown_works) (\<lambda>e. io_ret 1) (in_session (do_publish E K S now uri site [])))
           (\<lambda>_. io_ret ()) w)))"

definition chosen_site :: "string \<Rightarrow> seeded_site list \<Rightarrow> seeded_site option" where
  "chosen_site choice sites =
     (if all_digits choice then numbered choice sites else List.find (\<lambda>s. seed_uri s = JStr choice) sites)"

text \<open>One line per site: author, key, URI, size and number of files.\<close>

definition numbered_sites :: "env \<Rightarrow> display \<Rightarrow> seeded_site list \<Rightarrow> string list res" where
  "numbered_sites E V sites =
     mapE (\<lambda>s. bindE (key_hint E (seed_public_key s)) (\<lambda>hint. bindE (format_size E (seed_total_size s)) (\<lambda>size.
       Inr (py_str E (seed_author s) @ hint @ ''@'' @ py_str E (seed_uri s) @ ''  ('' @ size @ '', ''
            @ counted V ''files_unit'' (py_str E (seed_file_count s)) @ '')'')))) sites"

definition removal_dialogue :: "env \<Rightarrow> display \<Rightarrow> string \<Rightarrow> seeded_site list \<Rightarrow> ('s console, unit) op" where
  "removal_dialogue E V lang sites =
     (if sites = [] then io_ret ()
      else io_bind (shown (numbered_sites E V sites)) (\<lambda>_. io_bind prompt_input (\<lambda>choice.
        if choice = [] then io_ret ()
        else case chosen_site choice sites of
          None \<Rightarrow> io_ret ()
        | Some site \<Rightarrow>
            io_bind (confirmed lang) (\<lambda>yes.
            if \<not> yes then io_ret ()
            else io_bind (io_opt (on_files (rmtree (seed_dir site)))) (\<lambda>_. io_ret ())))))"

definition action_remove :: "env \<Rightarrow> display \<Rightarrow> path \<Rightarrow> string \<Rightarrow> client_config \<Rightarrow> ('s console, unit option) op" where
  "action_remove E V cwd lang c = with_sites E cwd c (removal_dialogue E V lang)"

definition action_browse :: "env \<Rightarrow> 's machine \<Rightarrow> display \<Rightarrow> settings \<Rightarrow> ('s console, unit) op" where
  "action_browse E K V S =
     io_bind (io_opt (io_bind (in_session (list_registered_sites E K S)) (\<lambda>records. shown (print_browse_table E V records))))
       (\<lambda>_. io_ret ())"

text \<open>The configuration and the language in use after the editor.\<close>

definition edit_config ::
  "env \<Rightarrow> path \<Rightarrow> path \<Rightarrow> bool \<Rightarrow> string \<Rightarrow> client_config \<Rightarrow> ('s console, client_config \<times> string) op" where
  "edit_config E home cwd chown_works lang c =
     io_bind prompt_input (\<lambda>author. let c1 = (if author = [] then c else c\<lparr>cfg_author := JStr author\<rparr>) in
     io_bind prompt_input (\<lambda>naming. let c2 = (if naming = [] then c1 else c1\<lparr>cfg_naming := JStr naming\<rparr>) in
     io_bind prompt_input (\<lambda>code.
       let known = code \<in> set supported_languages; c3 = (if known then c2\<lparr>cfg_language := JStr code\<rparr> else c2);
           lang' = (if known then code else lang) in
       io_bind (with_repair (fix_permissions lang' chown_works) io_raise
         (on_files (io_bind (ensure_config home cwd (Some c3)) (\<lambda>c'. config_save E c' (default_config_file home)))))
         (\<lambda>_. io_ret (c3, lang')))))"

definition action_config ::
  "env \<Rightarrow> path \<Rightarrow> path \<Rightarrow> bool \<Rightarrow> string \<Rightarrow> client_config option \<Rightarrow> ('s console, (client_config \<times> string) option) op" where
  "action_config E home cwd chown_works lang given =
     (case given of
        None \<Rightarrow> io_bind (edit_config E home cwd chown_works lang (new_config home (JStr ''anonymous''))) (\<lambda>r. io_ret (Some r))
      | Some c \<Rightarrow>
          with_sites E cwd c (\<lambda>sites.
          io_bind (confirmed lang) (\<lambda>yes.
          if \<not> yes then io_ret (c, lang) else edit_config E home cwd chown_works lang c)))"

definition chosen_pin :: "string \<Rightarrow> jdict \<Rightarrow> string option" where
  "chosen_pin choice pins =
     (if all_digits choice then numbered choice (sort (map fst pins))
      else let bare = strip_uri_scheme choice in if map_of pins bare = None then None else Some bare)"

definition pins_dialogue :: "env \<Rightarrow> nat \<Rightarrow> path \<Rightarrow> string \<Rightarrow> json \<Rightarrow> ('s console, unit) op" where
  "pins_dialogue E pid home lang pinstore =
     (if \<not> truthy pinstore then io_ret ()
      else io_bind (io_lift (py_items pinstore)) (\<lambda>pins.
        io_bind prompt_input (\<lambda>choice.
        if choice = [] then io_ret ()
        else case chosen_pin choice pins of
          None \<Rightarrow> io_ret ()
        | Some uri \<Rightarrow>
            if uri = [] then io_ret ()
            else io_bind (confirmed lang) (\<lambda>yes.
            if \<not> yes then io_ret ()
            else io_bind (on_files (unpin_key E pid uri (get_pinstore_path home))) (\<lambda>_. io_ret ())))))"

definition action_pins :: "env \<Rightarrow> display \<Rightarrow> nat \<Rightarrow> path \<Rightarrow> string \<Rightarrow> ('s console, unit) op" where
  "action_pins E V pid home lang =
     io_bind (on_files (load_pinstore E (get_pinstore_path home))) (\<lambda>pinstore.
     io_bind (shown (print_pins_table E V pinstore)) (\<lambda>_. pins_dialogue E pid home lang pinstore))"

section \<open>The menu\<close>

text \<open>
  Where the client runs: the libraries, the screen, the machine and its user.  \<open>locate\<close> is
  \<open>Path(s).expanduser().resolve()\<close> and \<open>resolved\<close> is \<open>Path(s).resolve()\<close>; \<open>completion\<close> is the order in
  which downloads end.
\<close>

record 's desk =
  desk_machine :: "'s machine"
  desk_host :: host
  screen :: display
  locate :: "string \<Rightarrow> path res"
  resolved :: "string \<Rightarrow> path"
  chown_works :: bool
  is_tty :: bool
  home_path :: path
  cwd_path :: path
  desk_pid :: nat
  completion :: "string list \<Rightarrow> string list"
  listen_addrs :: "string list"
  clock :: "'s console \<Rightarrow> int"

text \<open>The settings an operation works with; \<open>None\<close> where they have other types than the dataclass declares.\<close>

definition with_settings :: "path \<Rightarrow> client_config \<Rightarrow> (settings \<Rightarrow> ('s console, 'a) op) \<Rightarrow> ('s console, 'a option) op" where
  "with_settings cwd c act =
     (case settings_of cwd c of
        None \<Rightarrow> io_ret None
      | Some S \<Rightarrow> io_bind (act S) (\<lambda>r. io_ret (Some r)))"

text \<open>
  One turn: what the choice does to the configuration and the language; \<open>None\<close> where it is outside the model.
  The sites are those the turn has found.
\<close>

definition menu_action ::
  "env \<Rightarrow> 's desk \<Rightarrow> client_config \<Rightarrow> string \<Rightarrow> seeded_site list \<Rightarrow> string
     \<Rightarrow> ('s console, (client_config \<times> string) option) op" where
  "menu_action E T c lang sites choice =
     (let stay = map_option (\<lambda>_. (c, lang)) in
      if choice = ''1'' then io_bind (shown (print_seeds_table E (screen T) sites)) (\<lambda>_. io_ret (Some (c, lang)))
      else if choice = ''2'' then
        io_bind (with_settings (cwd_path T) c (\<lambda>S w. action_add E (desk_machine T) (locate T) (chown_works T) lang S (clock T w) w))
          (\<lambda>r. io_ret (stay r))
      else if choice = ''3'' then io_bind (action_remove E (screen T) (cwd_path T) lang c) (\<lambda>r. io_ret (stay r))
      else if choice = ''4'' then
        io_bind (with_settings (cwd_path T) c (action_browse E (desk_machine T) (screen T))) (\<lambda>r. io_ret (stay r))
      else if choice = ''5'' then action_config E (home_path T) (cwd_path T) (chown_works T) lang (Some c)
      else if choice = ''6'' then
        io_bind (action_pins E (screen T) (desk_pid T) (home_path T) lang) (\<lambda>_. io_ret (Some (c, lang)))
      else io_ret (Some (c, lang)))"

text \<open>The body of the loop, with what comes after it as a continuation.\<close>

definition menu_turn ::
  "env \<Rightarrow> 's desk \<Rightarrow> client_config \<Rightarrow> string \<Rightarrow> (client_config \<Rightarrow> string \<Rightarrow> ('s console, unit option) op)
     \<Rightarrow> ('s console, unit option) op" where
  "menu_turn E T c lang again =
     io_bind (with_sites E (cwd_path T) c io_ret) (\<lambda>found.
     case found of
       None \<Rightarrow> io_ret None
     | Some sites \<Rightarrow> io_bind next_line (\<lambda>l.
         case l of
           None \<Rightarrow> io_ret (Some ())
         | Some s \<Rightarrow>
             (let choice = lower (strip s) in
              if choice = ''r'' then again c lang
              else if choice \<in> {''q'', ''quit'', ''exit''} then io_ret (Some ())
              else io_bind (menu_action E T c lang sites choice) (\<lambda>r.
                case r of
                  None \<Rightarrow> io_ret None
                | Some (c', lang') \<Rightarrow> io_bind press_enter (\<lambda>_. again c' lang')))))"

text \<open>At most \<open>n\<close> turns, then \<open>out\<close>.\<close>

fun menu_rounds ::
  "env \<Rightarrow> 's desk \<Rightarrow> (client_config \<Rightarrow> string \<Rightarrow> ('s console, unit option) op) \<Rightarrow> nat \<Rightarrow> client_config \<Rightarrow> string
     \<Rightarrow> ('s console, unit option) op" where
  "menu_rounds E T out 0 c lang = out c lang"
| "menu_rounds E T out (Suc n) c lang = menu_turn E T c lang (menu_rounds E T out n)"

text \<open>The loop; the result is \<open>None\<close> where the turns are spent or something is outside the model.\<close>

definition menu_loop :: "env \<Rightarrow> 's desk \<Rightarrow> nat \<Rightarrow> client_config \<Rightarrow> string \<Rightarrow> ('s console, unit option) op" where
  "menu_loop E T = menu_rounds E T (\<lambda>c lang. io_ret None)"

definition interactive_mode :: "env \<Rightarrow> 's desk \<Rightarrow> nat \<Rightarrow> client_config option \<Rightarrow> ('s console, unit option) op" where
  "interactive_mode E T n given =
     (case given of
        None \<Rightarrow>
          io_bind (action_config E (home_path T) (cwd_path T) (chown_works T) ''fr'' None) (\<lambda>r.
          case r of
            None \<Rightarrow> io_ret None
          | Some (c, lang) \<Rightarrow> io_bind press_enter (\<lambda>_. menu_loop E T n c lang))
      | Some c \<Rightarrow>
          io_bind (on_files (ensure_config (home_path T) (cwd_path T) (Some c))) (\<lambda>c'.
          menu_loop E T n c' (loaded_language (cfg_language c'))))"

section \<open>The menu ends\<close>

text \<open>Every turn reads a line, and no action adds one: fuel for one turn more than there are lines is enough.\<close>

definition few :: "nat \<Rightarrow> 's console \<Rightarrow> bool" where
  "few n w \<longleftrightarrow> length (entered w) \<le> n"

lemma few_session [kept_rules]: "keeps (few n) (in_session m)"
  by (simp add: keeps_def few_def in_session_def split_beta)

lemma few_line [kept_rules]: "keeps (few n) next_line"
  by (simp add: keeps_def few_def next_line_def split: list.split)

lemma few_prompts [kept_rules]: "keeps (few n) prompt_input" "keeps (few n) press_enter" "keeps (few n) (confirmed lang)"
    "keeps (few n) (fix_permissions lang ok)"
  unfolding prompt_input_def press_enter_def confirmed_def fix_permissions_def by (intro kept_rules)+

lemma keeps_shown [kept_rules]: "keeps P (shown r)"
  unfolding shown_def by (intro kept_rules)

lemma keeps_repair [kept_rules]:
  "keeps P repair \<Longrightarrow> (\<And>e. keeps P (h e)) \<Longrightarrow> keeps P m \<Longrightarrow> keeps P (with_repair repair h m)"
  unfolding with_repair_def by (intro kept_rules) assumption+

lemma few_sites: "(\<And>sites. keeps (few n) (act sites)) \<Longrightarrow> keeps (few n) (with_sites E cwd c act)"
  unfolding with_sites_def by (rule keeps_bind few_session keeps_cases keeps_basic | assumption)+

lemma few_actions:
  "keeps (few n) (action_add E K loc ok lang S now)" "keeps (few n) (action_remove E V cwd lang c)"
  "keeps (few n) (action_browse E K V S)" "keeps (few n) (action_config E home cwd ok lang given)"
  "keeps (few n) (action_pins E V pid home lang)"
proof -
  have e: "keeps (few n) (edit_config E home cwd ok lang c)" for lang c
    unfolding edit_config_def Let_def by (intro kept_rules)
  show "keeps (few n) (action_add E K loc ok lang S now)"
    unfolding action_add_def by (intro kept_rules)
  show "keeps (few n) (action_remove E V cwd lang c)"
    unfolding action_remove_def removal_dialogue_def [abs_def] by (intro few_sites kept_rules)
  show "keeps (few n) (action_browse E K V S)" unfolding action_browse_def by (intro kept_rules)
  show "keeps (few n) (action_config E home cwd ok lang given)"
    unfolding action_config_def by (intro few_sites kept_rules e)
  show "keeps (few n) (action_pins E V pid home lang)"
    unfolding action_pins_def pins_dialogue_def Let_def by (intro kept_rules)
qed

lemma few_menu_action: "keeps (few n) (menu_action E T c lang sites choice)"
proof -
  have "keeps (few n) (\<lambda>w. action_add E (desk_machine T) (locate T) (chown_works T) lang S (clock T w) w)" for S
    by (rule keeps_arg) (rule few_actions)
  then show ?thesis
    unfolding menu_action_def with_settings_def Let_def by (intro kept_rules few_actions)
qed

lemma io_bind_agree: "(\<And>x s1. m s = (Inr x, s1) \<Longrightarrow> f x s1 = g x s1) \<Longrightarrow> io_bind m f s = io_bind m g s"
  by (simp add: io_bind_def split: prod.split sum.split)

text \<open>What comes after a turn starts with a line less.\<close>

lemma after_action:
  assumes "\<And>c' lang' w'. few n w' \<Longrightarrow> f c' lang' w' = g c' lang' w'" and "few n w"
  shows "io_bind (menu_action E T c lang sites choice)
      (\<lambda>r. case r of None \<Rightarrow> io_ret None | Some (c', lang') \<Rightarrow> io_bind press_enter (\<lambda>_. f c' lang')) w =
    io_bind (menu_action E T c lang sites choice)
      (\<lambda>r. case r of None \<Rightarrow> io_ret None | Some (c', lang') \<Rightarrow> io_bind press_enter (\<lambda>_. g c' lang')) w"
proof (rule io_bind_agree, goal_cases)
  case (1 r w4)
  have w4: "few n w4" using keepsD [OF few_menu_action 1 assms(2)] .
  show ?case
  proof (cases r)
    case (Some cl)
    obtain c' lang' where cl: "cl = (c', lang')" by (cases cl)
    have "io_bind press_enter (\<lambda>_. f c' lang') w4 = io_bind press_enter (\<lambda>_. g c' lang') w4"
      by (rule io_bind_agree) (simp add: assms(1) keepsD [OF few_prompts(2) _ w4])
    then show ?thesis using Some cl by simp
  qed simp
qed

lemma menu_turn_agree:
  assumes "\<And>c' lang' w'. length (entered w') < length (entered w) \<Longrightarrow> f c' lang' w' = g c' lang' w'"
  shows "menu_turn E T c lang f w = menu_turn E T c lang g w"
  unfolding menu_turn_def
proof (rule io_bind_agree, goal_cases)
  case (1 found w2)
  have "few (length (entered w)) w2" using keepsD [OF few_sites 1] by (simp add: few_def keeps_basic)
  then have w2: "length (entered w2) \<le> length (entered w)" by (simp add: few_def)
  show ?case
  proof (cases found)
    case sites: (Some sites)
    show ?thesis
      unfolding sites option.case
    proof (rule io_bind_agree, goal_cases)
      case (1 l w3)
      show ?case
      proof (cases l)
        case (Some s)
        have w3: "length (entered w3) < length (entered w)"
          using 1 Some w2 by (auto simp: next_line_def split: list.split_asm)
        have same: "f c' lang' w' = g c' lang' w'" if "few (length (entered w3)) w'" for c' lang' w'
          using assms that w3 by (simp add: few_def)
        then show ?thesis
          using Some after_action [of "length (entered w3)" f g w3 E T c lang sites "lower (strip s)"]
          by (simp add: Let_def few_def)
      qed simp
    qed
  qed simp
qed

lemma menu_rounds_agree:
  assumes "length (entered w) < n" and "length (entered w) < m"
  shows "menu_rounds E T out n c lang w = menu_rounds E T out' m c lang w"
  using assms
proof (induction n arbitrary: m c lang w)
  case (Suc n)
  then obtain k where m: "m = Suc k" by (cases m) auto
  show ?case
    unfolding m menu_rounds.simps by (rule menu_turn_agree, rule Suc.IH) (use Suc.prems m in linarith)+
qed simp

lemma menu_fuel:
  assumes "length (entered w) < n" and "length (entered w) < m"
  shows "menu_loop E T n c lang w = menu_loop E T m c lang w"
  unfolding menu_loop_def by (rule menu_rounds_agree [OF assms])

section \<open>Nothing is removed without a confirmation\<close>

definition unconfirmed :: "fsys \<Rightarrow> string \<Rightarrow> 's console \<Rightarrow> bool" where
  "unconfirmed d lang w \<longleftrightarrow> pdisk (session w) = d \<and> (\<forall>s. Some s \<in> set (entered w) \<longrightarrow> lower (strip s) \<noteq> confirm_yes lang)"

lemma unconfirmed_line [kept_rules]: "keeps (unconfirmed d lang) next_line" "keeps (unconfirmed d lang) prompt_input"
proof -
  show n: "keeps (unconfirmed d lang) next_line"
    by (auto simp: keeps_def unconfirmed_def next_line_def split: list.split)
  show "keeps (unconfirmed d lang) prompt_input"
    unfolding prompt_input_def by (intro kept_rules n)
qed

lemma unconfirmed_reads [kept_rules]: "reads m \<Longrightarrow> keeps (unconfirmed d lang) (on_files m)"
  by (simp add: keeps_def unconfirmed_def in_session_def on_disk_def reads_def split_beta)

lemma confirm_yes_ne: "confirm_yes lang \<noteq> []"
  by (simp add: confirm_yes_def)

lemma unconfirmed_bind:
  assumes "keeps (unconfirmed d lang) (f False)"
  shows "keeps (unconfirmed d lang) (io_bind (confirmed lang) f)"
proof -
  have "\<exists>w'. confirmed lang w = (Inr False, w') \<and> unconfirmed d lang w'" if "unconfirmed d lang w" for w :: "'s console"
    using that confirm_yes_ne [of lang]
    by (auto simp: confirmed_def prompt_input_def next_line_def io_bind_def io_ret_def unconfirmed_def lower_def split: list.split option.split)
  then show ?thesis
    using assms by (fastforce simp: keeps_def io_bind_def)
qed

lemma unconfirmed_unless:
  "keeps (unconfirmed d lang) a \<Longrightarrow> keeps (unconfirmed d lang) (io_bind (confirmed lang) (\<lambda>yes. if \<not> yes then a else f yes))"
  by (rule unconfirmed_bind) simp

lemma keeps_all_reads: "(\<And>P. keeps P m) \<Longrightarrow> reads m"
proof -
  assume k: "\<And>P. keeps P m"
  show "reads m"
    unfolding reads_def
  proof
    fix s
    show "snd (m s) = s" using k [of "\<lambda>t. t = s"] by (simp add: keeps_def)
  qed
qed

lemma keeps_map_dep: "(\<And>x. keeps P (f x)) \<Longrightarrow> (\<And>y. keeps P (g y)) \<Longrightarrow> keeps P (\<lambda>s. io_bind (io_map f (xs s)) g s)"
  using keeps_bind [OF keeps_map [of P f], of g] by (simp add: keeps_def)

lemma reads_sites: "reads (get_seeded_sites E d)"
proof (rule keeps_all_reads)
  fix P
  have "keeps P (seeded_in E site)" for site
    unfolding seeded_in_def [abs_def] read_manifest_def by (intro kept_rules)
  then show "keeps P (get_seeded_sites E d)"
    unfolding get_seeded_sites_def [abs_def] Let_def by (intro kept_rules keeps_map_dep)
qed

lemma unconfirmed_sites:
  "(\<And>sites. keeps (unconfirmed d lang) (act sites)) \<Longrightarrow> keeps (unconfirmed d lang) (with_sites E cwd c act)"
  unfolding with_sites_def by (rule keeps_bind unconfirmed_reads reads_sites keeps_cases keeps_basic | assumption)+

lemma unconfirmed_actions:
  "keeps (unconfirmed d lang) (action_remove E V cwd lang c)" "keeps (unconfirmed d lang) (action_pins E V pid home lang)"
  "keeps (unconfirmed d lang) (fix_permissions lang ok)"
proof -
  show "keeps (unconfirmed d lang) (action_remove E V cwd lang c)"
    unfolding action_remove_def removal_dialogue_def [abs_def]
    by (rule unconfirmed_sites | rule unconfirmed_unless | rule kept_rules)+
  show "keeps (unconfirmed d lang) (action_pins E V pid home lang)"
    unfolding action_pins_def pins_dialogue_def by (rule unconfirmed_unless | rule kept_rules reads_load_pinstore)+
  show "keeps (unconfirmed d lang) (fix_permissions lang ok)"
    unfolding fix_permissions_def by (rule unconfirmed_bind kept_rules)+
qed

section \<open>What is removed is the chosen site\<close>

definition found_at :: "path \<Rightarrow> node option \<Rightarrow> 's console \<Rightarrow> bool" where
  "found_at x v w \<longleftrightarrow> at_path (pdisk (session w)) x = v"

lemma found_lines [kept_rules]: "keeps (found_at x v) next_line" "keeps (found_at x v) prompt_input" "keeps (found_at x v) (confirmed lang)"
proof -
  show n: "keeps (found_at x v) next_line"
    by (simp add: keeps_def found_at_def next_line_def split: list.split)
  show p: "keeps (found_at x v) prompt_input" unfolding prompt_input_def by (intro kept_rules n)
  show "keeps (found_at x v) (confirmed lang)" unfolding confirmed_def by (intro kept_rules p)
qed

lemma found_rmtree: "\<not> prefix site x \<Longrightarrow> keeps (found_at x v) (on_files (rmtree site))"
  using same_exceptD [OF rmtree_frame] by (fastforce simp: keeps_def found_at_def in_session_def on_disk_def split: prod.split)

lemma chosen_site_listed: "chosen_site choice sites = Some s \<Longrightarrow> s \<in> set sites"
  by (auto simp: chosen_site_def numbered_def find_Some_iff split: if_split_asm option.split_asm intro!: nth_mem)

lemma found_removal:
  assumes "\<And>site. site \<in> set sites \<Longrightarrow> \<not> prefix (seed_dir site) x"
  shows "keeps (found_at x v) (removal_dialogue E V lang sites)"
proof -
  have "keeps (found_at x v) (case chosen_site choice sites of None \<Rightarrow> io_ret ()
        | Some site \<Rightarrow> io_bind (confirmed lang) (\<lambda>yes. if \<not> yes then io_ret ()
            else io_bind (io_opt (on_files (rmtree (seed_dir site)))) (\<lambda>_. io_ret ())))" for choice
    using assms chosen_site_listed [of choice sites]
    by (cases "chosen_site choice sites") (auto intro!: kept_rules found_rmtree)
  then show ?thesis
    unfolding removal_dialogue_def
    by (intro keeps_cases(1) keeps_bind keeps_shown keeps_basic found_lines)
qed

lemma with_sites_run:
  assumes "with_sites E cwd c act w = (r, w')"
  shows "w' = w \<or> (\<exists>data_path sites ra. dir_of cwd (cfg_data_dir c) = Inr data_path \<and>
    get_seeded_sites E data_path (pdisk (session w)) = (Inr (Some sites), pdisk (session w)) \<and> act sites w = (ra, w'))"
proof (cases "dir_of cwd (cfg_data_dir c)")
  case (Inr dp)
  obtain fr d where g: "get_seeded_sites E dp (pdisk (session w)) = (fr, d)" by fastforce
  then have "on_files (get_seeded_sites E dp) w = (fr, w)"
    using readsD [OF reads_sites g] by (simp add: in_session_def on_disk_def)
  then show ?thesis
    using assms Inr g readsD [OF reads_sites g]
    by (cases fr) (auto simp: with_sites_def io_bind_def io_lift_def io_ret_def split: option.split_asm prod.split_asm sum.split_asm)
qed (use assms in \<open>simp add: with_sites_def io_bind_def io_lift_def\<close>)

lemma removed_inside:
  assumes "action_remove E V cwd lang c w = (r, w')" and "at_path (pdisk (session w')) x \<noteq> at_path (pdisk (session w)) x"
  shows "\<exists>data_path sites site. dir_of cwd (cfg_data_dir c) = Inr data_path \<and>
    get_seeded_sites E data_path (pdisk (session w)) = (Inr (Some sites), pdisk (session w)) \<and> site \<in> set sites \<and> prefix (seed_dir site) x"
proof -
  obtain dp sites ra where s: "dir_of cwd (cfg_data_dir c) = Inr dp"
      "get_seeded_sites E dp (pdisk (session w)) = (Inr (Some sites), pdisk (session w))"
      and run: "removal_dialogue E V lang sites w = (ra, w')"
    using with_sites_run [OF assms(1) [unfolded action_remove_def]] assms(2) by blast
  have "\<exists>site \<in> set sites. prefix (seed_dir site) x"
    using keepsD [OF found_removal run, of x "at_path (pdisk (session w)) x"] assms(2) by (auto simp: found_at_def)
  then show ?thesis using s by blast
qed

end
