(* ===== verification/App.thy ===== *)
theory App
  imports Interactive
begin

text \<open>
  mdp2p_client/app.py: the client as a function of the parsed arguments.  The declarations of the argument
  parser are data of \<open>argparse\<close>; a value of \<open>command\<close> is what they parse to.
\<close>

section \<open>Arguments\<close>

datatype command =
    NoCommand | CmdList | CmdPublish string string "string option" | CmdFetch string "string option" | CmdServe
  | CmdRemove string | CmdSetup string "string option" "string option" bool "string option" | CmdBrowse | CmdPins
  | CmdUnpin string | CmdStatus | CmdTui | CmdService string | CmdInbox bool | CmdReview string string string
  | CmdReviewer string "string option" | CmdLanguage string

text \<open>\<open>[s.strip() for s in x.split(",") if s.strip()]\<close> where the option is given and not empty.\<close>

definition given_categories :: "string option \<Rightarrow> string list option" where
  "given_categories x =
     (case x of
        None \<Rightarrow> None
      | Some s \<Rightarrow> if s = [] then None else Some (filter (\<lambda>y. y \<noteq> []) (map strip (split_on CHR '','' s))))"

section \<open>Dispatch\<close>

definition coded :: "int \<Rightarrow> ('s, 'a option) op \<Rightarrow> ('s, int option) op" where
  "coded n m = io_bind m (\<lambda>r. io_ret (map_option (\<lambda>_. n) r))"

definition code_of :: "('s, int) op \<Rightarrow> ('s, int option) op" where
  "code_of m = io_bind m (\<lambda>n. io_ret (Some n))"

text \<open>The commands that need a configuration; the language in use is the one it was loaded with.\<close>

definition configured :: "env \<Rightarrow> 's desk \<Rightarrow> int \<Rightarrow> string \<Rightarrow> client_config \<Rightarrow> command \<Rightarrow> ('s console, int option) op" where
  "configured E T now lang c cmd =
     (let K = desk_machine T; V = screen T; P = codec (network K); h = desk_host T; home = home_path T; cwd = cwd_path T
      in case cmd of
        CmdList \<Rightarrow> coded 0 (cli_list E V cwd c)
      | CmdBrowse \<Rightarrow> with_settings cwd c (cli_browse E K V)
      | CmdPublish uri site cats \<Rightarrow>
          with_settings cwd c (\<lambda>S. cli_publish E K S c h (is_tty T) (chown_works T) lang now uri (resolved T site) (given_categories cats))
      | CmdFetch uri naming \<Rightarrow> with_settings cwd c (\<lambda>S. cli_fetch E K S c h (is_tty T) now (completion T) uri naming)
      | CmdServe \<Rightarrow>
          io_bind (with_settings cwd c (\<lambda>S. cli_serve E K S c cwd now (completion T) (listen_addrs T))) (\<lambda>r. io_ret (Option.bind r id))
      | CmdRemove uri \<Rightarrow> cli_remove E cwd lang c uri
      | CmdStatus \<Rightarrow> coded 0 (cli_status E cwd c)
      | CmdInbox as_json \<Rightarrow> with_settings cwd c (\<lambda>S. cli_inbox E K S now)
      | CmdReview content_key verdict comment \<Rightarrow> with_settings cwd c (\<lambda>S. cli_review E K S now content_key verdict comment)
      | CmdReviewer action cats \<Rightarrow>
          if action = ''enable''
          then code_of (io_bind (cli_reviewer_enable E P (fresh_key K) (write_sizes K) home cwd c (given_categories cats))
                 (\<lambda>(code, _). io_ret code))
          else if action = ''disable'' then code_of (io_bind (cli_reviewer_disable E home c) (\<lambda>(code, _). io_ret code))
          else if action = ''status'' then code_of (cli_reviewer_status P cwd c)
          else io_ret (Some 0)
      | CmdLanguage code \<Rightarrow> code_of (io_bind (cli_language E home c code) (\<lambda>(n, _). io_ret n))
      | _ \<Rightarrow> io_ret (Some 0))"

text \<open>The exit code; \<open>None\<close> where the run is outside the model, as the Textual interface is.\<close>

definition main :: "env \<Rightarrow> 's desk \<Rightarrow> nat \<Rightarrow> command \<Rightarrow> ('s console, int option) op" where
  "main E T n cmd =
     (let K = desk_machine T; home = home_path T in
      io_bind (on_files (config_load E home (default_config_file home))) (\<lambda>given.
      let lang = (case given of None \<Rightarrow> ''fr'' | Some c \<Rightarrow> loaded_language (cfg_language c)) in
      case cmd of
        NoCommand \<Rightarrow> coded 0 (interactive_mode E T n given)
      | CmdSetup author naming language reviewer cats \<Rightarrow>
          code_of (cli_setup E (codec (network K)) (fresh_key K) (write_sizes K) home (cwd_path T) (chown_works T) given author
            naming language (if reviewer then Some True else None) (given_categories cats))
      | CmdPins \<Rightarrow> io_bind (cli_pins E (screen T) home) (\<lambda>_. io_ret (Some 0))
      | CmdUnpin uri \<Rightarrow> code_of (cli_unpin E (desk_pid T) home uri)
      | CmdTui \<Rightarrow> io_ret None
      | CmdService action \<Rightarrow> code_of (cli_service (desk_host T) action)
      | _ \<Rightarrow>
          (case given of
             None \<Rightarrow> io_ret (Some 1)
           | Some c0 \<Rightarrow> io_bind (on_files (ensure_config home (cwd_path T) (Some c0))) (\<lambda>c w. configured E T (clock T w) lang c cmd w))))"

text \<open>\<open>sys.exit(trio.run(main) or 0)\<close>: an exception ends the process with status one.\<close>

definition exit_status :: "exn + int option \<Rightarrow> int option" where
  "exit_status r = (case r of Inl e \<Rightarrow> Some 1 | Inr n \<Rightarrow> n)"

section \<open>Exit codes\<close>

text \<open>Every result that code ends with satisfies a predicate.\<close>

named_theorems yield_rules "code whose results satisfy a predicate"

definition yields :: "('a \<Rightarrow> bool) \<Rightarrow> ('s, 'a) op \<Rightarrow> bool" where
  "yields P m \<longleftrightarrow> (\<forall>s x s'. m s = (Inr x, s') \<longrightarrow> P x)"

lemma yieldsI: "(\<And>s x s'. m s = (Inr x, s') \<Longrightarrow> P x) \<Longrightarrow> yields P m"
  by (simp add: yields_def)

lemma yieldsD: "yields P m \<Longrightarrow> m s = (Inr x, s') \<Longrightarrow> P x"
  unfolding yields_def by blast

lemma yields_basic [yield_rules]: "P x \<Longrightarrow> yields P (io_ret x)" "yields P (io_raise e)" "P x \<Longrightarrow> yields P (\<lambda>s. (Inr x, s))"
  by (simp_all add: yields_def)

lemma yields_bind [yield_rules]: "(\<And>x. yields P (f x)) \<Longrightarrow> yields P (io_bind m f)"
  unfolding yields_def by (auto elim!: io_bind_InrE)

lemma yields_then: "yields P m \<Longrightarrow> (\<And>x. P x \<Longrightarrow> yields Q (f x)) \<Longrightarrow> yields Q (io_bind m f)"
  by (rule yieldsI) (auto elim!: io_bind_InrE dest: yieldsD)

lemma yields_try [yield_rules]: "yields P m \<Longrightarrow> (\<And>e. yields P (h e)) \<Longrightarrow> yields P (io_try m h)"
  by (rule yieldsI) (auto simp: io_try_def dest: yieldsD split: prod.split_asm sum.split_asm)

lemma yields_cases [yield_rules]:
  "yields P a \<Longrightarrow> yields P b \<Longrightarrow> yields P (if c then a else b)"
  "yields P a \<Longrightarrow> (\<And>y. yields P (f y)) \<Longrightarrow> yields P (case x of None \<Rightarrow> a | Some y \<Rightarrow> f y)"
  "(\<And>u v. yields P (g u v)) \<Longrightarrow> yields P (case y of (u, v) \<Rightarrow> g u v)"
  "yields P a \<Longrightarrow> yields P b \<Longrightarrow> yields P (\<lambda>s. if d s then a s else b s)"
  by (auto simp: yields_def split: option.split prod.split)

definition binary :: "int \<Rightarrow> bool" where
  "binary n \<longleftrightarrow> n = 0 \<or> n = 1"

lemma binary_01 [yield_rules]: "binary 0" "binary 1" "binary (if b then 0 else 1)"
  by (simp_all add: binary_def)

lemma yields_exit [yield_rules]: "yields binary (exit_code m)"
  unfolding exit_code_def by (intro yield_rules)

lemma yields_repair [yield_rules]: "(\<And>e. yields binary (h e)) \<Longrightarrow> yields binary (with_repair repair h m)"
  unfolding with_repair_def by (intro yield_rules) assumption+

lemma yields_with [yield_rules]:
  "(\<And>S. yields P (f S)) \<Longrightarrow> yields (pred_option P) (with_settings cwd c f)"
  "(\<And>sites. yields P (g sites)) \<Longrightarrow> yields (pred_option P) (with_sites E cwd c g)"
proof -
  assume f: "\<And>S. yields P (f S)"
  show "yields (pred_option P) (with_settings cwd c f)"
    unfolding with_settings_def
    by (rule yields_cases(2)) (rule yields_basic, simp, rule yields_then [OF f], rule yields_basic, simp)
next
  assume g: "\<And>sites. yields P (g sites)"
  show "yields (pred_option P) (with_sites E cwd c g)"
    unfolding with_sites_def
    by (rule yields_bind, rule yields_bind, rule yields_cases(2))
      (rule yields_basic, simp, rule yields_then [OF g], rule yields_basic, simp)
qed

lemma yields_coded [yield_rules]: "binary n \<Longrightarrow> yields (pred_option binary) (coded n m)" "yields binary k \<Longrightarrow> yields (pred_option binary) (code_of k)"
  unfolding coded_def code_of_def
  by (rule yields_bind, rule yields_basic, simp add: option.pred_map comp_def option.pred_True)
    (rule yields_then, assumption, rule yields_basic, simp)

lemma command_codes [yield_rules]:
  "yields binary (cli_browse E K V S)" "yields binary (cli_fetch E K S c h tty now order uri naming)"
  "yields binary (cli_publish E K S c h tty ok lang now uri site cats)" "yields binary (cli_inbox E K S now)"
  "yields binary (cli_review E K S now ck verdict comment)" "yields binary (cli_reviewer_status P cwd c)"
  "yields binary (cli_unpin E pid home uri)" "yields binary (cli_service h action)"
  "yields binary (cli_setup E P sk ks home cwd ok given author naming language reviewer cats)"
  "yields (pred_option binary) (cli_remove E cwd lang c uri)"
  "yields (pred_option binary) (cli_serve E K S c cwd now order addrs)"
  unfolding cli_browse_def cli_fetch_def cli_publish_def [abs_def] cli_inbox_def cli_review_def cli_reviewer_status_def cli_unpin_def
    cli_service_def cli_setup_def cli_remove_def cli_serve_def Let_def
  by (intro yield_rules)+

lemma changed_codes:
  "yields (\<lambda>(n, c'). binary n) (io_bind (exit_code m) (\<lambda>n. io_ret (n, c)))"
  "yields (\<lambda>(n, c'). binary n) (io_ret (0, c))" "yields (\<lambda>(n, c'). binary n) (io_ret (1, c))"
  by (rule yields_then [OF yields_exit], rule yields_basic, simp) (simp_all add: yields_basic binary_def)

lemma reviewer_codes [yield_rules]:
  "yields (\<lambda>(n, c'). binary n) (cli_reviewer_enable E P sk ks home cwd c cats)"
  "yields (\<lambda>(n, c'). binary n) (cli_reviewer_disable E home c)" "yields (\<lambda>(n, c'). binary n) (cli_language E home c code)"
proof -
  show "yields (\<lambda>(n, c'). binary n) (cli_reviewer_enable E P sk ks home cwd c cats)"
    unfolding cli_reviewer_enable_def Let_def
    by (rule yields_cases(1), rule changed_codes, rule yields_then [OF yields_exit], rule yields_cases(1))
      (rule yields_basic, simp, rule yields_bind, rule changed_codes)
  show "yields (\<lambda>(n, c'). binary n) (cli_reviewer_disable E home c)" "yields (\<lambda>(n, c'). binary n) (cli_language E home c code)"
    unfolding cli_reviewer_disable_def cli_language_def Let_def by (rule yields_cases(1), rule changed_codes, rule changed_codes)+
qed

lemma yields_pair: "yields (\<lambda>(n, c'). binary n) m \<Longrightarrow> yields (pred_option binary) (code_of (io_bind m (\<lambda>(n, c'). io_ret n)))"
  unfolding code_of_def by (rule yields_then, rule yields_then, assumption) (auto intro!: yields_basic)

lemma yields_arg: "(\<And>x. yields P (f x)) \<Longrightarrow> yields P (\<lambda>s. f (g s) s)"
  by (simp add: yields_def)

lemma yields_serve:
  "(\<And>S. yields (pred_option P) (f S)) \<Longrightarrow> yields (pred_option P) (io_bind (with_settings cwd c f) (\<lambda>r. io_ret (Option.bind r id)))"
  by (rule yields_then [OF yields_with(1)], assumption, rule yields_basic) (auto simp: option.pred_set bind_eq_Some_conv)

lemma configured_codes [yield_rules]: "yields (pred_option binary) (configured E T now lang c cmd)"
proof -
  have 0: "pred_option binary (Some 0)" by (simp add: binary_def)
  show ?thesis
    unfolding configured_def Let_def
    by (cases cmd; simp only: command.case; (rule 0 yields_pair yields_serve | rule yield_rules)+)
qed

lemma configured_now [yield_rules]: "yields (pred_option binary) (\<lambda>w. configured E T (g w) lang c cmd w)"
  using yields_arg [of "pred_option binary" "\<lambda>now. configured E T now lang c cmd" g] configured_codes by blast

lemma main_codes: "yields (pred_option binary) (main E T n cmd)"
proof -
  have 0: "pred_option binary (Some 0)" "pred_option binary (Some 1)" "pred_option binary None" by (simp_all add: binary_def)
  show ?thesis
    unfolding main_def Let_def
    by (cases cmd; simp only: command.case; (rule 0 yields_pair yields_serve | rule yield_rules)+)
qed

text \<open>Every run ends with status zero or one, or is outside the model.\<close>

lemma exit_status_range: "exit_status (fst (main E T n cmd w)) = Some k \<Longrightarrow> k = 0 \<or> k = 1"
  using yieldsD [OF main_codes, of E T n cmd w _ "snd (main E T n cmd w)"]
  by (cases "main E T n cmd w") (auto simp: exit_status_def binary_def split: sum.split_asm)

section \<open>What the listing commands touch\<close>

definition listing :: "command \<Rightarrow> bool" where
  "listing cmd \<longleftrightarrow> (case cmd of CmdReviewer action cats \<Rightarrow> action = ''status'' | _ \<Rightarrow> cmd \<in> {CmdList, CmdStatus, CmdBrowse, CmdPins})"

definition file_at :: "fsys \<Rightarrow> path \<Rightarrow> string option" where
  "file_at fs x = (case at_path fs x of Some (File c) \<Rightarrow> Some c | _ \<Rightarrow> None)"

definition same_files :: "fsys \<Rightarrow> fsys \<Rightarrow> bool" where
  "same_files d fs \<longleftrightarrow> file_at fs = file_at d"

definition same_disk :: "fsys \<Rightarrow> 's console \<Rightarrow> bool" where
  "same_disk d w \<longleftrightarrow> same_files d (pdisk (session w))"

lemma file_at_mkdir: "file_at (snd (mkdir p fs)) = file_at fs"
proof -
  have "fexists fs []" by (simp add: fexists_def)
  then show ?thesis
    by (cases p) (auto simp: mkdir_def fexists_def file_at_def at_put fun_eq_iff split: fault.split)
qed

lemma same_mkdir [kept_rules]: "keeps (same_files d) (mkdir p)"
  by (simp add: keeps_def same_files_def file_at_mkdir)

lemma same_mkdir_p [kept_rules]: "keeps (same_files d) (mkdir_p p)"
proof -
  have "keeps (same_files d) (mkdir_step q)" for q
    unfolding mkdir_step_def [abs_def] by (intro kept_rules)
  then show ?thesis unfolding mkdir_p_def by (intro kept_rules)
qed

lemma same_on_files: "keeps (same_files d) m \<Longrightarrow> keeps (same_disk d) (on_files m)"
  by (simp add: keeps_def same_disk_def in_session_def on_disk_def split_beta)

lemma same_ensure [kept_rules]: "keeps (same_files d) (ensure_config home cwd c)"
  unfolding ensure_config_def Let_def by (intro kept_rules)

lemma same_readers [kept_rules]:
  "keeps (same_files d) (get_seeded_sites E q)" "keeps (same_files d) (load_pinstore E q)" "keeps (same_files d) (load_reviewer_pubkey P cwd c)"
proof -
  show "keeps (same_files d) (get_seeded_sites E q)" "keeps (same_files d) (load_pinstore E q)"
    by (simp_all add: keeps_reads reads_sites)
  show "keeps (same_files d) (load_reviewer_pubkey P cwd c)"
    unfolding load_reviewer_pubkey_def
  proof (rule keeps_bind)
    fix q
    have "keeps (same_files d) (io_opt (io_bind (load_public_key P (q @ [''reviewer.pub''])) (\<lambda>k. io_ret (public_key_to_b64 k))))"
      unfolding load_public_key_def by (intro kept_rules)
    then show "keeps (same_files d) (\<lambda>fs. (if \<not> fexists fs (q @ [''reviewer.pub'']) then io_ret None
        else io_opt (io_bind (load_public_key P (q @ [''reviewer.pub''])) (\<lambda>k. io_ret (public_key_to_b64 k)))) fs)"
      by (simp add: keeps_def io_ret_def)
  qed (intro kept_rules)
qed

lemma naming_keeps_disk [kept_rules]: "keeps (\<lambda>p. pdisk p = fs) (on_naming m)"
  by (simp add: keeps_def on_naming_def split_beta)

lemma same_naming [kept_rules]: "keeps (same_disk d) (in_session (list_registered_sites E K S))"
proof -
  have "keeps (\<lambda>p. pdisk p = fs) (list_registered_sites E K S)" for fs
    unfolding list_registered_sites_def by (intro kept_rules)
  then show ?thesis by (simp add: keeps_def same_disk_def in_session_def split_beta)
qed

lemma same_sites: "(\<And>sites. keeps (same_disk d) (act sites)) \<Longrightarrow> keeps (same_disk d) (with_sites E cwd c act)"
  unfolding with_sites_def by (intro kept_rules same_on_files) assumption

lemma same_configured: "listing cmd \<Longrightarrow> keeps (same_disk d) (configured E T now lang c cmd)"
  unfolding configured_def listing_def coded_def code_of_def cli_list_def cli_status_def cli_browse_def cli_reviewer_status_def
    with_settings_def exit_code_def Let_def
  by (cases cmd; simp; intro kept_rules same_sites same_on_files)

lemma same_main:
  assumes "listing cmd"
  shows "keeps (same_disk d) (main E T n cmd)"
proof -
  have c: "keeps (same_disk d) (\<lambda>w. configured E T (clock T w) lang c cmd w)" for lang c
    by (rule keeps_arg) (rule same_configured [OF assms])
  have "keeps (same_disk d) (on_files (ensure_config (home_path T) (cwd_path T) c0))" for c0
    by (intro same_on_files kept_rules)
  note rest = keeps_bind [OF this c]
  show ?thesis
    using assms unfolding main_def listing_def cli_pins_def Let_def
    by (cases cmd; simp; intro kept_rules rest same_on_files)
qed

end
