(* ===== verification/Reader.thy ===== *)
theory Reader
  imports App
begin

text \<open>
  mdp2p_client/tui.py without its widgets: the reader's state, what the dialogues hand to it, the jobs it runs
  in child processes and what their ends do, as a transition for every event.  The toolkit is the caller of
  these transitions; which identifiers its list accepts, and what a child process does and answers, are
  arguments.  A job is a thread: it ends at any later moment, in any order.
\<close>

section \<open>One site\<close>

record site_view =
  view_uri :: json
  view_author :: json
  view_dir :: path
  view_file_count :: json
  view_total_size :: json
  view_markdown :: string
  view_score :: "score_result option"

definition newline :: string where "newline = [CHR 0x0A]"

definition page_text :: "path \<Rightarrow> nat \<Rightarrow> json \<Rightarrow> string io" where
  "page_text site n entry =
     io_bind (io_lift (bindE (py_item entry ''path'') text_of)) (\<lambda>rel fs.
     (let p = resolve_in site rel in
      if \<not> fexists fs p then (Inr [], fs)
      else io_bind (io_try (read_text p) (\<lambda>e. io_ret (''> error reading `'' @ rel @ ''`''))) (\<lambda>body.
        io_ret ((if n > 1 then newline @ newline @ ''## `'' @ rel @ ''`'' @ newline @ newline else []) @ body @ newline)) fs))"

definition assemble_markdown :: "env \<Rightarrow> path \<Rightarrow> string io" where
  "assemble_markdown E site =
     io_bind (io_opt (load_bundle E site)) (\<lambda>found.
     case found of
       None \<Rightarrow> io_ret ''> **error loading manifest**''
     | Some (manifest, sg) \<Rightarrow>
         io_bind (io_lift (py_get manifest ''files'' (JList []))) (\<lambda>files.
         io_bind (io_lift (py_size files)) (\<lambda>n.
         io_bind (io_lift (if n > 1
             then bindE (py_get manifest ''uri'' (JStr (path_str site))) (\<lambda>uri.
                  bindE (py_get manifest ''author'' (JStr ''unknown'')) (\<lambda>author.
                  bindE (py_get manifest ''version'' (JStr ''?'')) (\<lambda>version.
                  Inr (''# `md://'' @ py_str E uri @ ''`'' @ newline @ newline @ ''*'' @ py_str E author @ '' '' @ em_dash @ '' ''
                       @ str_of_nat n @ '' pages, version '' @ py_str E version @ ''*'' @ newline @ newline
                       @ ''---'' @ newline @ newline))))
             else Inr [])) (\<lambda>head.
         io_bind (io_lift (py_iter files)) (\<lambda>entries.
         io_bind (io_map (page_text site n) entries) (\<lambda>pages.
         io_ret (let text = head @ concat pages in if text = [] then ''_(empty site)_'' else text)))))))"

text \<open>The score is \<open>None\<close> where computing it raised; the view is \<open>None\<close> where the score is outside the model.\<close>

definition from_seeded :: "env \<Rightarrow> int \<Rightarrow> path \<Rightarrow> seeded_site \<Rightarrow> site_view option io" where
  "from_seeded E now home s =
     io_bind (io_try
       (io_bind (score_from_cache E now (seed_dir s) (Some (home @ [''.mdp2p'', ''policy.json'']))
                   (Some (home @ [''.mdp2p'', ''trust.json''])))
          (\<lambda>r. io_ret (map_option Some r)))
       (\<lambda>e. io_ret (Some None))) (\<lambda>scored.
     case scored of
       None \<Rightarrow> io_ret None
     | Some sc \<Rightarrow>
         io_bind (assemble_markdown E (seed_dir s)) (\<lambda>md.
         io_ret (Some \<lparr>view_uri = seed_uri s, view_author = seed_author s, view_dir = seed_dir s,
                       view_file_count = seed_file_count s, view_total_size = seed_total_size s,
                       view_markdown = md, view_score = sc\<rparr>)))"

definition sidebar_badge :: "site_view \<Rightarrow> string" where
  "sidebar_badge v =
     (case view_score v of
        None \<Rightarrow> []
      | Some s \<Rightarrow> (case decision s of Show \<Rightarrow> [] | Warn \<Rightarrow> [CHR 0xE2, CHR 0x9A, CHR 0xA0] | Hide \<Rightarrow> [CHR 0xE2, CHR 0x9B, CHR 0x94]))"

definition verdict_label :: "string \<Rightarrow> string" where
  "verdict_label v =
     (if v = ''ok'' then ''[green]ok[/]'' else if v = ''warn'' then ''[yellow]warn[/]''
      else if v = ''reject'' then ''[red]reject[/]'' else v)"

definition prefix_text :: "nat \<Rightarrow> string \<Rightarrow> string" where
  "prefix_text n s = (case u8_decode s of Some cs \<Rightarrow> u8_encode (take n cs) | None \<Rightarrow> take n s)"

definition banner_line :: "contribution \<Rightarrow> string" where
  "banner_line c = ''> - '' @ verdict_label (c_verdict c) @ '' par `'' @ prefix_text 10 (c_source c)
     @ [CHR 0xE2, CHR 0x80, CHR 0xA6] @ ''` (poids '' @ two_decimals (c_weight c) @ '')'' @ [CHR 0x0A]"

definition banner_head :: "decision \<Rightarrow> string \<Rightarrow> string \<Rightarrow> string" where
  "banner_head d reviewers sc =
     (case d of
        Show \<Rightarrow> ''> '' @ [CHR 0xE2, CHR 0x9C, CHR 0x93] @ '' revu par **'' @ reviewers @ ''** peer(s), score '' @ sc @ [CHR 0x0A, CHR 0x0A]
      | Warn \<Rightarrow> ''> '' @ [CHR 0xE2, CHR 0x9A, CHR 0xA0] @ '' **'' @ [CHR 0xC3, CHR 0xA0] @ '' lire avec pr'' @ [CHR 0xC3, CHR 0xA9] @ ''caution** '' @ [CHR 0xE2, CHR 0x80, CHR 0x94] @ '' score '' @ sc
          @ '' sur '' @ reviewers @ '' review(s)'' @ [CHR 0x0A, CHR 0x0A]
      | Hide \<Rightarrow> ''> '' @ [CHR 0xE2, CHR 0x9B, CHR 0x94] @ '' **contenu signal'' @ [CHR 0xC3, CHR 0xA9] @ '' comme probl'' @ [CHR 0xC3, CHR 0xA9] @ ''matique** '' @ [CHR 0xE2, CHR 0x80, CHR 0x94] @ '' score ''
          @ sc @ '' sur '' @ reviewers @ '' review(s)'' @ [CHR 0x0A, CHR 0x0A])"

definition score_banner_markdown :: "site_view \<Rightarrow> string" where
  "score_banner_markdown v =
     (case view_score v of
        None \<Rightarrow> []
      | Some s \<Rightarrow>
          if breakdown s = []
          then ''> *non revu* '' @ [CHR 0xE2, CHR 0x80, CHR 0x94] @ '' aucune review pour l'instant. Le contenu peut '' @ [CHR 0xC3, CHR 0xAA] @ ''tre en attente de validation.'' @ [CHR 0x0A, CHR 0x0A]
          else banner_head (decision s) (str_of_nat (length (breakdown s))) (two_decimals (score s))
               @ concat (map banner_line (breakdown s)) @ [CHR 0x0A] @ ''---'' @ [CHR 0x0A, CHR 0x0A])"

section \<open>State\<close>

datatype dialogue =
    FetchModal | PublishModal | LanguageModal | ReviewerSettingsModal | InboxModal "json list" | AutoSeedModal

datatype job =
    JobFetch string string | JobPublish string string "string list" | JobInbox | JobReview string string | JobInstall

text \<open>A notice's severity and text; texts of the locale files are named by their key.\<close>

type_synonym notice = "string \<times> string"

record 's reader =
  r_session :: "'s peer"
  r_config :: client_config
  r_views :: "site_view list"
  r_query :: string
  r_listed :: "string list"
  r_shown :: "string option"
  r_screens :: "dialogue list"
  r_jobs :: "job list"
  r_notes :: "notice list"

text \<open>
  Around the reader: \<open>child\<close> is \<open>subprocess.run\<close> with its time limit in seconds, \<open>list_accepts\<close> whether the
  sidebar takes an item with an identifier beside those it has, \<open>expanded\<close> is \<open>str(Path(s).expanduser())\<close>.
\<close>

record 's viewer =
  v_machine :: "'s machine"
  v_host :: host
  v_home :: path
  v_cwd :: path
  v_child :: "string list \<Rightarrow> int \<Rightarrow> ('s peer, run_result) op"
  list_accepts :: "string list \<Rightarrow> string \<Rightarrow> bool"
  expanded :: "string \<Rightarrow> string"
  v_clock :: "'s reader \<Rightarrow> int"

definition in_reader :: "('s peer, 'a) op \<Rightarrow> ('s reader, 'a) op" where
  "in_reader m r = (case m (r_session r) of (x, p) \<Rightarrow> (x, r\<lparr>r_session := p\<rparr>))"

definition change :: "('s reader \<Rightarrow> 's reader) \<Rightarrow> ('s reader, unit) op" where
  "change f r = (Inr (), f r)"

text \<open>The state as a value.\<close>

definition ask :: "('s, 's) op" where
  "ask s = (Inr s, s)"

definition notify :: "string \<Rightarrow> string \<Rightarrow> ('s reader, unit) op" where
  "notify level text = change (\<lambda>r. r\<lparr>r_notes := r_notes r @ [(level, text)]\<rparr>)"

definition start_job :: "job \<Rightarrow> ('s reader, unit) op" where
  "start_job j = change (\<lambda>r. r\<lparr>r_jobs := r_jobs r @ [j]\<rparr>)"

definition push_screen :: "dialogue \<Rightarrow> ('s reader, unit) op" where
  "push_screen d = change (\<lambda>r. r\<lparr>r_screens := d # r_screens r\<rparr>)"

section \<open>The list of sites\<close>

definition lower_of :: "json \<Rightarrow> string res" where
  "lower_of v = (case v of JStr s \<Rightarrow> Inr (lower s) | _ \<Rightarrow> Inl AttributeError)"

definition matches :: "string \<Rightarrow> site_view \<Rightarrow> bool res" where
  "matches q v =
     (if q = [] then Inr True
      else bindE (lower_of (view_uri v)) (\<lambda>u.
        if contains_sub q u then Inr True else bindE (lower_of (view_author v)) (\<lambda>a. Inr (contains_sub q a))))"

fun visible_sites :: "string \<Rightarrow> site_view list \<Rightarrow> site_view list res" where
  "visible_sites q [] = Inr []"
| "visible_sites q (v # vs) =
     bindE (matches q v) (\<lambda>m. bindE (visible_sites q vs) (\<lambda>ws. Inr (if m then v # ws else ws)))"

text \<open>One item: its label shows the size, its identifier the URI.\<close>

definition append_item :: "env \<Rightarrow> 's viewer \<Rightarrow> site_view \<Rightarrow> ('s reader, unit) op" where
  "append_item E T v =
     io_bind (io_lift (format_size E (view_total_size v))) (\<lambda>_. io_bind ask (\<lambda>r.
       let name = ''site-'' @ py_str E (view_uri v) in
       if list_accepts T (r_listed r) name then change (\<lambda>r. r\<lparr>r_listed := r_listed r @ [name]\<rparr>)
       else io_raise (ValueError ''bad or duplicate identifier'')))"

definition apply_filter :: "env \<Rightarrow> 's viewer \<Rightarrow> string \<Rightarrow> ('s reader, unit) op" where
  "apply_filter E T query =
     io_bind (change (\<lambda>r. r\<lparr>r_listed := []\<rparr>)) (\<lambda>_. io_bind ask (\<lambda>r.
       io_bind (io_lift (visible_sites (strip (lower query)) (r_views r))) (io_each (append_item E T))))"

text \<open>The result is \<open>None\<close> where a site or a score is outside the model.\<close>

fun collect_views :: "site_view option list \<Rightarrow> site_view list option" where
  "collect_views [] = Some []"
| "collect_views (v # vs) = (case (v, collect_views vs) of (Some x, Some xs) \<Rightarrow> Some (x # xs) | _ \<Rightarrow> None)"

definition load_sites :: "env \<Rightarrow> 's viewer \<Rightarrow> ('s reader, unit option) op" where
  "load_sites E T = io_bind ask (\<lambda>r.
     case cfg_data_dir (r_config r) of
        JStr d \<Rightarrow>
          io_bind (in_reader (on_disk (get_seeded_sites E (resolve_in (v_cwd T) d)))) (\<lambda>found.
          case found of
            None \<Rightarrow> io_ret None
          | Some seeded \<Rightarrow>
              io_bind (in_reader (on_disk (io_map (from_seeded E (v_clock T r) (v_home T)) seeded))) (\<lambda>views.
              case collect_views views of
                None \<Rightarrow> io_ret None
              | Some vs \<Rightarrow>
                  io_bind (change (\<lambda>r. r\<lparr>r_views := vs\<rparr>)) (\<lambda>_.
                  io_bind (apply_filter E T (r_query r)) (\<lambda>_. io_ret (Some ())))))
      | _ \<Rightarrow> io_ret None)"

text \<open>The page of a site, or the welcome page.\<close>

definition render_uri :: "string \<Rightarrow> ('s reader, unit) op" where
  "render_uri uri =
     change (\<lambda>r. r\<lparr>r_shown := map_option (\<lambda>v. score_banner_markdown v @ view_markdown v)
                               (List.find (\<lambda>v. view_uri v = JStr uri) (r_views r))\<rparr>)"

section \<open>What the dialogues hand over\<close>

definition submit_fetch :: "string \<Rightarrow> string \<Rightarrow> (string \<times> string) option" where
  "submit_fetch uri naming = (if strip uri = [] \<or> strip naming = [] then None else Some (strip uri, strip naming))"

definition submit_publish :: "string \<Rightarrow> string \<Rightarrow> string list \<Rightarrow> (string \<times> string \<times> string list) option" where
  "submit_publish uri site cats =
     (if strip uri = [] \<or> strip site = [] then None else Some (strip uri, strip site, cats))"

definition language_choices :: "string list" where
  "language_choices = [''fr'', ''en'', ''zh'', ''ar'', ''hi'']"

definition highlighted_record :: "json list \<Rightarrow> nat option \<Rightarrow> json option res" where
  "highlighted_record pending i =
     (case i of
        None \<Rightarrow> Inr None
      | Some k \<Rightarrow> if k \<ge> length pending then Inr None else bindE (py_item (pending ! k) ''record'') (\<lambda>r. Inr (Some r)))"

text \<open>Mounting the inbox shows every assignment's deadline and key.\<close>

definition inbox_label :: "json \<Rightarrow> unit res" where
  "inbox_label entry =
     bindE (py_item entry ''record'') (\<lambda>r.
     bindE (bindE (py_get r ''deadline'' (JInt 0)) py_int) (\<lambda>_.
     bindE (bindE (py_get r ''content_key'' (JStr [])) (slice_to 24)) (\<lambda>_. Inr ())))"

section \<open>Child processes\<close>

definition client_command :: "host \<Rightarrow> string list \<Rightarrow> string list" where
  "client_command h args = (if is_frozen h then [executable h] else [executable h, ''-m'', ''mdp2p_client'']) @ args"

definition failure_reason :: "run_result \<Rightarrow> string" where
  "failure_reason x =
     (let ls = split_lines (strip (if stderr x \<noteq> [] then stderr x else stdout x)) in
      if ls = [] then ''exit code '' @ str_of_int (returncode x) else last ls)"

text \<open>What a job runs: its arguments and its time limit.\<close>

fun job_command :: "'s viewer \<Rightarrow> job \<Rightarrow> string list \<times> int" where
  "job_command T (JobFetch uri naming) = ([''fetch'', ''--uri'', uri, ''--naming'', naming], 60)"
| "job_command T (JobPublish uri site cats) =
     ([''publish'', ''--uri'', uri, ''--site'', expanded T site]
      @ (if cats = [] then [] else [''--categories'', join '','' cats]), 120)"
| "job_command T JobInbox = ([''inbox'', ''--json''], 30)"
| "job_command T (JobReview content_key verdict) = ([''review'', ''--content-key'', content_key, ''--verdict'', verdict], 30)"
| "job_command T JobInstall = ([''service'', ''install''], 30)"

text \<open>The child's result, or \<open>None\<close> where running it raised (the time limit included).\<close>

definition run_child :: "'s viewer \<Rightarrow> job \<Rightarrow> ('s reader, run_result option) op" where
  "run_child T j = io_opt (in_reader (v_child T (client_command (v_host T) (fst (job_command T j))) (snd (job_command T j))))"

text \<open>The configuration is read again, for the child may have made the offer.\<close>

definition maybe_offer :: "env \<Rightarrow> 's viewer \<Rightarrow> ('s reader, unit) op" where
  "maybe_offer E T =
     io_bind (io_opt (in_reader (on_disk (config_load E (v_home T) (default_config_file (v_home T)))))) (\<lambda>fresh.
     io_bind (case fresh of Some (Some c) \<Rightarrow> change (\<lambda>r. r\<lparr>r_config := c\<rparr>) | _ \<Rightarrow> io_ret ()) (\<lambda>_.
     io_bind ask (\<lambda>r.
     io_bind (in_reader (on_disk (should_offer E (v_host T) (r_config r)))) (\<lambda>(offer, c).
     io_bind (change (\<lambda>r. r\<lparr>r_config := c\<rparr>)) (\<lambda>_. if offer then push_screen AutoSeedModal else io_ret ())))))"

text \<open>The end of a job that brought or published a site: the list is read again, then the offer is made.\<close>

definition site_arrived :: "env \<Rightarrow> 's viewer \<Rightarrow> string \<Rightarrow> ('s reader, unit option) op" where
  "site_arrived E T done_note =
     io_bind (notify ''information'' done_note) (\<lambda>_.
     io_bind (load_sites E T) (\<lambda>x.
     case x of None \<Rightarrow> io_ret None | Some u \<Rightarrow> io_bind (maybe_offer E T) (\<lambda>_. io_ret (Some ()))))"

definition plain_note :: "string \<Rightarrow> string \<Rightarrow> ('s reader, unit option) op" where
  "plain_note level text = io_bind (notify level text) (\<lambda>_. io_ret (Some ()))"

text \<open>The folder is looked for from the reader's own directory.\<close>

definition publish_refused :: "'s viewer \<Rightarrow> fsys \<Rightarrow> string \<Rightarrow> string option" where
  "publish_refused T fs site =
     (let p = resolve_in (v_cwd T) (expanded T site) in
      if \<not> fexists fs p then Some ''Path not found''
      else if \<not> is_directory fs p then Some ''Not a directory''
      else if md_under fs p = [] then Some ''No .md files found'' else None)"

fun finish_job :: "env \<Rightarrow> 's viewer \<Rightarrow> job \<Rightarrow> ('s reader, unit option) op" where
  "finish_job E T (JobFetch uri naming) =
     io_bind (run_child T (JobFetch uri naming)) (\<lambda>x.
     case x of
       None \<Rightarrow> plain_note ''error'' ''fetch failed''
     | Some res \<Rightarrow>
         if returncode res = 0 then site_arrived E T ''tui_notify_fetched'' else plain_note ''warning'' (failure_reason res))"
| "finish_job E T (JobPublish uri site cats) = io_bind ask (\<lambda>r.
     case publish_refused T (pdisk (r_session r)) site of
       Some why \<Rightarrow> plain_note ''error'' why
     | None \<Rightarrow>
         io_bind (run_child T (JobPublish uri site cats)) (\<lambda>x.
         case x of
           None \<Rightarrow> plain_note ''error'' ''publish failed''
         | Some res \<Rightarrow>
             if returncode res = 0 then site_arrived E T ''tui_notify_published''
             else plain_note ''warning'' (failure_reason res)))"
| "finish_job E T JobInbox =
     io_bind (run_child T JobInbox) (\<lambda>x.
     case x of
       None \<Rightarrow> plain_note ''error'' ''inbox failed''
     | Some res \<Rightarrow>
         if returncode res \<noteq> 0 then plain_note ''warning'' (failure_reason res)
         else case loads E (stdout res) of
           Inl e \<Rightarrow> plain_note ''error'' ''inbox: malformed JSON''
         | Inr pending \<Rightarrow>
             io_bind (io_lift (py_iter pending)) (\<lambda>entries.
             io_bind (push_screen (InboxModal entries)) (\<lambda>_.
             io_bind (io_lift (mapE inbox_label entries)) (\<lambda>_. io_ret (Some ())))))"
| "finish_job E T (JobReview content_key verdict) =
     io_bind (run_child T (JobReview content_key verdict)) (\<lambda>x.
     case x of
       None \<Rightarrow> plain_note ''error'' ''review failed''
     | Some res \<Rightarrow>
         if returncode res = 0 then plain_note ''information'' ''tui_notify_review_posted''
         else plain_note ''warning'' (failure_reason res))"
| "finish_job E T JobInstall =
     io_bind (run_child T JobInstall) (\<lambda>x.
     case x of
       None \<Rightarrow> plain_note ''error'' ''service install failed''
     | Some res \<Rightarrow>
         if returncode res = 0 then plain_note ''information'' ''tui_notify_autoseed_enabled''
         else plain_note ''warning'' (failure_reason res))"

section \<open>Changing the configuration\<close>

definition save_config :: "env \<Rightarrow> 's viewer \<Rightarrow> ('s reader, unit) op" where
  "save_config E T = io_bind ask (\<lambda>r. in_reader (on_disk (config_save E (r_config r) (default_config_file (v_home T)))))"

definition change_language :: "env \<Rightarrow> 's viewer \<Rightarrow> string option \<Rightarrow> ('s reader, unit) op" where
  "change_language E T code = io_bind ask (\<lambda>r.
     case code of
        None \<Rightarrow> io_ret ()
      | Some c \<Rightarrow>
          if cfg_language (r_config r) = JStr c then io_ret ()
          else io_bind (change (\<lambda>r. r\<lparr>r_config := (r_config r)\<lparr>cfg_language := JStr c\<rparr>\<rparr>)) (\<lambda>_.
            io_try (io_bind (save_config E T) (\<lambda>_. notify ''information'' ''tui_notify_language_changed''))
              (\<lambda>e. notify ''error'' ''language save failed'')))"

definition enable_reviewer :: "env \<Rightarrow> 's viewer \<Rightarrow> string list \<Rightarrow> ('s reader, unit) op" where
  "enable_reviewer E T cats =
     io_bind (change (\<lambda>r. r\<lparr>r_config := (r_config r)\<lparr>cfg_reviewer_mode := JBool True, cfg_categories := JList (map JStr cats)\<rparr>\<rparr>)) (\<lambda>_. io_bind ask (\<lambda>r.
     io_bind (io_opt
       (io_bind (in_reader (on_disk (own_identity E (codec (network (v_machine T))) (fresh_key (v_machine T))
                    (write_sizes (v_machine T)) (v_cwd T) (r_config r))))
          (\<lambda>_. save_config E T))) (\<lambda>saved.
     case saved of
       None \<Rightarrow> notify ''error'' ''reviewer enable failed''
     | Some u \<Rightarrow>
         io_bind (in_reader (on_disk (load_reviewer_pubkey (codec (network (v_machine T))) (v_cwd T) (r_config r)))) (\<lambda>_.
         notify ''information'' ''tui_notify_reviewer_enabled''))))"

definition disable_reviewer :: "env \<Rightarrow> 's viewer \<Rightarrow> ('s reader, unit) op" where
  "disable_reviewer E T =
     io_bind (change (\<lambda>r. r\<lparr>r_config := (r_config r)\<lparr>cfg_reviewer_mode := JBool False\<rparr>\<rparr>)) (\<lambda>_.
     io_bind (io_opt (save_config E T)) (\<lambda>saved.
     case saved of
       None \<Rightarrow> notify ''error'' ''reviewer disable failed''
     | Some u \<Rightarrow> notify ''information'' ''tui_notify_reviewer_disabled''))"

definition answer_auto_seed :: "env \<Rightarrow> 's viewer \<Rightarrow> bool \<Rightarrow> ('s reader, unit) op" where
  "answer_auto_seed E T yes =
     io_bind (change (\<lambda>r. r\<lparr>r_config := (r_config r)\<lparr>cfg_prompted := JBool True\<rparr>\<rparr>)) (\<lambda>_.
     io_bind (best_effort (save_config E T)) (\<lambda>_.
     if yes then io_bind (notify ''information'' ''tui_notify_autoseed_installing'') (\<lambda>_. start_job JobInstall)
     else io_ret ()))"

text \<open>A verdict on the highlighted assignment, or a fetch of its site.\<close>

definition answer_inbox :: "string \<Rightarrow> json \<Rightarrow> ('s reader, unit option) op" where
  "answer_inbox action rcd =
     io_bind (get_field rcd ''uri'' (JStr [])) (\<lambda>uri.
     io_bind (get_field rcd ''content_key'' (JStr [])) (\<lambda>ck.
     io_bind ask (\<lambda>r.
      if action = ''fetch'' then
        (case (uri, cfg_naming (r_config r)) of
           (JStr u, JStr naming) \<Rightarrow>
             io_bind (notify ''information'' ''tui_notify_fetching'') (\<lambda>_. io_bind (start_job (JobFetch u naming)) (\<lambda>_. io_ret (Some ())))
         | _ \<Rightarrow> io_ret None)
      else if action \<in> {''ok'', ''warn'', ''reject''} then
        (case ck of
           JStr k \<Rightarrow>
             io_bind (notify ''information'' ''posting review'') (\<lambda>_. io_bind (start_job (JobReview k action)) (\<lambda>_. io_ret (Some ())))
         | _ \<Rightarrow> io_ret None)
      else io_ret (Some ()))))"

section \<open>Events\<close>

datatype event =
    Search string | Choose string | Refresh | OpenFetch | OpenPublish | OpenLanguage | OpenReviewer | OpenInbox
  | Cancel | SubmitFetch string string | SubmitPublish string string "string list" | PickLanguage "string option"
  | PressReviewer bool "string list" | PressInbox string "nat option" | PressAutoSeed bool | Ends nat

definition settled :: "('s reader, unit) op \<Rightarrow> ('s reader, unit option) op" where
  "settled m = io_bind m (\<lambda>_. io_ret (Some ()))"

definition pop_screen :: "('s reader, unit) op" where
  "pop_screen = change (\<lambda>r. r\<lparr>r_screens := tl (r_screens r)\<rparr>)"

definition top_screen :: "'s reader \<Rightarrow> dialogue option" where
  "top_screen r = (case r_screens r of [] \<Rightarrow> None | d # ds \<Rightarrow> Some d)"

definition open_reviewer :: "'s viewer \<Rightarrow> ('s reader, unit option) op" where
  "open_reviewer T = io_bind ask (\<lambda>r.
     io_bind (in_reader (on_disk (load_reviewer_pubkey (codec (network (v_machine T))) (v_cwd T) (r_config r)))) (\<lambda>_.
     io_bind (io_lift (bindE (py_iter (cfg_categories (r_config r))) (mapE hashable))) (\<lambda>_.
     settled (push_screen ReviewerSettingsModal))))"

text \<open>An event of a dialogue that is not on top does not happen.  A cancelled offer counts as refused.\<close>

fun handle :: "env \<Rightarrow> 's viewer \<Rightarrow> event \<Rightarrow> ('s reader, unit option) op" where
  "handle E T (Search q) = io_bind (change (\<lambda>r. r\<lparr>r_query := q\<rparr>)) (\<lambda>_. settled (apply_filter E T q))"
| "handle E T (Choose uri) = settled (render_uri uri)"
| "handle E T Refresh =
     io_bind (load_sites E T) (\<lambda>x. case x of None \<Rightarrow> io_ret None | Some u \<Rightarrow> settled (notify ''information'' ''tui_notify_sites_reloaded''))"
| "handle E T OpenFetch = settled (push_screen FetchModal)"
| "handle E T OpenPublish = io_bind ask (\<lambda>r.
     if \<not> truthy (cfg_naming (r_config r)) then settled (notify ''error'' ''tui_notify_no_naming'')
     else settled (push_screen PublishModal))"
| "handle E T OpenLanguage = settled (push_screen LanguageModal)"
| "handle E T OpenReviewer = open_reviewer T"
| "handle E T OpenInbox = io_bind ask (\<lambda>r.
     if \<not> truthy (cfg_reviewer_mode (r_config r)) then settled (notify ''warning'' ''tui_notify_no_reviewer_mode'')
     else settled (start_job JobInbox))"
| "handle E T Cancel = io_bind ask (\<lambda>r.
     case top_screen r of
       None \<Rightarrow> io_ret (Some ())
     | Some AutoSeedModal \<Rightarrow> settled (io_bind pop_screen (\<lambda>_. answer_auto_seed E T False))
     | Some d \<Rightarrow> settled pop_screen)"
| "handle E T (SubmitFetch uri naming) = io_bind ask (\<lambda>r.
     if top_screen r \<noteq> Some FetchModal then io_ret (Some ())
     else case submit_fetch uri naming of
       None \<Rightarrow> settled (notify ''warning'' ''tui_notify_uri_and_naming_required'')
     | Some (u, n) \<Rightarrow>
         settled (io_bind pop_screen (\<lambda>_. io_bind (notify ''information'' ''tui_notify_fetching'') (\<lambda>_. start_job (JobFetch u n)))))"
| "handle E T (SubmitPublish uri site cats) = io_bind ask (\<lambda>r.
     if top_screen r \<noteq> Some PublishModal then io_ret (Some ())
     else case submit_publish uri site cats of
       None \<Rightarrow> settled (notify ''warning'' ''tui_notify_uri_and_path_required'')
     | Some (u, p, cs) \<Rightarrow>
         settled (io_bind pop_screen (\<lambda>_. io_bind (notify ''information'' ''tui_notify_publishing'') (\<lambda>_. start_job (JobPublish u p cs)))))"
| "handle E T (PickLanguage code) = io_bind ask (\<lambda>r.
     if top_screen r \<noteq> Some LanguageModal \<or> (case code of None \<Rightarrow> False | Some c \<Rightarrow> c \<notin> set language_choices)
     then io_ret (Some ())
     else settled (io_bind pop_screen (\<lambda>_. change_language E T code)))"
| "handle E T (PressReviewer enable cats) = io_bind ask (\<lambda>r.
     if top_screen r \<noteq> Some ReviewerSettingsModal then io_ret (Some ())
     else settled (io_bind pop_screen (\<lambda>_. if enable then enable_reviewer E T cats else disable_reviewer E T)))"
| "handle E T (PressInbox action i) = io_bind ask (\<lambda>r.
     case top_screen r of
       Some (InboxModal pending) \<Rightarrow>
         if action = ''cancel'' then settled pop_screen
         else io_bind (io_lift (highlighted_record pending i)) (\<lambda>found.
         case found of
           None \<Rightarrow> settled (notify ''warning'' ''tui_notify_select_assignment'')
         | Some rcd \<Rightarrow> io_bind pop_screen (\<lambda>_. answer_inbox action rcd))
     | _ \<Rightarrow> io_ret (Some ()))"
| "handle E T (PressAutoSeed yes) = io_bind ask (\<lambda>r.
     if top_screen r \<noteq> Some AutoSeedModal then io_ret (Some ())
     else settled (io_bind pop_screen (\<lambda>_. answer_auto_seed E T yes)))"
| "handle E T (Ends i) = io_bind ask (\<lambda>r.
     if i \<ge> length (r_jobs r) then io_ret (Some ())
     else io_bind (change (\<lambda>r. r\<lparr>r_jobs := take i (r_jobs r) @ drop (Suc i) (r_jobs r)\<rparr>)) (\<lambda>_. finish_job E T (r_jobs r ! i)))"

text \<open>The start: the configuration is loaded or created, then the sites are listed.\<close>

definition open_reader :: "env \<Rightarrow> 's viewer \<Rightarrow> string \<Rightarrow> 's peer \<Rightarrow> (exn + unit option) \<times> 's reader" where
  "open_reader E T user p =
     (let blank = \<lparr>r_session = p, r_config = new_config (v_home T) (JStr ''anonymous''), r_views = [], r_query = [],
                   r_listed = [], r_shown = None, r_screens = [], r_jobs = [], r_notes = []\<rparr> in
      io_bind (in_reader (on_disk (load_or_create_config E (v_home T) (v_cwd T) user (default_config_file (v_home T))))) (\<lambda>c.
      io_bind (change (\<lambda>r. r\<lparr>r_config := c\<rparr>)) (\<lambda>_. load_sites E T)) blank)"

section \<open>The filter\<close>

text \<open>The sidebar keeps the order and shows exactly the sites the query occurs in.\<close>

lemma visible_sites_spec:
  assumes "visible_sites q vs = Inr ws"
  shows "ws = filter (\<lambda>v. matches q v = Inr True) vs"
  using assms by (induction vs arbitrary: ws) (auto simp: bindE_Inr_iff split: if_split_asm)

lemma visible_sites_all: "visible_sites [] vs = Inr vs"
  by (induction vs) (simp_all add: matches_def)

section \<open>What the dialogues start\<close>

text \<open>Every job carries what a dialogue accepted: a URI and a folder, or a verdict the records allow.\<close>

fun job_ok :: "job \<Rightarrow> bool" where
  "job_ok (JobPublish uri site cats) \<longleftrightarrow> uri \<noteq> [] \<and> site \<noteq> []"
| "job_ok (JobReview content_key verdict) \<longleftrightarrow> verdict \<in> set valid_verdicts"
| "job_ok j \<longleftrightarrow> True"

definition jobs_ok :: "'s reader \<Rightarrow> bool" where
  "jobs_ok r \<longleftrightarrow> (\<forall>j \<in> set (r_jobs r). job_ok j)"

lemma jobs_change: "(\<And>r. r_jobs (f r) = r_jobs r) \<Longrightarrow> keeps jobs_ok (change f)"
  by (simp add: keeps_def change_def jobs_ok_def)

lemma jobs_basic [kept_rules]:
  "keeps jobs_ok (in_reader m)" "keeps jobs_ok (notify level text)" "keeps jobs_ok (push_screen d)" "keeps jobs_ok pop_screen"
  "job_ok j \<Longrightarrow> keeps jobs_ok (start_job j)"
  by (simp_all add: keeps_def in_reader_def notify_def push_screen_def pop_screen_def start_job_def change_def jobs_ok_def split_beta)

lemma jobs_settled [kept_rules]: "keeps jobs_ok m \<Longrightarrow> keeps jobs_ok (settled m)"
  unfolding settled_def by (intro kept_rules)

lemma keeps_ask [kept_rules]: "keeps P ask"
  by (simp add: keeps_def ask_def)

lemma jobs_list [kept_rules]: "keeps jobs_ok (apply_filter E T q)" "keeps jobs_ok (load_sites E T)" "keeps jobs_ok (render_uri uri)"
proof -
  have c: "keeps jobs_ok (change (\<lambda>r. r\<lparr>r_listed := xs r\<rparr>))" "keeps jobs_ok (change (\<lambda>r. r\<lparr>r_views := vs\<rparr>))" for xs vs
    by (rule jobs_change, simp)+
  have "keeps jobs_ok (append_item E T v)" for v
    unfolding append_item_def Let_def by (intro kept_rules c)
  then have f: "keeps jobs_ok (apply_filter E T q)" for q
    unfolding apply_filter_def by (intro kept_rules c)
  then show "keeps jobs_ok (apply_filter E T q)" .
  show "keeps jobs_ok (load_sites E T)"
    unfolding load_sites_def by (intro kept_rules c f | (split json.split, intro conjI allI impI))+
  show "keeps jobs_ok (render_uri uri)" unfolding render_uri_def by (rule jobs_change) simp
qed

lemma jobs_config [kept_rules]: "keeps jobs_ok (change (\<lambda>r. r\<lparr>r_config := f r\<rparr>))" "keeps jobs_ok (change (\<lambda>r. r\<lparr>r_query := q\<rparr>))"
  by (rule jobs_change, simp)+

lemma jobs_saves [kept_rules]: "keeps jobs_ok (save_config E T)"
  unfolding save_config_def by (intro kept_rules)

lemma jobs_dialogues [kept_rules]:
  "keeps jobs_ok (maybe_offer E T)" "keeps jobs_ok (change_language E T code)" "keeps jobs_ok (enable_reviewer E T cats)"
  "keeps jobs_ok (disable_reviewer E T)" "keeps jobs_ok (answer_auto_seed E T yes)" "keeps jobs_ok (open_reviewer T)"
proof -
  show "keeps jobs_ok (maybe_offer E T)"
    unfolding maybe_offer_def by (intro kept_rules)
  show "keeps jobs_ok (change_language E T code)" unfolding change_language_def by (intro kept_rules)
  show "keeps jobs_ok (enable_reviewer E T cats)" unfolding enable_reviewer_def by (intro kept_rules)
  show "keeps jobs_ok (disable_reviewer E T)" unfolding disable_reviewer_def by (intro kept_rules)
  show "keeps jobs_ok (answer_auto_seed E T yes)" unfolding answer_auto_seed_def by (intro kept_rules) simp
  show "keeps jobs_ok (open_reviewer T)" unfolding open_reviewer_def by (intro kept_rules)
qed

lemma jobs_inbox [kept_rules]: "keeps jobs_ok (answer_inbox action rcd)"
proof -
  have r: "keeps jobs_ok (start_job (JobReview k action))" if "action \<in> {''ok'', ''warn'', ''reject''}" for k
    by (rule jobs_basic(5)) (use that in \<open>auto simp: valid_verdicts_def\<close>)
  have f: "keeps jobs_ok (start_job (JobFetch u n))" for u n
    by (rule jobs_basic(5)) simp
  show ?thesis
    unfolding answer_inbox_def
    by (intro keeps_bind keeps_basic keeps_ask; cases "action \<in> {''ok'', ''warn'', ''reject''}";
        simp only: if_True if_False simp_thms; (intro kept_rules f r | assumption | (split json.split, intro conjI allI impI))+)
qed

lemma jobs_finish [kept_rules]: "keeps jobs_ok (finish_job E T j)"
proof -
  have c: "keeps jobs_ok (run_child T j)" for j unfolding run_child_def by (intro kept_rules)
  have n: "keeps jobs_ok (plain_note level msg)" for level msg unfolding plain_note_def by (intro kept_rules)
  have a: "keeps jobs_ok (site_arrived E T msg)" for msg unfolding site_arrived_def by (intro kept_rules)
  show ?thesis by (cases j; simp only: finish_job.simps; intro kept_rules c n a)
qed

lemma jobs_drop: "keeps jobs_ok (change (\<lambda>r. r\<lparr>r_jobs := take i (r_jobs r) @ drop (Suc i) (r_jobs r)\<rparr>))"
  by (auto simp: keeps_def change_def jobs_ok_def dest: in_set_takeD in_set_dropD)

lemma submit_fetch_Some: "submit_fetch uri naming = Some (u, n) \<longleftrightarrow> u = strip uri \<and> n = strip naming \<and> u \<noteq> [] \<and> n \<noteq> []"
  by (auto simp: submit_fetch_def)

lemma submit_publish_Some: "submit_publish uri site cats = Some (u, p, cs) \<longleftrightarrow> u = strip uri \<and> p = strip site \<and> cs = cats \<and> u \<noteq> [] \<and> p \<noteq> []"
  by (auto simp: submit_publish_def)

lemma jobs_handle: "keeps jobs_ok (handle E T e)"
proof (cases e)
  case (SubmitPublish uri site cats)
  show ?thesis
  proof (cases "submit_publish uri site cats")
    case None
    then show ?thesis unfolding SubmitPublish by (simp only: handle.simps option.case) (intro kept_rules)
  next
    case (Some x)
    obtain u p cs where x: "x = (u, p, cs)" by (cases x)
    then show ?thesis
      using Some unfolding SubmitPublish
      by (simp only: handle.simps option.case prod.case) (intro kept_rules, auto simp: submit_publish_Some)
  qed
next
  case (SubmitFetch uri naming)
  then show ?thesis by (simp only: handle.simps) (intro kept_rules, simp)
next
  case (Ends i)
  then show ?thesis by (simp only: handle.simps) (intro jobs_drop kept_rules)
next
  case Cancel
  then show ?thesis
    by (simp only: handle.simps) (intro kept_rules | (split dialogue.split, intro conjI allI impI))+
next
  case (PressInbox a i)
  then show ?thesis
    by (simp only: handle.simps) (intro kept_rules | (split dialogue.split, intro conjI allI impI))+
qed (simp only: handle.simps; intro kept_rules; simp?)+

text \<open>A session: events and ends of jobs in any order; one that raises ends it.\<close>

inductive session_of :: "env \<Rightarrow> 's viewer \<Rightarrow> 's reader \<Rightarrow> 's reader \<Rightarrow> bool" for E T r0 where
  opened: "session_of E T r0 r0"
| goes_on: "session_of E T r0 r \<Longrightarrow> handle E T e r = (x, r') \<Longrightarrow> session_of E T r0 r'"

lemma session_jobs: "session_of E T r0 r \<Longrightarrow> jobs_ok r0 \<Longrightarrow> jobs_ok r"
  by (induction rule: session_of.induct) (auto dest: keepsD [OF jobs_handle])

section \<open>From the dialogue to the command\<close>

lemma split_on_none: "sep \<notin> set w \<Longrightarrow> split_on sep w = [w]"
  by (induction w) auto

lemma split_on_cons: "sep \<notin> set w \<Longrightarrow> split_on sep (w @ sep # s) = w # split_on sep s"
  by (induction w) auto

lemma split_on_join: "ws \<noteq> [] \<Longrightarrow> \<forall>w \<in> set ws. sep \<notin> set w \<Longrightarrow> split_on sep (join [sep] ws) = ws"
proof (induction ws)
  case (Cons w ws)
  then show ?case by (cases ws) (simp_all add: split_on_none split_on_cons)
qed simp

lemma slug_text: "s \<in> set category_slugs \<Longrightarrow> s \<noteq> [] \<and> CHR '','' \<notin> set s \<and> (\<forall>c \<in> set s. \<not> is_space c \<and> of_char c < (128::nat))"
  by (auto simp: category_slugs_def is_space_def Let_def)

text \<open>What a user picks in the publishing dialogue is what the command publishes.\<close>

lemma slugs_arrive:
  assumes "cats \<noteq> []" and "set cats \<subseteq> set category_slugs"
  shows "given_categories (Some (join '','' cats)) = Some cats"
proof -
  have s: "split_on CHR '','' (join '','' cats) = cats"
    by (rule split_on_join) (use assms slug_text in blast)+
  have "map strip cats = cats" "filter (\<lambda>y. y \<noteq> []) cats = cats"
    using assms(2) slug_text by (auto intro!: map_idI filter_True strip_id)
  moreover have "join '','' cats \<noteq> []"
    using assms slug_text by (cases cats; cases "tl cats") (auto simp: neq_Nil_conv)
  ultimately show ?thesis by (simp add: given_categories_def s)
qed

text \<open>
  The child resolves the folder from its own directory, the source tree: a relative path that the reader has
  found can be another folder there, or none.
\<close>

lemma relative_folder_is_lost:
  assumes "v_cwd T = [''home'']" and "expanded T ''notes'' = ''notes''"
    and "fs = \<lparr>nodes = [([''home''], Dir), ([''home'', ''notes''], Dir), ([''home'', ''notes'', ''a.md''], File [])], faults = []\<rparr>"
  shows "publish_refused T fs ''notes'' = None \<and> \<not> fexists fs (resolve_in [''project''] (expanded T ''notes''))"
  by (simp add: assms publish_refused_def resolve_in_def resolve_parts_def Let_def fexists_def is_directory_def at_path_def
      md_under_def is_md_def strict_prefix_def resolve_step_def suffix_def)

text \<open>
  The toolkit allows letters, digits, underscores and hyphens in an identifier.  A valid URI with a dot stops
  the sidebar.
\<close>

lemma dotted_uri_stops_list:
  assumes "\<And>ids name. CHR ''.'' \<in> set name \<Longrightarrow> \<not> list_accepts T ids name"
    and "CHR ''.'' \<in> set uri" and "view_uri v = JStr uri" and "format_size E (view_total_size v) = Inr shown_size"
  shows "append_item E T v r = (Inl (ValueError ''bad or duplicate identifier''), r)"
  using assms by (simp add: append_item_def io_bind_def io_lift_def ask_def io_raise_def Let_def)

end
