(* ===== verification/Vectors.thy ===== *)
theory Vectors
  imports PeerChecks Selection App
begin

text \<open>
  scripts/gen_vectors.py: the conformance vectors that every implementation of the protocol has to
  reach the same verdicts on.  Each generator is the list of cases it produces, as the JSON value that is
  written; the script writes the files under spec/vectors, or checks that they are not stale.
\<close>

section \<open>Keys, clock and helpers\<close>

definition vectors_now :: int where "vectors_now = 1790000000"
definition vector_version :: int where "vector_version = 1"

definition alice_seed :: nat where "alice_seed = 1"
definition mallory_seed :: nat where "mallory_seed = 2"
definition reviewer_seed :: nat where "reviewer_seed = 3"

text \<open>\<open>key\<close> and \<open>pub\<close>: a key is given by its 32 raw bytes.\<close>

definition seed_key :: "nat \<Rightarrow> string" where
  "seed_key seed = replicate 32 (char_of seed)"

definition seed_pub :: "env \<Rightarrow> nat \<Rightarrow> string" where
  "seed_pub E seed = public_key_to_b64 (pub_of E (seed_key seed))"

definition flip_sig :: "string \<Rightarrow> string res" where
  "flip_sig sig_b64 =
     bindE (b64decode (JStr sig_b64)) (\<lambda>raw.
       case raw of
         [] \<Rightarrow> Inl IndexError
       | c # cs \<Rightarrow> Inr (b64_encode (char_of (flip_bit 0 (byte c)) # cs)))"

text \<open>\<open>base64.b64encode(key(seed).sign(_canonical_json(record)))\<close>: a signature no builder would make.\<close>

definition raw_signature :: "env \<Rightarrow> nat \<Rightarrow> jdict \<Rightarrow> string" where
  "raw_signature E seed record = b64_encode (ed_sign E (seed_key seed) (canonical_json E (JDict record)))"

section \<open>Canonical JSON\<close>

definition canonical_inputs :: "(string \<times> json) list" where
  "canonical_inputs =
     [(''sorted_keys'', JDict [(''b'', JInt 1), (''a'', JInt 2), (''c'', JDict [(''z'', JBool True), (''y'', JNull)])]),
      (''nested_list'', JDict [(''files'', JList [JDict [(''path'', JStr ''b.md'')], JDict [(''path'', JStr ''a.md'')]]), (''n'', JInt 0)]),
      (''escapes'', JDict [(''s'', JStr (''quote '' @ [CHR 0x22] @ '' backslash '' @ [CHR 0x5C] @ '' nl '' @ [CHR 0x0A]
         @ '' tab '' @ [CHR 0x09] @ '' cr '' @ [CHR 0x0D]))]),
      (''control_chars'', JDict [(''s'', JStr [CHR 0x00, CHR 0x01, CHR 0x1F, CHR 0x7F])]),
      (''non_ascii_bmp'', JDict [(''s'', JStr (''caf'' @ [CHR 0xC3, CHR 0xA9] @ '' '' @ [CHR 0xE2, CHR 0x80, CHR 0x94] @ '' ''
         @ [CHR 0xE4, CHR 0xB8, CHR 0xAD, CHR 0xE6, CHR 0x96, CHR 0x87] @ '' ''
         @ [CHR 0xD8, CHR 0xA7, CHR 0xD9, CHR 0x84, CHR 0xD8, CHR 0xB9, CHR 0xD8, CHR 0xB1, CHR 0xD8, CHR 0xA8, CHR 0xD9, CHR 0x8A, CHR 0xD8, CHR 0xA9]))]),
      (''non_ascii_astral'', JDict [(''s'', JStr (''emoji '' @ [CHR 0xF0, CHR 0x9F, CHR 0x99, CHR 0x82] @ '' math '' @ [CHR 0xF0, CHR 0x9D, CHR 0x94, CHR 0xB8]))]),
      (''non_ascii_key'', JDict [([CHR 0xC3, CHR 0xA9], JInt 1), (''e'', JInt 2), (''z'', JInt 3)]),
      (''negative_and_big_int'', JDict [(''a'', JInt (- 5)), (''b'', JInt 9007199254740993)]),
      (''empty_containers'', JDict [(''a'', JDict []), (''b'', JList []), (''c'', JStr [])]),
      (''slash_not_escaped'', JDict [(''uri'', JStr ''/mdp2p/abc'')])]"

definition gen_canonical_json :: "env \<Rightarrow> json list" where
  "gen_canonical_json E =
     map (\<lambda>(name, value). JDict [(''name'', JStr name), (''input'', value), (''canonical'', JStr (canonical_json E value))])
       canonical_inputs"

section \<open>Manifests\<close>

definition make_manifest :: "env \<Rightarrow> (string \<times> string) list \<Rightarrow> string \<Rightarrow> nat \<Rightarrow> int \<Rightarrow> jdict \<times> string" where
  "make_manifest E files uri seed ttl =
     (let items = sort_key fst files;
          entries = map (\<lambda>(p, c). JDict [(''path'', JStr p), (''hash'', JStr (hexdigest E c)), (''size'', JInt (int (length c)))]) items
      in sign_manifest E
        [(''uri'', JStr uri), (''author'', JStr ''alice''), (''version'', JInt 1), (''timestamp'', JInt (vectors_now - 60)),
         (''expires_at'', JInt (vectors_now - 60 + ttl)), (''categories'', JList [JStr ''computing'']), (''files'', JList entries),
         (''total_size'', JInt (\<Sum>(p, c) \<leftarrow> items. int (length c))), (''file_count'', JInt (int (length entries)))]
        (seed_key seed))"

definition default_manifest :: "env \<Rightarrow> (string \<times> string) list \<Rightarrow> nat \<Rightarrow> int \<Rightarrow> jdict \<times> string" where
  "default_manifest E files seed ttl = make_manifest E files ''blog.alice'' seed ttl"

definition month_ttl :: int where "month_ttl = 30 * 86400"

definition vector_site :: "(string \<times> string) list" where
  "vector_site =
     [(''index.md'', ''# Hello'' @ [CHR 0x0A, CHR 0x0A] @ ''World '' @ [CHR 0xE2, CHR 0x80, CHR 0x94] @ '' caf'' @ [CHR 0xC3, CHR 0xA9] @ ''.'' @ [CHR 0x0A]),
      (''posts/one.md'', ''# One'' @ [CHR 0x0D, CHR 0x0A] @ ''CRLF'' @ [CHR 0x0D, CHR 0x0A])]"

definition manifest_cases :: "env \<Rightarrow> (string \<times> jdict \<times> string \<times> string \<times> bool) list res" where
  "manifest_cases E =
     (let (manifest, sig) = default_manifest E vector_site alice_seed month_ttl;
          tampered = AList.update ''version'' (JInt 2) manifest;
          (m_manifest, m_sig) = default_manifest E vector_site mallory_seed month_ttl
      in bindE (flip_sig sig) (\<lambda>flipped. Inr
        [(''valid'', manifest, sig, seed_pub E alice_seed, True),
         (''field_tampered_after_signing'', tampered, sig, seed_pub E alice_seed, False),
         (''signature_bit_flipped'', manifest, flipped, seed_pub E alice_seed, False),
         (''wrong_trusted_key'', manifest, sig, seed_pub E mallory_seed, False),
         (''signed_by_other_key'', manifest, raw_signature E mallory_seed manifest, seed_pub E alice_seed, False),
         (''embedded_key_not_trusted'', m_manifest, m_sig, seed_pub E alice_seed, False)]))"

definition gen_manifest_verify :: "env \<Rightarrow> json list res" where
  "gen_manifest_verify E =
     bindE (manifest_cases E) (\<lambda>cases. Inr (map (\<lambda>(name, m, s, t, v).
       JDict [(''name'', JStr name), (''manifest'', JDict m), (''signature'', JStr s), (''trusted_public_key'', JStr t),
              (''valid'', JBool v), (''manifest_ref'', JStr (compute_manifest_ref E (JDict m)))]) cases))"

definition gen_content_key :: "env \<Rightarrow> json list" where
  "gen_content_key E =
     map (\<lambda>(uri, pk). JDict [(''uri'', JStr uri), (''public_key'', JStr pk),
         (''content_key'', JStr (compute_content_key E (JStr uri) (JStr pk)))])
       [(''blog.alice'', seed_pub E alice_seed), (''x'', seed_pub E mallory_seed)]"

section \<open>Records\<close>

definition record_case :: "string \<Rightarrow> json \<Rightarrow> string \<Rightarrow> int option \<Rightarrow> bool \<Rightarrow> jdict" where
  "record_case name r sig max_drift ok =
     [(''name'', JStr name), (''record'', r), (''signature'', JStr sig), (''now'', JInt vectors_now),
      (''max_drift'', (case max_drift of None \<Rightarrow> JNull | Some n \<Rightarrow> JInt n)), (''valid'', JBool ok)]"

definition name_case :: "env \<Rightarrow> string \<times> jdict \<times> string \<times> int option \<Rightarrow> json res" where
  "name_case E = (\<lambda>(name, r, sig, max_drift).
     bindE (verify_name_record E vectors_now max_drift (JDict r) (JStr sig)) (\<lambda>(ok, _).
     Inr (JDict (record_case name (JDict r) sig max_drift ok))))"

definition gen_name_records :: "env \<Rightarrow> json list res" where
  "gen_name_records E =
     (let mref = concat (replicate 32 ''ab'');
          r = build_name_record vectors_now ''blog.alice'' ''alice'' (seed_pub E alice_seed) mref (Some vectors_now);
          stale = build_name_record vectors_now ''blog.alice'' ''alice'' (seed_pub E alice_seed) mref (Some (vectors_now - 3600));
          swapped = AList.update ''uri'' (JStr ''bank'') r;
          missing = filter (\<lambda>(k, v). k \<noteq> ''manifest_ref'') r
      in bindE (sign_name_record E (JDict r) (seed_key alice_seed)) (\<lambda>sig.
         bindE (sign_name_record E (JDict stale) (seed_key alice_seed)) (\<lambda>stale_sig.
         bindE (flip_sig sig) (\<lambda>flipped.
         mapE (name_case E)
           [(''valid'', r, sig, Some 300),
            (''valid_no_drift_check'', stale, stale_sig, None),
            (''stale_with_drift_check'', stale, stale_sig, Some 300),
            (''uri_swapped'', swapped, sig, Some 300),
            (''bad_signature'', r, flipped, Some 300),
            (''missing_field'', missing, raw_signature E alice_seed missing, Some 300)]))))"

text \<open>The \<open>verifiers\<close> by kind.\<close>

definition review_verifier :: "env \<Rightarrow> string \<Rightarrow> int \<Rightarrow> int option \<Rightarrow> json \<Rightarrow> json \<Rightarrow> (bool \<times> string) res" where
  "review_verifier E kind =
     (if kind = ''review_record'' then verify_review_record E
      else if kind = ''reviewer_opt_in'' then verify_reviewer_opt_in E
      else verify_review_assignment E)"

definition review_case :: "env \<Rightarrow> string \<times> string \<times> jdict \<times> string \<Rightarrow> json res" where
  "review_case E = (\<lambda>(kind, name, r, sig).
     bindE (review_verifier E kind vectors_now (Some 300) (JDict r) (JStr sig)) (\<lambda>(ok, _).
     Inr (JDict ((''kind'', JStr kind) # record_case name (JDict r) sig (Some 300) ok))))"

definition gen_reviews :: "env \<Rightarrow> json list res" where
  "gen_reviews E =
     (let content_key = compute_content_key E (JStr ''blog.alice'') (JStr (seed_pub E alice_seed))
      in bindE (build_review_record vectors_now content_key (seed_pub E reviewer_seed) ''warn'' ''sources?'' (Some vectors_now)) (\<lambda>review.
         bindE (sign_review_record E (JDict review) (seed_key reviewer_seed)) (\<lambda>rsig.
         let bad_verdict = AList.update ''verdict'' (JStr ''meh'') review in
         bindE (build_reviewer_opt_in vectors_now (seed_pub E reviewer_seed) ''12D3KooWExample'' [''/ip4/1.2.3.4/tcp/1707''] [''math'']
           (Some vectors_now)) (\<lambda>opt_in.
         bindE (sign_reviewer_opt_in E (JDict opt_in) (seed_key reviewer_seed)) (\<lambda>osig.
         let bad_addrs = AList.update ''addrs'' (JStr ''not-a-list'') opt_in in
         bindE (build_review_assignment E vectors_now ''blog.alice'' (seed_pub E alice_seed) [seed_pub E reviewer_seed] (vectors_now + 86400)
           (Some vectors_now)) (\<lambda>assignment.
         bindE (sign_review_assignment E (JDict assignment) (seed_key alice_seed)) (\<lambda>asig.
         bindE (build_review_assignment E vectors_now ''blog.alice'' (seed_pub E mallory_seed) [seed_pub E reviewer_seed] (vectors_now + 86400)
           (Some vectors_now)) (\<lambda>a.
         let hijack = AList.update ''content_key'' (JStr content_key) a in
         bindE (sign_review_assignment E (JDict hijack) (seed_key mallory_seed)) (\<lambda>hsig.
         mapE (review_case E)
           [(''review_record'', ''valid'', review, rsig),
            (''review_record'', ''verdict_tampered'', AList.update ''verdict'' (JStr ''reject'') review, rsig),
            (''review_record'', ''unknown_verdict'', bad_verdict, raw_signature E reviewer_seed bad_verdict),
            (''reviewer_opt_in'', ''valid'', opt_in, osig),
            (''reviewer_opt_in'', ''categories_tampered'', AList.update ''categories'' (JList []) opt_in, osig),
            (''reviewer_opt_in'', ''addrs_not_list'', bad_addrs, raw_signature E reviewer_seed bad_addrs),
            (''review_assignment'', ''valid'', assignment, asig),
            (''review_assignment'', ''content_key_not_derived'', hijack, hsig)])))))))))"

section \<open>URIs and paths\<close>

text \<open>\<open>except ValueError\<close>; any other exception ends the script.\<close>

definition recorded_verdict :: "'a res \<Rightarrow> bool res" where
  "recorded_verdict r = (case r of Inr x \<Rightarrow> Inr True | Inl e \<Rightarrow> if is_value_error e then Inr False else Inl e)"

definition uri_candidates :: "string list" where
  "uri_candidates =
     [''blog.alice'', ''a'', ''my-site_2'', ''A.b-C'', [], ''.hidden'', ''-dash'', ''a/b'', ''a'' @ [CHR 0x5C] @ ''b'', ''..'', ''a..b'',
      ''caf'' @ [CHR 0xC3, CHR 0xA9], ''a b'', replicate 255 CHR ''x'', replicate 256 CHR ''x'', ''nul'' @ [CHR 0x00] @ ''byte'',
      ''blog'' @ [CHR 0x0A], '' blog'']"

definition gen_uris :: "json list res" where
  "gen_uris =
     mapE (\<lambda>uri. bindE (recorded_verdict (validate_uri (JStr uri))) (\<lambda>ok. Inr (JDict [(''uri'', JStr uri), (''valid'', JBool ok)])))
       uri_candidates"

definition path_candidates :: "string list" where
  "path_candidates =
     [''index.md'', ''posts/one.md'', ''./index.md'', ''a//b.md'', ''a/./b.md'', ''a/../b.md'', ''dir/'',
      join ''/'' (replicate 9 ''d'') @ ''/x.md'', ''../escape.md'', ''a/../../escape.md'', ''/etc/passwd.md'', [], ''.'', ''a/..'',
      ''a'' @ [CHR 0x5C] @ ''b.md'', ''nul'' @ [CHR 0x00] @ ''.md'', join ''/'' (replicate 10 ''d'') @ ''/x.md'']"

definition gen_paths :: "json list res" where
  "gen_paths =
     mapE (\<lambda>rel. bindE (recorded_verdict (validate_path [''nonexistent'', ''mdp2p-vectors'', ''site''] (JStr rel)))
         (\<lambda>ok. Inr (JDict [(''path'', JStr rel), (''valid'', JBool ok)])))
       path_candidates"

section \<open>Downloaded bundles\<close>

definition vector_bundle :: "jdict \<Rightarrow> string \<Rightarrow> json \<Rightarrow> json" where
  "vector_bundle m s files =
     JDict [(''type'', JStr ''bundle''), (''manifest'', JDict m), (''signature'', JStr s), (''files'', files)]"

definition text_files :: "(string \<times> string) list \<Rightarrow> json" where
  "text_files files = JDict (map (\<lambda>(p, c). (p, JStr c)) files)"

text \<open>Name, bundle, requested URI, expected reference and reason.\<close>

definition bundle_cases :: "env \<Rightarrow> (string \<times> json \<times> string \<times> string \<times> string) list res" where
  "bundle_cases E =
     (let (manifest, sig) = default_manifest E vector_site alice_seed month_ttl;
          mref = compute_manifest_ref E (JDict manifest);
          bundle = (\<lambda>files. vector_bundle manifest sig files);
          (expired, expired_sig) = default_manifest E vector_site alice_seed 30;
          evil = [(''../escape.md'', ''x'')];
          (ev_m, ev_s) = default_manifest E evil alice_seed month_ttl;
          non_md = [(''script.js'', ''alert(1)'')];
          (nm_m, nm_s) = default_manifest E non_md alice_seed month_ttl
      in bindE (flip_sig sig) (\<lambda>flipped. Inr
        [(''valid'', bundle (text_files vector_site), ''blog.alice'', mref, []),
         (''uri_mismatch'', bundle (text_files vector_site), ''bank'', mref, ''uri_mismatch''),
         (''ref_mismatch'', bundle (text_files vector_site), ''blog.alice'', replicate 64 CHR ''0'', ''ref_mismatch''),
         (''bad_signature'', vector_bundle manifest flipped (text_files vector_site), ''blog.alice'', mref, ''bad_signature''),
         (''corrupted_file'', bundle (text_files (AList.update ''index.md'' ''# Pwned'' vector_site)), ''blog.alice'', mref, ''corrupted''),
         (''unlisted_file'', bundle (text_files (AList.update ''extra.md'' ''x'' vector_site)), ''blog.alice'', mref, ''files_mismatch''),
         (''missing_file'', bundle (text_files (filter (\<lambda>(p, c). p = ''index.md'') vector_site)), ''blog.alice'', mref, ''files_mismatch''),
         (''files_not_object'', bundle (JList []), ''blog.alice'', mref, ''malformed''),
         (''expired'', vector_bundle expired expired_sig (text_files vector_site), ''blog.alice'',
            compute_manifest_ref E (JDict expired), ''expired''),
         (''path_traversal'', vector_bundle ev_m ev_s (text_files evil), ''blog.alice'', compute_manifest_ref E (JDict ev_m), ''bad_path''),
         (''not_markdown'', vector_bundle nm_m nm_s (text_files non_md), ''blog.alice'', compute_manifest_ref E (JDict nm_m),
            ''not_markdown'')]))"

text \<open>The \<open>assert\<close> that the check's answer is the one the case is named for.\<close>

definition bundle_case :: "env \<Rightarrow> string \<Rightarrow> string \<times> json \<times> string \<times> string \<times> string \<Rightarrow> json res" where
  "bundle_case E trusted = (\<lambda>(name, b, uri, expected_ref, reason).
     bindE (check_downloaded_bundle E vectors_now b uri trusted (JStr expected_ref) [''nonexistent'', ''site'']) (\<lambda>python_reason.
     if (python_reason = None) \<noteq> (reason = []) then Inl AssertionError
     else Inr (JDict [(''name'', JStr name), (''bundle'', b), (''uri'', JStr uri), (''trusted_public_key'', JStr (seed_pub E alice_seed)),
       (''expected_ref'', JStr expected_ref), (''now'', JInt vectors_now), (''accept'', JBool (reason = [])),
       (''reason'', if reason = [] then JNull else JStr reason)])))"

definition gen_bundle_checks :: "env \<Rightarrow> json list res" where
  "gen_bundle_checks E =
     bindE (bundle_cases E) (\<lambda>cases. bindE (b64_to_public_key E (JStr (seed_pub E alice_seed))) (\<lambda>trusted.
     mapE (bundle_case E trusted) cases))"

section \<open>Pins and selection\<close>

fun status_value :: "pin_status \<Rightarrow> string" where
  "status_value Unknown = ''unknown''"
| "status_value Match = ''match''"
| "status_value Mismatch = ''mismatch''"
| "status_value Rollback = ''rollback''"

definition gen_pins :: "env \<Rightarrow> json list res" where
  "gen_pins E =
     (let entry = [(''public_key'', JStr (seed_pub E alice_seed)), (''author'', JStr ''alice''), (''first_seen'', JInt (vectors_now - 99)),
                   (''last_seen'', JInt (vectors_now - 9)), (''record_timestamp'', JInt (vectors_now - 10))];
          legacy = filter (\<lambda>(k, v). k \<noteq> ''record_timestamp'') entry
      in mapE (\<lambda>(name, e, pk, ts).
           bindE (check_pin (JDict (case e of None \<Rightarrow> [] | Some d \<Rightarrow> [(''blog.alice'', JDict d)])) ''blog.alice'' (JStr pk) (Some ts))
             (\<lambda>status. Inr (JDict [(''name'', JStr name), (''entry'', case e of None \<Rightarrow> JNull | Some d \<Rightarrow> JDict d),
               (''public_key'', JStr pk), (''record_timestamp'', JInt ts), (''status'', JStr (status_value status))])))
           [(''unknown'', None, seed_pub E alice_seed, vectors_now),
            (''match'', Some entry, seed_pub E alice_seed, vectors_now - 10),
            (''newer_record'', Some entry, seed_pub E alice_seed, vectors_now),
            (''rollback'', Some entry, seed_pub E alice_seed, vectors_now - 11),
            (''key_changed'', Some entry, seed_pub E mallory_seed, vectors_now),
            (''legacy_entry_without_timestamp'', Some legacy, seed_pub E alice_seed, 1)])"

definition gen_selection :: "env \<Rightarrow> json list" where
  "gen_selection E =
     (let pool = map (seed_pub E) [10..<20];
          content_key = compute_content_key E (JStr ''blog.alice'') (JStr (seed_pub E alice_seed))
      in map (\<lambda>(name, ck, p, k). JDict [(''name'', JStr name), (''content_key'', JStr ck), (''pool'', JList (map JStr p)), (''n'', JInt k),
             (''selected'', JList (map JStr (select_reviewers E ck p k)))])
           [(''pick_3_of_10'', content_key, pool, 3),
            (''duplicates_ignored'', content_key, concat (replicate 3 (take 3 pool)), 2),
            (''n_larger_than_pool'', content_key, take 2 pool, 5),
            (''n_zero'', content_key, pool, 0),
            (''other_content'', compute_content_key E (JStr ''x'') (JStr (seed_pub E mallory_seed)), pool, 3)])"

section \<open>The files\<close>

definition generators :: "env \<Rightarrow> (string \<times> json list res) list" where
  "generators E =
     [(''canonical_json'', Inr (gen_canonical_json E)), (''manifest_verify'', gen_manifest_verify E),
      (''content_key'', Inr (gen_content_key E)), (''name_records'', gen_name_records E), (''reviews'', gen_reviews E),
      (''uris'', gen_uris), (''paths'', gen_paths), (''bundle_checks'', gen_bundle_checks E), (''pins'', gen_pins E),
      (''reviewer_selection'', Inr (gen_selection E))]"

definition render_vectors :: "env \<Rightarrow> json list \<Rightarrow> string" where
  "render_vectors E cs =
     dumps_indent_sorted E (JDict [(''version'', JInt vector_version), (''cases'', JList cs)]) @ [CHR 0x0A]"

text \<open>One turn of the loop: the names it adds to \<open>stale\<close>.\<close>

definition vector_file :: "env \<Rightarrow> path \<Rightarrow> bool \<Rightarrow> string \<times> json list res \<Rightarrow> string list io" where
  "vector_file E dir check g =
     (let p = dir @ [fst g @ ''.json''] in
      io_bind (io_lift (bindE (snd g) (\<lambda>cs. Inr (render_vectors E cs)))) (\<lambda>content.
      if check
      then (\<lambda>fs. if \<not> fexists fs p then (Inr [fst g @ ''.json''], fs)
                 else io_bind (read_text p) (\<lambda>t. io_ret (if t \<noteq> content then [fst g @ ''.json''] else [])) fs)
      else io_bind (write_bytes p content) (\<lambda>_. io_ret [])))"

definition gen_vectors :: "env \<Rightarrow> path \<Rightarrow> bool \<Rightarrow> int io" where
  "gen_vectors E dir check =
     io_bind (mkdir_p dir) (\<lambda>_. io_bind (io_map (vector_file E dir check) (generators E)) (\<lambda>stale.
     io_ret (if concat stale \<noteq> [] then 1 else 0)))"


section \<open>The files of spec/vectors\<close>

text \<open>What the validators say, as the generators record it: every refusal is a \<open>ValueError\<close>.\<close>

lemma uri_verdict: "recorded_verdict (validate_uri (JStr u)) = Inr (uri_ok u)"
proof (cases "validate_uri (JStr u)")
  case (Inl e)
  then have "\<not> uri_ok u" using validate_uri_iff [of "JStr u" u] by auto
  moreover have "is_value_error e" using Inl by (auto simp: validate_uri_def split: if_split_asm)
  ultimately show ?thesis using Inl by (simp add: recorded_verdict_def)
next
  case (Inr x)
  then have "uri_ok u" by (simp add: validate_uri_iff)
  then show ?thesis using Inr by (simp add: recorded_verdict_def)
qed

lemma path_verdict: "recorded_verdict (validate_path base (JStr rel)) = Inr (rel_ok rel)"
proof (cases "validate_path base (JStr rel)")
  case (Inl e)
  then have "\<not> rel_ok rel" using validate_path_iff [of base "JStr rel"] by auto
  moreover have "is_value_error e"
    using Inl unfolding validate_path_def py_in.simps raise_if_def json.case Let_def
    by (simp only: bindE.simps sum.simps split: if_split_asm) (metis is_value_error.simps(1))+
  ultimately show ?thesis using Inl by (simp add: recorded_verdict_def)
next
  case (Inr x)
  then have "rel_ok rel" by (simp add: validate_path_iff)
  then show ?thesis using Inr by (simp add: recorded_verdict_def)
qed

lemma mapE_total: "mapE (\<lambda>x. Inr (f x)) xs = Inr (map f xs)"
  by (induction xs) simp_all

lemma gen_uris_all: "gen_uris = Inr (map (\<lambda>u. JDict [(''uri'', JStr u), (''valid'', JBool (uri_ok u))]) uri_candidates)"
  unfolding gen_uris_def by (simp add: uri_verdict mapE_total)

lemma gen_paths_all: "gen_paths = Inr (map (\<lambda>p. JDict [(''path'', JStr p), (''valid'', JBool (rel_ok p))]) path_candidates)"
  unfolding gen_paths_def by (simp add: path_verdict mapE_total)

text \<open>Expected texts, with a backquote for the double quote and a bar for the backslash.\<close>

definition dq :: "string \<Rightarrow> string" where
  "dq s = map (\<lambda>c. if c = CHR 0x60 then CHR 0x22 else if c = CHR ''|'' then CHR 0x5C else c) s"

lemma no_dots: "CHR ''.'' \<notin> set s \<Longrightarrow> \<not> contains_sub ''..'' s"
  by (induction s) (auto simp: contains_sub_def)

lemma uri_ok_long: "uri_ok (replicate n CHR ''x'') \<longleftrightarrow> 0 < n \<and> n \<le> 255"
  by (cases n) (auto simp: uri_ok_def no_dots list_all_iff uri_char_def is_alnum_def)

lemma uri_verdicts:
  "map uri_ok uri_candidates =
     [True, True, True, True, False, False, False, False, False, False, False, False, False, True, False, False, False, False]"
proof -
  have "map uri_ok [''blog.alice'', ''a'', ''my-site_2'', ''A.b-C''] = [True, True, True, True]" by code_simp
  moreover have "map uri_ok [[], ''.hidden'', ''-dash'', ''a/b'', ''a'' @ [CHR 0x5C] @ ''b'', ''..'', ''a..b'',
      ''caf'' @ [CHR 0xC3, CHR 0xA9], ''a b''] = [False, False, False, False, False, False, False, False, False]" by code_simp
  moreover have "map uri_ok [''nul'' @ [CHR 0x00] @ ''byte'', ''blog'' @ [CHR 0x0A], '' blog''] = [False, False, False]" by code_simp
  ultimately show ?thesis by (simp add: uri_candidates_def uri_ok_long)
qed

lemma path_verdicts:
  "map rel_ok path_candidates =
     [True, True, False, False, False, False, False, True, False, False, False, False, False, False, False, False, False]"
  unfolding path_candidates_def by code_simp




lemmas printing = canonical_json_def quote_def u8_decode_def u8_dec.simps is_cont_def scalar_def esc_def hex4_def hex_char_def newline_def
  colon_def str_of_int_def str_of_nat.simps digit_char_def char_of_iff

lemma canonical_texts:
  "map (\<lambda>(name, v). canonical_json E v) canonical_inputs = map dq
     [''{`a`:2,`b`:1,`c`:{`y`:null,`z`:true}}'', ''{`files`:[{`path`:`b.md`},{`path`:`a.md`}],`n`:0}'',
      ''{`s`:`quote |` backslash || nl |n tab |t cr |r`}'', ''{`s`:`|u0000|u0001|u001f|u007f`}'',
      ''{`s`:`caf|u00e9 |u2014 |u4e2d|u6587 |u0627|u0644|u0639|u0631|u0628|u064a|u0629`}'',
      ''{`s`:`emoji |ud83d|ude42 math |ud835|udd38`}'', ''{`e`:2,`z`:3,`|u00e9`:1}'',
      ''{`a`:-5,`b`:9007199254740993}'', ''{`a`:{},`b`:[],`c`:``}'', ''{`uri`:`/mdp2p/abc`}'']"
  unfolding canonical_inputs_def by (simp add: printing dq_def)

fun status_of :: "json \<Rightarrow> string option" where
  "status_of (JDict d) = (case map_of d ''status'' of Some (JStr s) \<Rightarrow> Some s | _ \<Rightarrow> None)"
| "status_of v = None"

lemma pin_statuses:
  assumes "seed_pub E alice_seed \<noteq> seed_pub E mallory_seed"
  shows "\<exists>cs. gen_pins E = Inr cs \<and> map status_of cs =
    map Some [''unknown'', ''match'', ''match'', ''rollback'', ''mismatch'', ''match'']"
  using assms by (simp add: gen_pins_def check_pin_def get_or_def vectors_now_def Let_def)
section \<open>Writing and checking the files\<close>

text \<open>No generator produces a float, so every file is plain ASCII text.\<close>

lemma mapE_all: "mapE f xs = Inr ys \<Longrightarrow> (\<And>x y. x \<in> set xs \<Longrightarrow> f x = Inr y \<Longrightarrow> P y) \<Longrightarrow> list_all P ys"
proof (induction xs arbitrary: ys)
  case (Cons x xs)
  then obtain y zs where "f x = Inr y" "mapE f xs = Inr zs" "ys = y # zs" by (auto simp: bindE_Inr_iff)
  moreover have "P y" by (rule Cons.prems(2) [of x]) (simp_all add: calculation)
  moreover have "list_all P zs" by (rule Cons.IH) (use calculation Cons.prems(2) in auto)
  ultimately show ?case by simp
qed simp

lemma no_float_list_all: "no_float_list xs \<longleftrightarrow> list_all no_float xs"
  by (induction xs) simp_all

lemma no_float_items_all: "no_float_items d \<longleftrightarrow> list_all no_float (map snd d)"
  by (induction d) auto

lemma no_float_update: "no_float_items d \<Longrightarrow> no_float v \<Longrightarrow> no_float_items (AList.update k v d)"
  by (induction d) auto

lemma no_float_filter: "no_float_items d \<Longrightarrow> no_float_items (filter P d)"
  by (induction d) auto

lemma nf_canonical: "list_all no_float (gen_canonical_json E)"
  by (simp add: gen_canonical_json_def canonical_inputs_def)

lemma nf_content: "list_all no_float (gen_content_key E)"
  by (simp add: gen_content_key_def)

lemma nf_selection: "list_all no_float (gen_selection E)"
  by (simp add: gen_selection_def Let_def no_float_list_all list_all_iff)

lemma nf_uris: "gen_uris = Inr cs \<Longrightarrow> list_all no_float cs"
  by (auto simp: gen_uris_all list_all_iff)

lemma nf_paths: "gen_paths = Inr cs \<Longrightarrow> list_all no_float cs"
  by (auto simp: gen_paths_all list_all_iff)

lemma nf_pins: "gen_pins E = Inr cs \<Longrightarrow> list_all no_float cs"
  unfolding gen_pins_def Let_def
  by (erule mapE_all) (auto simp: bindE_Inr_iff)

lemma nf_make: "default_manifest E files seed ttl = (m, s) \<Longrightarrow> no_float_items m"
  by (auto simp: default_manifest_def make_manifest_def sign_manifest_def Let_def no_float_list_all list_all_iff no_float_update)

lemma nf_manifests: "gen_manifest_verify E = Inr cs \<Longrightarrow> list_all no_float cs"
  unfolding gen_manifest_verify_def manifest_cases_def Let_def
  by (auto simp: bindE_Inr_iff no_float_update nf_make split: prod.split_asm)

lemma nf_names: "gen_name_records E = Inr cs \<Longrightarrow> list_all no_float cs"
  unfolding gen_name_records_def Let_def
  by (auto simp: bindE_Inr_iff simp del: mapE.simps elim!: mapE_all) (auto simp: name_case_def record_case_def build_name_record_def bindE_Inr_iff)


lemma nf_built:
  "build_review_record now ck pk v c t = Inr r \<Longrightarrow> no_float_items r"
  "build_reviewer_opt_in now pk pid addrs cats t = Inr r \<Longrightarrow> no_float_items r"
  "build_review_assignment E now uri pk ks dl t = Inr r \<Longrightarrow> no_float_items r"
  by (auto simp: build_review_record_def build_reviewer_opt_in_def build_review_assignment_def bindE_Inr_iff no_float_list_all
      list_all_iff split: if_split_asm)

lemma nf_review_case: "no_float_items r \<Longrightarrow> review_case E (kind, name, r, sig) = Inr y \<Longrightarrow> no_float y"
  by (auto simp: review_case_def record_case_def bindE_Inr_iff)

lemma nf_reviews: "gen_reviews E = Inr cs \<Longrightarrow> list_all no_float cs"
  unfolding gen_reviews_def Let_def
  by (elim bindE_InrE mapE_all) (auto dest!: nf_built elim!: nf_review_case [rotated] intro!: no_float_update)

lemma nf_bundle_case: "no_float b \<Longrightarrow> bundle_case E k (name, b, uri, ref, reason) = Inr y \<Longrightarrow> no_float y"
  by (auto simp: bundle_case_def bindE_Inr_iff split: if_split_asm)

lemma nf_texts: "no_float (text_files files)"
  by (induction files) (auto simp: text_files_def)

lemma nf_bundle: "no_float_items m \<Longrightarrow> no_float files \<Longrightarrow> no_float (vector_bundle m s files)"
  by (simp add: vector_bundle_def)


lemma nf_default: "no_float_items (fst (default_manifest E files seed ttl))"
  by (rule nf_make) (rule prod.collapse [symmetric])

lemma nf_bundle_cases: "bundle_cases E = Inr cases \<Longrightarrow> (name, b, uri, ref, reason) \<in> set cases \<Longrightarrow> no_float b"
  unfolding bundle_cases_def Let_def split_beta
  by (elim bindE_InrE) (auto simp: nf_bundle nf_texts nf_default)

lemma nf_bundles: "gen_bundle_checks E = Inr cs \<Longrightarrow> list_all no_float cs"
  unfolding gen_bundle_checks_def
  by (elim bindE_InrE mapE_all) (auto intro: nf_bundle_cases elim!: nf_bundle_case [rotated])

lemma generators_no_float:
  assumes "(name, g) \<in> set (generators E)" and "g = Inr cs"
  shows "no_float_list cs"
  using assms by (auto simp: generators_def no_float_list_all nf_canonical nf_content nf_selection
      intro: nf_uris [OF sym] nf_paths [OF sym] nf_pins [OF sym] nf_manifests [OF sym] nf_names [OF sym] nf_reviews [OF sym]
        nf_bundles [OF sym])

lemma rendered_text:
  assumes "no_float_list cs"
  shows "utf8 (render_vectors E cs) \<and> universal_newlines (render_vectors E cs) = render_vectors E cs"
proof (rule plain_text)
  have "no_float (sort_keys (JDict [(''version'', JInt vector_version), (''cases'', JList cs)]))"
    using assms by (intro sort_keys_no_float(1)) simp
  then show "plain (render_vectors E cs)"
    unfolding render_vectors_def dumps_indent_sorted_def by (simp add: plain_dumps(1) del: sort_keys.simps dumps.simps)
qed

definition vector_path :: "path \<Rightarrow> string \<Rightarrow> path" where
  "vector_path dir name = dir @ [name @ ''.json'']"

text \<open>A file that has been written is up to date, and stays so while the other files are written.\<close>

definition up_to_date :: "env \<Rightarrow> path \<Rightarrow> string \<times> json list res \<Rightarrow> fsys \<Rightarrow> bool" where
  "up_to_date E dir g fs \<longleftrightarrow>
     (\<exists>cs. snd g = Inr cs \<and> at_path fs (vector_path dir (fst g)) = Some (File (render_vectors E cs)))"

lemma vector_file_writes:
  assumes "vector_file E dir False g fs = (Inr ss, fs')"
  shows "ss = [] \<and> up_to_date E dir g fs' \<and> (\<forall>p. p \<noteq> vector_path dir (fst g) \<longrightarrow> at_path fs' p = at_path fs p)"
  using assms by (auto simp: vector_file_def up_to_date_def vector_path_def io_bind_Inr bindE_Inr_iff Let_def at_put elim!: write_bytes_cases)

lemma vector_file_checks:
  assumes "up_to_date E dir g fs" and "g \<in> set (generators E)"
  shows "vector_file E dir True g fs = (Inr [], fs)"
proof -
  obtain cs where cs: "snd g = Inr cs" and at: "at_path fs (vector_path dir (fst g)) = Some (File (render_vectors E cs))"
    using assms(1) by (auto simp: up_to_date_def)
  have "utf8 (render_vectors E cs) \<and> universal_newlines (render_vectors E cs) = render_vectors E cs"
    using generators_no_float [of "fst g" "snd g" E cs] assms(2) cs by (intro rendered_text) (metis prod.collapse)
  then show ?thesis
    using cs at by (simp add: vector_file_def vector_path_def fexists_def read_text_def read_bytes_def io_bind_def io_lift_def io_ret_def decode_utf8_def Let_def)
qed

lemma generator_names: "distinct (map fst (generators E))"
  by (simp add: generators_def)

lemma vectors_written:
  assumes "io_map (vector_file E dir False) gs fs = (Inr sss, fs')" and "distinct (map fst gs)"
  shows "concat sss = [] \<and> (\<forall>g \<in> set gs. up_to_date E dir g fs') \<and>
    (\<forall>p. p \<notin> vector_path dir ` fst ` set gs \<longrightarrow> at_path fs' p = at_path fs p)"
  using assms
proof (induction gs arbitrary: fs sss)
  case (Cons g gs)
  then obtain ss fs1 rest where g: "vector_file E dir False g fs = (Inr ss, fs1)"
      and gs: "io_map (vector_file E dir False) gs fs1 = (Inr rest, fs')" and sss: "sss = ss # rest"
    by (auto simp: io_bind_Inr)
  have new: "vector_path dir (fst g) \<notin> vector_path dir ` fst ` set gs"
    using Cons.prems(2) by (auto simp: vector_path_def)
  have "up_to_date E dir g fs'"
    using vector_file_writes [OF g] Cons.IH [OF gs] Cons.prems(2) new by (simp add: up_to_date_def)
  then show ?case using vector_file_writes [OF g] Cons.IH [OF gs] Cons.prems(2) sss by auto
qed simp

lemma vectors_checked:
  assumes "\<And>g. g \<in> set gs \<Longrightarrow> up_to_date E dir g fs \<and> g \<in> set (generators E)"
  shows "io_map (vector_file E dir True) gs fs = (Inr (map (\<lambda>_. []) gs), fs)"
  using assms by (induction gs) (simp_all add: vector_file_checks io_bind_def io_ret_def)

lemma mkdir_p_there:
  assumes "\<And>x. prefix x p \<Longrightarrow> at_path fs x = Some Dir"
  shows "mkdir_p p fs = (Inr (), fs)"
proof -
  have "(\<forall>q \<in> set qs. prefix q p) \<Longrightarrow> io_each mkdir_step qs fs = (Inr (), fs)" for qs
    using assms by (induction qs) (auto simp: mkdir_step_def is_directory_def io_bind_def io_ret_def)
  then show ?thesis by (simp add: mkdir_p_def in_set_prefixes)
qed

lemma vectors_regenerated:
  assumes "gen_vectors E dir False fs = (Inr n, fs')"
  shows "n = 0 \<and> gen_vectors E dir True fs' = (Inr 0, fs')"
proof -
  obtain fs1 sss where d: "mkdir_p dir fs = (Inr (), fs1)" and w: "io_map (vector_file E dir False) (generators E) fs1 = (Inr sss, fs')"
      and n: "n = (if concat sss \<noteq> [] then 1 else 0)"
    using assms by (auto simp: gen_vectors_def io_bind_Inr)
  note written = vectors_written [OF w generator_names]
  have "at_path fs' x = Some Dir" if "prefix x dir" for x
  proof -
    have "x \<notin> vector_path dir ` fst ` set (generators E)"
      using that by (auto simp: vector_path_def prefix_def)
    then show ?thesis using written mkdir_p_Inr [OF d that] by simp
  qed
  then have "mkdir_p dir fs' = (Inr (), fs')" by (rule mkdir_p_there)
  moreover have "io_map (vector_file E dir True) (generators E) fs' = (Inr (map (\<lambda>_. []) (generators E)), fs')"
    by (rule vectors_checked) (use written in simp)
  moreover have "concat (map (\<lambda>_. []) gs) = ([] :: string list)" for gs :: "(string \<times> json list res) list"
    by (induction gs) simp_all
  ultimately show ?thesis using n written by (simp add: gen_vectors_def io_bind_def io_ret_def)
qed

text \<open>Checking writes nothing.\<close>

lemma check_writes_no_file: "keeps (same_files d) (gen_vectors E dir True)"
proof -
  have "keeps (same_files d) (vector_file E dir True g)" for g
    unfolding vector_file_def Let_def if_True by (intro kept_rules keeps_reads)
  then show ?thesis unfolding gen_vectors_def by (intro kept_rules)
qed

section \<open>The verdicts on bundles\<close>

definition file_entries :: "env \<Rightarrow> (string \<times> string) list \<Rightarrow> json list" where
  "file_entries E files =
     map (\<lambda>(p, c). JDict [(''path'', JStr p), (''hash'', JStr (hexdigest E c)), (''size'', JInt (int (length c)))]) (sort_key fst files)"

lemma manifest_fields:
  assumes "default_manifest E files seed ttl = (m, s)"
  shows "map_of m ''uri'' = Some (JStr ''blog.alice'')" "map_of m ''expires_at'' = Some (JInt (vectors_now - 60 + ttl))"
    "map_of m ''files'' = Some (JList (file_entries E files))" "map_of m ''file_count'' = Some (JInt (int (length files)))"
  using assms by (auto simp: default_manifest_def make_manifest_def sign_manifest_def file_entries_def Let_def)

lemma manifest_verifies:
  assumes "ed25519_ok E" and "default_manifest E files alice_seed ttl = (m, s)"
  shows "verify_manifest E (JDict m) (JStr s) (pub_of E (seed_key alice_seed)) = Inr True"
  using assms by (auto simp: default_manifest_def make_manifest_def Let_def intro!: sign_manifest_verifies)

lemma vector_check:
  assumes "ed25519_ok E" and m: "default_manifest E files alice_seed ttl = (m, s)"
  shows "check_downloaded_bundle E vectors_now (vector_bundle m s fs) uri (pub_of E (seed_key alice_seed)) ref site =
    (if \<not> is_dict fs then Inr (Some ''malformed bundle files'')
     else if uri \<noteq> ''blog.alice'' then Inr (Some ''manifest is for another uri'')
     else if JStr (compute_manifest_ref E (JDict m)) \<noteq> ref then Inr (Some ''manifest ref mismatch'')
     else if ttl < 60 then Inr (Some ''manifest expired'')
     else case validate_bundle_payload E (vector_bundle m s fs) site of
       Inr vs \<Rightarrow> Inr None
     | Inl e \<Rightarrow> if caught_content e then Inr (Some ''bundle content rejected'') else Inl e)"
  using manifest_verifies [OF assms] manifest_fields [OF m]
  by (auto simp: check_downloaded_bundle_def vector_bundle_def get_or_def is_manifest_expired_def)



lemma expected_entries:
  "expected_loop d (map (\<lambda>(p, c). JDict [(''path'', JStr p), (''hash'', JStr (hexdigest E c)), (''size'', JInt (int (length c)))]) xs) =
     Inr (fold (\<lambda>x. AList.update (fst x) (snd x)) (map (\<lambda>(p, c). (JStr p, JStr (hexdigest E c))) xs) d)"
  by (induction xs arbitrary: d) auto

lemma map_of_sorted:
  assumes "distinct (map fst xs)"
  shows "map_of (sort_key fst xs) = map_of xs"
proof -
  have "distinct (map fst (sort_key fst xs))" using assms by (simp add: distinct_fst_sort_key)
  then show ?thesis
    using assms by (intro map_of_inject_set [THEN iffD2]) simp_all
qed

lemma map_of_hashes: "map_of (map (\<lambda>(p, c). (JStr p, JStr (h c))) xs) (JStr p) = map_option (\<lambda>c. JStr (h c)) (map_of xs p)"
  by (induction xs) auto

lemma payload_text_error: "payload_loop out used (map (\<lambda>(p, c). (p, JStr c)) vs) = Inl e \<Longrightarrow> is_value_error e"
proof (induction vs arbitrary: used)
  case (Cons x vs)
  obtain p c where x: "x = (p, c)" by fastforce
  have bad: "is_value_error e" if "validate_path out (JStr p) = Inl e" for e
    using path_verdict [of out p] that by (auto simp: recorded_verdict_def split: if_split_asm)
  show ?case
    using Cons.prems Cons.IH bad x by (auto simp: bindE_Inl_iff split: if_split_asm)
qed simp


text \<open>What the checks of a bundle's files come to on the manifests built here.\<close>

definition listed_hashes :: "env \<Rightarrow> (string \<times> string) list \<Rightarrow> (json \<times> json) list" where
  "listed_hashes E files =
     fold (\<lambda>x. AList.update (fst x) (snd x)) (map (\<lambda>(p, c). (JStr p, JStr (hexdigest E c))) (sort_key fst files)) []"

lemma listed_names: "set (map fst (listed_hashes E files)) = JStr ` fst ` set files"
  unfolding listed_hashes_def keys_fold_update by (force simp: image_iff)

lemma listed_hash:
  assumes "distinct (map fst files)" and "map_of files p = Some c"
  shows "map_of (listed_hashes E files) (JStr p) = Some (JStr (hexdigest E c))"
  unfolding listed_hashes_def
proof (rule map_of_fold_update)
  have "distinct (map fst (sort_key fst files))" using assms(1) by (simp add: distinct_fst_sort_key)
  then show "distinct (map fst (map (\<lambda>(p, c). (JStr p, JStr (hexdigest E c))) (sort_key fst files)))"
    by (simp add: comp_def split_beta distinct_map inj_on_def)
  show "(JStr p, JStr (hexdigest E c)) \<in> set (map (\<lambda>(p, c). (JStr p, JStr (hexdigest E c))) (sort_key fst files))"
    using map_of_SomeD [OF assms(2)] by force
qed

lemma vector_payload_eq:
  assumes m: "default_manifest E files seed ttl = (m, s)" and "length files \<le> 1000" "length vs \<le> 1000"
  shows "validate_bundle_payload E (vector_bundle m s (text_files vs)) site =
    bindE (payload_loop site 0 (map (\<lambda>(p, c). (p, JStr c)) vs)) (\<lambda>validated.
      if JStr ` fst ` set vs \<noteq> JStr ` fst ` set files
      then (if sortable (filter (\<lambda>k. k \<notin> set (map (\<lambda>x. JStr (fst x)) (map (\<lambda>(p, c). (p, JStr c)) vs))) (map fst (listed_hashes E files)))
            then Inl (ValueError ''files do not match manifest'') else Inl TypeError)
      else bindE (hash_loop E (listed_hashes E files) validated) (\<lambda>_. Inr validated))"
proof -
  have e: "expected_loop [] (file_entries E files) = Inr (listed_hashes E files)"
    by (simp add: file_entries_def expected_entries listed_hashes_def)
  have n: "set (map (\<lambda>x. JStr (fst x)) (map (\<lambda>(p, c). (p, JStr c)) vs)) = JStr ` fst ` set vs" by force
  show ?thesis
    unfolding validate_bundle_payload_def listed_names n
    using manifest_fields [OF m] assms(2,3) e
    by (simp add: vector_bundle_def text_files_def get_or_def max_bundle_files_def n listed_names del: set_map list.set_map map_map list.map_comp split del: if_split cong: if_cong)
qed

lemma vector_payload_Inr:
  assumes m: "default_manifest E files seed ttl = (m, s)" and "length files \<le> 1000" "length vs \<le> 1000"
    and "distinct (map fst files)" and "(\<Sum>x\<leftarrow>vs. length (snd x)) \<le> max_bundle_total_size"
  shows "validate_bundle_payload E (vector_bundle m s (text_files vs)) site = Inr vs \<longleftrightarrow>
    (\<forall>(p, c) \<in> set vs. rel_ok p \<and> is_md p \<and> map_option (hexdigest E) (map_of files p) = Some (hexdigest E c)) \<and>
    fst ` set vs = fst ` set files"
proof -
  have names: "JStr ` fst ` set vs = JStr ` fst ` set files \<longleftrightarrow> fst ` set vs = fst ` set files"
    by (rule inj_image_eq_iff) (simp add: inj_def)
  have h: "map_of (listed_hashes E files) (JStr p) = Some (JStr (hexdigest E c)) \<longleftrightarrow>
      map_option (hexdigest E) (map_of files p) = Some (hexdigest E c)"
    if "fst ` set vs = fst ` set files" "(p, c) \<in> set vs" for p c
  proof -
    have "p \<in> fst ` set files" using that by force
    then obtain c' where "map_of files p = Some c'" by (meson map_of_eq_None_iff not_Some_eq)
    then show ?thesis using listed_hash [OF assms(4)] by auto
  qed
  have same: "map (\<lambda>(p, c). (p, JStr c)) vs = map (\<lambda>(p, c). (p, JStr c)) ws \<longleftrightarrow> vs = ws" for ws
    by (rule inj_map_eq_map) (auto simp: inj_def)
  show ?thesis
    unfolding vector_payload_eq [OF assms(1-3)] bindE_Inr_iff payload_loop_Inr same hash_loop_Inr
    using assms(5) h names by (auto simp: bindE_Inr_iff payload_loop_Inr hash_loop_Inr same split_beta split: if_split_asm)
qed

lemma hash_loop_Inl: "hash_loop E expected vs = Inl e \<Longrightarrow> is_value_error e"
  by (induction vs) (auto split: if_split_asm)

lemma vector_payload_Inl:
  assumes m: "default_manifest E files seed ttl = (m, s)" and "length files \<le> 1000" "length vs \<le> 1000"
    and "validate_bundle_payload E (vector_bundle m s (text_files vs)) site = Inl e"
  shows "caught_content e"
  using assms(4) unfolding vector_payload_eq [OF assms(1-3)]
  by (auto simp: bindE_Inl_iff caught_content_def dest: payload_text_error hash_loop_Inl split: if_split_asm)

text \<open>A bundle of a signed manifest and texts is accepted exactly when it is what was asked for.\<close>

lemma signed_bundle_checked:
  assumes "ed25519_ok E" and m: "default_manifest E files alice_seed ttl = (m, s)"
    and "length files \<le> 1000" "length vs \<le> 1000" "distinct (map fst files)" "(\<Sum>x\<leftarrow>vs. length (snd x)) \<le> max_bundle_total_size"
  shows "\<exists>v. check_downloaded_bundle E vectors_now (vector_bundle m s (text_files vs)) uri (pub_of E (seed_key alice_seed)) (JStr ref) site = Inr v \<and>
    (v = None \<longleftrightarrow> uri = ''blog.alice'' \<and> ref = compute_manifest_ref E (JDict m) \<and> 60 \<le> ttl \<and>
      (\<forall>(p, c) \<in> set vs. rel_ok p \<and> is_md p \<and> map_option (hexdigest E) (map_of files p) = Some (hexdigest E c)) \<and>
      fst ` set vs = fst ` set files)"
proof -
  have d: "is_dict (text_files vs)" by (simp add: text_files_def)
  have "vs' = vs" if "validate_bundle_payload E (vector_bundle m s (text_files vs)) site = Inr vs'" for vs'
    using that unfolding vector_payload_eq [OF m assms(3,4)]
    by (auto simp: bindE_Inr_iff payload_loop_Inr inj_map_eq_map inj_def split: if_split_asm)
  then show ?thesis
    unfolding vector_check [OF assms(1) m] vector_payload_Inr [OF m assms(3-6), of site, symmetric]
    using d vector_payload_Inl [OF m assms(3,4), of site]
    by (cases "validate_bundle_payload E (vector_bundle m s (text_files vs)) site") auto
qed

lemma vector_paths: "rel_ok ''index.md''" "rel_ok ''posts/one.md''" "\<not> rel_ok ''../escape.md''" "is_md ''index.md''" "is_md ''posts/one.md''"
    "\<not> is_md ''script.js''"
  by code_simp+

lemma bundle_vectors_hold:
  fixes E
  defines "pk \<equiv> pub_of E (seed_key alice_seed)"
  assumes ok: "ed25519_ok E" and m: "default_manifest E vector_site alice_seed month_ttl = (m, s)"
    and f: "flip_sig s = Inr f" "verify_manifest E (JDict m) (JStr f) pk = Inr False"
    and h: "hexdigest E ''# Pwned'' \<noteq> hexdigest E (snd (hd vector_site))"
    and z: "compute_manifest_ref E (JDict m) \<noteq> replicate 64 CHR ''0''"
  shows "\<exists>cases. bundle_cases E = Inr cases \<and> map (\<lambda>(name, b, uri, ref, reason). reason = []) cases = True # replicate 10 False \<and>
    (\<forall>(name, b, uri, ref, reason) \<in> set cases. \<forall>site. \<exists>v.
      check_downloaded_bundle E vectors_now b uri pk (JStr ref) site = Inr v \<and> (v = None \<longleftrightarrow> reason = []))"
proof -
  obtain xm xs where x: "default_manifest E vector_site alice_seed 30 = (xm, xs)" by fastforce
  obtain em es where e: "default_manifest E [(''../escape.md'', ''x'')] alice_seed month_ttl = (em, es)" by fastforce
  obtain nm ns where n: "default_manifest E [(''script.js'', ''alert(1)'')] alice_seed month_ttl = (nm, ns)" by fastforce
  note site = vector_site_def max_bundle_total_size_def month_ttl_def vector_paths
  note checked = signed_bundle_checked [OF ok m, folded pk_def] signed_bundle_checked [OF ok x, folded pk_def]
    signed_bundle_checked [OF ok e, folded pk_def] signed_bundle_checked [OF ok n, folded pk_def]
  have bad: "check_downloaded_bundle E vectors_now (vector_bundle m f (text_files vector_site)) uri pk ref st = Inr (Some ''manifest signature invalid'')"
    for uri ref st using f(2) by (simp add: check_downloaded_bundle_def vector_bundle_def get_or_def text_files_def)
  have notd: "check_downloaded_bundle E vectors_now (vector_bundle m s (JList [])) uri pk ref st = Inr (Some ''malformed bundle files'')"
    for uri ref st by (simp add: vector_check [OF ok m, folded pk_def])

  let ?check = "\<lambda>b uri ref st Q. \<exists>v. check_downloaded_bundle E vectors_now b uri pk (JStr ref) st = Inr v \<and> (v = None \<longleftrightarrow> Q)"
  let ?ref = "\<lambda>m. compute_manifest_ref E (JDict m)"
  have c1: "?check (vector_bundle m s (text_files vector_site)) uri ref st (uri = ''blog.alice'' \<and> ref = ?ref m)" for uri ref st
    using checked(1) [of vector_site uri ref st] by (simp add: site)
  have c2: "?check (vector_bundle m s (text_files (AList.update ''index.md'' ''# Pwned'' vector_site))) uri ref st False" for uri ref st
    using checked(1) [of "AList.update ''index.md'' ''# Pwned'' vector_site" uri ref st] h by (simp add: site)
  have c3: "?check (vector_bundle m s (text_files (AList.update ''extra.md'' ''x'' vector_site))) uri ref st False" for uri ref st
    using checked(1) [of "AList.update ''extra.md'' ''x'' vector_site" uri ref st] by (simp add: site)
  have c4: "?check (vector_bundle m s (text_files (filter (\<lambda>(p, c). p = ''index.md'') vector_site))) uri ref st False" for uri ref st
    using checked(1) [of "filter (\<lambda>(p, c). p = ''index.md'') vector_site" uri ref st] by (simp add: site insert_eq_iff)
  have c5: "?check (vector_bundle xm xs (text_files vector_site)) uri ref st False" for uri ref st
    using checked(2) [of vector_site uri ref st] by (simp add: site)
  have c6: "?check (vector_bundle em es (text_files [(''../escape.md'', ''x'')])) uri ref st False" for uri ref st
    using checked(3) [of "[(''../escape.md'', ''x'')]" uri ref st] by (simp add: site)
  have c7: "?check (vector_bundle nm ns (text_files [(''script.js'', ''alert(1)'')])) uri ref st False" for uri ref st
    using checked(4) [of "[(''script.js'', ''alert(1)'')]" uri ref st] by (simp add: site)
  have c8: "?check (vector_bundle m f (text_files vector_site)) uri ref st False" for uri ref st by (simp add: bad)
  have c9: "?check (vector_bundle m s (JList [])) uri ref st False" for uri ref st by (simp add: notd)
  have c1': "?check (vector_bundle m s (text_files vector_site)) ''blog.alice'' (?ref m) st ([] = ([] :: string))"
      "?check (vector_bundle m s (text_files vector_site)) ''bank'' (?ref m) st False"
      "?check (vector_bundle m s (text_files vector_site)) ''blog.alice'' (replicate 64 CHR ''0'') st False" for st
    using c1 [of "''blog.alice''" "?ref m" st] c1 [of "''bank''" "?ref m" st] c1 [of "''blog.alice''" "replicate 64 CHR ''0''" st] z by simp_all
  show ?thesis
    unfolding bundle_cases_def m x e n Let_def prod.case f(1) bindE.simps
    by (intro exI conjI, rule refl, simp add: numeral_eq_Suc)
      (simp only: list.set ball_simps prod.case list.distinct, intro conjI allI, (rule c1' c2 c3 c4 c5 c6 c7 c8 c9 TrueI)+)
qed

lemma bundle_vectors_generated:
  fixes E
  defines "pk \<equiv> pub_of E (seed_key alice_seed)"
  assumes ok: "ed25519_ok E" and m: "default_manifest E vector_site alice_seed month_ttl = (m, s)"
    and f: "flip_sig s = Inr f" "verify_manifest E (JDict m) (JStr f) pk = Inr False"
    and h: "hexdigest E ''# Pwned'' \<noteq> hexdigest E (snd (hd vector_site))"
    and z: "compute_manifest_ref E (JDict m) \<noteq> replicate 64 CHR ''0''"
  shows "\<exists>cs. gen_bundle_checks E = Inr cs \<and> length cs = 11"
proof -
  obtain cases where c: "bundle_cases E = Inr cases" and n: "map (\<lambda>(name, b, uri, ref, reason). reason = []) cases = True # replicate 10 False"
    and v: "\<forall>(name, b, uri, ref, reason) \<in> set cases. \<forall>site. \<exists>v.
      check_downloaded_bundle E vectors_now b uri pk (JStr ref) site = Inr v \<and> (v = None \<longleftrightarrow> reason = [])"
    using bundle_vectors_hold [OF ok m f [unfolded pk_def] h z, folded pk_def] by (elim exE conjE) (rule that)
  have "\<exists>y. bundle_case E pk x = Inr y" if "x \<in> set cases" for x
  proof -
    obtain name b uri ref reason where x: "x = (name, b, uri, ref, reason)" by (cases x)
    have "\<exists>w. check_downloaded_bundle E vectors_now b uri pk (JStr ref) [''nonexistent'', ''site''] = Inr w \<and> (w = None \<longleftrightarrow> reason = [])"
      using bspec [OF v that] unfolding x prod.case by (rule spec)
    then show ?thesis by (auto simp: x bundle_case_def)
  qed
  then have "\<exists>ys. mapE (bundle_case E pk) cases = Inr ys \<and> length ys = length cases"
    by (induction cases) fastforce+
  moreover have "length cases = 11" using arg_cong [OF n, of length] by simp
  moreover have "b64_to_public_key E (JStr (seed_pub E alice_seed)) = Inr pk"
    using ok by (simp add: seed_pub_def pk_def ed25519_ok_def)
  ultimately show ?thesis using c by (auto simp: gen_bundle_checks_def)
qed
section \<open>The script runs through\<close>

lemma mapE_succeeds: "(\<And>x. x \<in> set xs \<Longrightarrow> \<exists>y. f x = Inr y) \<Longrightarrow> \<exists>ys. mapE f xs = Inr ys"
  by (induction xs) fastforce+

lemma flip_nonempty: "s \<noteq> [] \<Longrightarrow> \<exists>f. flip_sig (b64_encode s) = Inr f"
  by (cases s) (auto simp: flip_sig_def)

text \<open>On a dictionary no verifier raises.\<close>

lemma verifiers_return:
  "\<exists>b t. verify_name_record E now md (JDict r) s = Inr (b, t)"
  "\<exists>b t. verify_review_record E now md (JDict r) s = Inr (b, t)"
  "\<exists>b t. verify_reviewer_opt_in E now md (JDict r) s = Inr (b, t)"
  "\<exists>b t. verify_review_assignment E now md (JDict r) s = Inr (b, t)"
proof -
  show "\<exists>b t. verify_name_record E now md (JDict r) s = Inr (b, t)"
    by (cases "filter (\<lambda>f. map_of r f = None) name_record_fields = []") (auto simp: verify_name_record_def missing_fields_dict)
  show "\<exists>b t. verify_review_record E now md (JDict r) s = Inr (b, t)"
  proof (cases "filter (\<lambda>f. map_of r f = None) review_fields = []")
    case True
    then have "\<forall>f \<in> set review_fields. \<exists>v. map_of r f = Some v" by (fastforce simp: filter_empty_conv)
    then obtain v where "map_of r ''verdict'' = Some v" by (auto simp: review_fields_def)
    with True show ?thesis by (auto simp: verify_review_record_def missing_fields_dict)
  qed (auto simp: verify_review_record_def missing_fields_dict)
  show "\<exists>b t. verify_reviewer_opt_in E now md (JDict r) s = Inr (b, t)"
  proof (cases "filter (\<lambda>f. map_of r f = None) opt_in_fields = []")
    case True
    then have "\<forall>f \<in> set opt_in_fields. \<exists>v. map_of r f = Some v" by (fastforce simp: filter_empty_conv)
    then obtain c a p where "map_of r ''categories'' = Some c" "map_of r ''addrs'' = Some a" "map_of r ''peer_id'' = Some p"
      by (auto simp: opt_in_fields_def)
    with True show ?thesis by (auto simp: verify_reviewer_opt_in_def missing_fields_dict)
  qed (auto simp: verify_reviewer_opt_in_def missing_fields_dict)
  show "\<exists>b t. verify_review_assignment E now md (JDict r) s = Inr (b, t)"
  proof (cases "filter (\<lambda>f. map_of r f = None) assignment_fields = []")
    case True
    then have "\<forall>f \<in> set assignment_fields. \<exists>v. map_of r f = Some v" by (fastforce simp: filter_empty_conv)
    then obtain k d where "map_of r ''reviewer_public_keys'' = Some k" "map_of r ''deadline'' = Some d"
      by (auto simp: assignment_fields_def)
    with True show ?thesis by (auto simp: verify_review_assignment_def missing_fields_dict get_or_def)
  qed (auto simp: verify_review_assignment_def missing_fields_dict)
qed

lemma cases_return: "\<exists>y. name_case E (n, r, sig, md) = Inr y" "\<exists>y. review_case E (k, n, r, sig) = Inr y"
proof -
  obtain b t where "verify_name_record E vectors_now md (JDict r) (JStr sig) = Inr (b, t)" using verifiers_return(1) by blast
  then show "\<exists>y. name_case E (n, r, sig, md) = Inr y" by (simp add: name_case_def)
  have "\<exists>b t. review_verifier E k vectors_now (Some 300) (JDict r) (JStr sig) = Inr (b, t)"
    using verifiers_return(2-4) by (simp add: review_verifier_def)
  then show "\<exists>y. review_case E (k, n, r, sig) = Inr y" by (auto simp: review_case_def)
qed

lemma cases_mapped: "\<exists>ys. mapE (name_case E) xs = Inr ys" "\<exists>ys. mapE (review_case E) zs = Inr ys"
  by (rule mapE_succeeds, use cases_return in \<open>metis prod_cases4\<close>)+

lemma names_generated:
  assumes "\<And>seed m. ed_sign E (seed_key seed) m \<noteq> []"
  shows "\<exists>cs. gen_name_records E = Inr cs"
proof -
  have "sign_name_record E (JDict (build_name_record vectors_now uri author (seed_pub E seed) ref t)) (seed_key seed) =
      Inr (b64_encode (ed_sign E (seed_key seed) (canonical_json E (JDict (build_name_record vectors_now uri author (seed_pub E seed) ref t)))))"
    for uri author seed ref t by (simp add: sign_name_record_def sign_by_def build_name_record_def get_or_def seed_pub_def)
  moreover have "\<exists>f. flip_sig (b64_encode (ed_sign E (seed_key seed) m)) = Inr f" for seed m by (rule flip_nonempty [OF assms])
  ultimately show ?thesis
    by (simp only: gen_name_records_def Let_def bindE.simps) (metis bindE.simps(2) cases_mapped(1))
qed

lemma categories_math: "\<exists>x. validate_categories [''math''] = Inr x"
  by (rule exI) code_simp

lemma reviews_generated: "\<exists>cs. gen_reviews E = Inr cs"
proof -
  obtain u where "validate_categories [''math''] = Inr u" using categories_math by blast
  then show ?thesis
    using cases_mapped(2) [of E]
    by (simp add: gen_reviews_def Let_def build_review_record_def build_reviewer_opt_in_def build_review_assignment_def valid_verdicts_def vectors_now_def
       sign_review_record_def sign_reviewer_opt_in_def sign_review_assignment_def sign_by_def get_or_def seed_pub_def del: mapE.simps)
qed

lemma manifests_generated:
  assumes "\<And>seed m. ed_sign E (seed_key seed) m \<noteq> []"
  shows "\<exists>cs. gen_manifest_verify E = Inr cs" "\<exists>f. flip_sig (snd (default_manifest E files seed ttl)) = Inr f"
proof -
  show f: "\<exists>f. flip_sig (snd (default_manifest E files seed ttl)) = Inr f" for files seed ttl
    by (simp add: default_manifest_def make_manifest_def sign_manifest_def Let_def flip_nonempty assms)
  show "\<exists>cs. gen_manifest_verify E = Inr cs"
    using f [of vector_site alice_seed month_ttl] by (auto simp: gen_manifest_verify_def manifest_cases_def Let_def split_beta bindE_Inr_iff)
qed

lemma pins_generated: "\<exists>cs. gen_pins E = Inr cs"
  by (simp add: gen_pins_def check_pin_def get_or_def vectors_now_def Let_def)


text \<open>With signatures that are not empty, and where the bundle cases get the verdicts they are named for, every generator returns.\<close>

lemma all_generated:
  assumes "\<And>seed m. ed_sign E (seed_key seed) m \<noteq> []" and "\<exists>cs. gen_bundle_checks E = Inr cs" and "g \<in> set (generators E)"
  shows "\<exists>cs. snd g = Inr cs"
  using assms(2,3) manifests_generated(1) [OF assms(1)] names_generated [OF assms(1)] reviews_generated pins_generated gen_uris_all gen_paths_all
  by (auto simp: generators_def)

lemma write_works:
  assumes "p \<noteq> []" "is_directory fs (butlast p)" "\<not> is_directory fs p" "faults fs = []"
  shows "write_bytes p c fs = (Inr (), put p (File c) (tick fs))"
  using assms by (simp add: write_bytes_def next_fault_def)

lemma vectors_write:
  assumes "\<And>g. g \<in> set gs \<Longrightarrow> \<exists>cs. snd g = Inr cs" and "faults fs = []" and "is_directory fs dir"
    and "\<And>g. g \<in> set gs \<Longrightarrow> \<not> is_directory fs (vector_path dir (fst g))"
  shows "\<exists>sss fs'. io_map (vector_file E dir False) gs fs = (Inr sss, fs')"
  using assms
proof (induction gs arbitrary: fs)
  case (Cons g gs)
  obtain cs where cs: "snd g = Inr cs" using Cons.prems(1) [of g] by auto
  let ?fs = "put (vector_path dir (fst g)) (File (render_vectors E cs)) (tick fs)"
  have w: "write_bytes (vector_path dir (fst g)) (render_vectors E cs) fs = (Inr (), ?fs)"
    by (rule write_works) (use Cons.prems(2-4) in \<open>simp_all add: vector_path_def\<close>)
  have at: "at_path ?fs p = (if p = vector_path dir (fst g) then Some (File (render_vectors E cs)) else at_path fs p)" for p
    by (subst at_put) (simp_all add: vector_path_def)
  have "\<exists>sss fs'. io_map (vector_file E dir False) gs ?fs = (Inr sss, fs')"
  proof (rule Cons.IH)
    show "faults ?fs = []" using Cons.prems(2) by (simp add: put_def tick_def)
    show "is_directory ?fs dir" using Cons.prems(3) by (auto simp: is_directory_def at) (simp add: vector_path_def)
    show "\<not> is_directory ?fs (vector_path dir (fst h))" if "h \<in> set gs" for h
      using Cons.prems(4) that by (auto simp: is_directory_def at)
  qed (use Cons.prems(1) in auto)
  moreover have "vector_file E dir False g fs = (Inr [], ?fs)"
    using w cs by (simp add: vector_file_def vector_path_def io_bind_def io_lift_def io_ret_def Let_def)
  ultimately show ?case by (auto simp: io_bind_def io_ret_def)
qed simp

lemma regenerating_works:
  assumes "\<And>seed m. ed_sign E (seed_key seed) m \<noteq> []" and "\<exists>cs. gen_bundle_checks E = Inr cs"
    and d: "mkdir_p dir fs = (Inr (), fs1)" "faults fs1 = []"
    and "\<And>name. \<not> is_directory fs1 (vector_path dir name)"
  shows "\<exists>fs'. gen_vectors E dir False fs = (Inr 0, fs')"
proof -
  have "is_directory fs1 dir" using mkdir_p_Inr [OF d(1), of dir] by (simp add: is_directory_def)
  then obtain sss fs' where w: "io_map (vector_file E dir False) (generators E) fs1 = (Inr sss, fs')"
    using vectors_write [of "generators E" fs1 dir E] all_generated [OF assms(1,2)] assms(4,5) by blast
  then have "gen_vectors E dir False fs = (Inr (if concat sss \<noteq> [] then 1 else 0), fs')"
    using d by (simp add: gen_vectors_def io_bind_def io_ret_def)
  then show ?thesis using vectors_written [OF w generator_names] by auto
qed

text \<open>
  What the vectors take for granted of Ed25519 and SHA-256: signatures are not empty, the signature with a
  flipped bit is refused, and the hashes they tell apart differ.
\<close>

definition tells_apart :: "env \<Rightarrow> bool" where
  "tells_apart E \<longleftrightarrow> ed25519_ok E \<and> (\<forall>seed m. ed_sign E (seed_key seed) m \<noteq> []) \<and>
     (let (m, s) = default_manifest E vector_site alice_seed month_ttl in
        (\<forall>f. flip_sig s = Inr f \<longrightarrow> verify_manifest E (JDict m) (JStr f) (pub_of E (seed_key alice_seed)) = Inr False) \<and>
        compute_manifest_ref E (JDict m) \<noteq> replicate 64 CHR ''0'') \<and>
     hexdigest E ''# Pwned'' \<noteq> hexdigest E (snd (hd vector_site))"

lemma bundle_verdicts:
  assumes "tells_apart E"
  shows "\<exists>cases. bundle_cases E = Inr cases \<and> map (\<lambda>(name, b, uri, ref, reason). reason = []) cases = True # replicate 10 False \<and>
    (\<forall>(name, b, uri, ref, reason) \<in> set cases. \<forall>site. \<exists>v.
      check_downloaded_bundle E vectors_now b uri (pub_of E (seed_key alice_seed)) (JStr ref) site = Inr v \<and> (v = None \<longleftrightarrow> reason = []))"
    and "\<exists>cs. gen_bundle_checks E = Inr cs \<and> length cs = 11"
proof -
  have E: "ed25519_ok E" "\<And>seed m. ed_sign E (seed_key seed) m \<noteq> []" "hexdigest E ''# Pwned'' \<noteq> hexdigest E (snd (hd vector_site))"
    using assms by (simp_all add: tells_apart_def)
  obtain m s where m: "default_manifest E vector_site alice_seed month_ttl = (m, s)" by fastforce
  obtain f where f: "flip_sig s = Inr f" using manifests_generated(2) [OF E(2), of vector_site alice_seed month_ttl] m by auto
  have v: "verify_manifest E (JDict m) (JStr f) (pub_of E (seed_key alice_seed)) = Inr False" "compute_manifest_ref E (JDict m) \<noteq> replicate 64 CHR ''0''"
    using assms f by (simp_all add: tells_apart_def m)
  show "\<exists>cases. bundle_cases E = Inr cases \<and> map (\<lambda>(name, b, uri, ref, reason). reason = []) cases = True # replicate 10 False \<and>
    (\<forall>(name, b, uri, ref, reason) \<in> set cases. \<forall>site. \<exists>v.
      check_downloaded_bundle E vectors_now b uri (pub_of E (seed_key alice_seed)) (JStr ref) site = Inr v \<and> (v = None \<longleftrightarrow> reason = []))"
    by (rule bundle_vectors_hold [OF E(1) m f v(1) E(3) v(2)])
  show "\<exists>cs. gen_bundle_checks E = Inr cs \<and> length cs = 11"
    by (rule bundle_vectors_generated [OF E(1) m f v(1) E(3) v(2)])
qed
end
