(* ===== verification/ClientSamples.thy ===== *)
theory ClientSamples
  imports Reader Samples Vectors
begin

text \<open>
  Sample runs of the client: a disk with one seeded site, a user who removes it, a run of the command line and
  of the menu, and the publishing dialogue of the reader.
\<close>

definition seed_text :: string where
  "seed_text = dumps_indent demo_env (JDict [(''uri'', JStr ''site'')])"

definition seeds_disk :: fsys where
  "seeds_disk = \<lparr>nodes = [([''d''], Dir), ([''d'', ''s''], Dir), ([''d'', ''s'', ''manifest.json''], File seed_text),
     ([''d'', ''s'', ''manifest.sig''], File [])], faults = []\<rparr>"

definition seeds_config :: client_config where
  "seeds_config = (new_config [''h''] (JStr ''ann''))\<lparr>cfg_data_dir := JStr ''/d''\<rparr>"

definition one_seed :: seeded_site where
  "one_seed = \<lparr>seed_uri = JStr ''site'', seed_author = JStr ''unknown'', seed_dir = [''d'', ''s''], seed_timestamp = JInt 0,
     seed_file_count = JInt 0, seed_total_size = JInt 0, seed_public_key = JStr []\<rparr>"

definition demo_screen :: display where
  "demo_screen = \<lparr>word = id, counted = (\<lambda>k n. k), calendar = (\<lambda>x. Inr [])\<rparr>"

definition demo_console :: "string list \<Rightarrow> unit console" where
  "demo_console ls = \<lparr>entered = map Some ls, session = \<lparr>far_state = (), pdisk = seeds_disk, psites = [], provided = []\<rparr>\<rparr>"

lemma seeds_disk_at:
  "at_path seeds_disk [''d''] = Some Dir" "at_path seeds_disk [''d'', ''s''] = Some Dir"
  "at_path seeds_disk [''d'', ''s'', ''manifest.json''] = Some (File seed_text)"
  "at_path seeds_disk [''d'', ''s'', ''manifest.sig''] = Some (File [])"
  by (simp_all add: seeds_disk_def at_path_def)

lemma seed_read: "read_manifest demo_env [''d'', ''s''] seeds_disk = (Inr (JDict [(''uri'', JStr ''site'')]), seeds_disk)"
proof -
  have j: "jwf (JDict [(''uri'', JStr ''site'')])" "no_float (JDict [(''uri'', JStr ''site'')])"
    by (simp_all add: utf8_ascii)
  show ?thesis
    using read_dumped_indent [OF j, of seeds_disk "[''d'', ''s'', ''manifest.json'']" demo_env]
    by (simp add: read_manifest_def seeds_disk_at seed_text_def io_bind_def io_lift_def)
qed

lemma digit_zero: "digit_char 0 = CHR ''0''"
  by code_simp

lemma seeds_found: "get_seeded_sites demo_env [''d''] seeds_disk = (Inr (Some [one_seed]), seeds_disk)"
proof -
  have c: "dir_children seeds_disk [''d''] = [[''d'', ''s'']]"
    by (simp add: dir_children_def seeds_disk_def)
  have s: "seeded_in demo_env [''d'', ''s''] seeds_disk = (Inr [one_seed], seeds_disk)"
    by (simp add: seeded_in_def is_directory_def fexists_def seeds_disk_at seed_read
        io_bind_def io_lift_def io_ret_def io_try_def seeded_site_of_def one_seed_def get_or_def)
  show ?thesis
    by (simp add: get_seeded_sites_def fexists_def is_directory_def seeds_disk_at c s io_bind_def io_ret_def Let_def one_seed_def)
qed

lemma seeds_dir: "dir_of [] (cfg_data_dir seeds_config) = Inr [''d'']"
  by (simp add: seeds_config_def dir_of_def text_of_def resolve_in_def resolve_parts_def resolve_step_def)

text \<open>The user chooses the only site and confirms.\<close>

lemma seed_removed:
  "\<exists>r w'. action_remove demo_env demo_screen [] ''fr'' seeds_config (demo_console [''1'', ''oui'']) = (r, w') \<and>
    at_path (pdisk (session w')) [''d'', ''s''] = None"
proof -
  have r: "rmtree [''d'', ''s''] seeds_disk = (Inr (), remove_under [''d'', ''s''] (tick seeds_disk))"
    by (simp add: rmtree_def is_directory_def seeds_disk_at next_fault_def seeds_disk_def at_path_def)
  have gone: "at_path (remove_under [''d'', ''s''] (tick seeds_disk)) [''d'', ''s''] = None"
    by (simp add: at_remove_under)
  have p: "strip ''1'' = ''1''" "strip ''oui'' = ''oui''" "lower ''oui'' = ''oui''"
    by (simp_all add: strip_id is_space_def lower_def lower_char_def)
  have n: "numbered_sites demo_env demo_screen [one_seed] = Inr [''unknown@site  (0 B, files_unit)'']"
    by (simp add: numbered_sites_def key_hint_def one_seed_def sized_def demo_screen_def str_of_int_def str_of_nat.simps digit_zero)
  have c: "chosen_site ''1'' [one_seed] = Some one_seed"
    by (simp add: chosen_site_def all_digits_def is_digit_def numbered_def int_of_str_def p read_digits.simps digit_val_def)
  have d: "seed_dir one_seed = [''d'', ''s'']" by (simp add: one_seed_def)
  have "action_remove demo_env demo_screen [] ''fr'' seeds_config (demo_console [''1'', ''oui'']) =
      (Inr (Some ()), (demo_console [])\<lparr>session := (session (demo_console []))\<lparr>pdisk := remove_under [''d'', ''s''] (tick seeds_disk)\<rparr>\<rparr>)"
    by (simp add: action_remove_def with_sites_def seeds_dir io_bind_def io_lift_def in_session_def on_disk_def demo_console_def seeds_found
        removal_dialogue_def shown_def n io_ret_def prompt_input_def next_line_def p c confirmed_def confirm_yes_def io_opt_def io_try_def d r)
  then show ?thesis using gone by simp
qed

text \<open>A machine without a network.\<close>

definition demo_machine :: "unit machine" where
  "demo_machine = \<lparr>connect = (\<lambda>a. Inl (OSError ''no network'')),
     network = \<lparr>naming_end = None, own_id = [], data_dir = [''d''], pins_path = [''pins''], dht_provide = None,
       dht_from_naming = (\<lambda>k. Inr []), dht_find = (\<lambda>k. Inr []), dial = (\<lambda>a ws. Inr []), slow = (\<lambda>a. False),
       codec = \<lparr>private_pem = (\<lambda>pw k. k), public_pem = id, load_private_pem = (\<lambda>pw b. Inr b), load_public_pem = Inr\<rparr>, process_id = 0\<rparr>,
     host_id = id, fresh_key = [], fresh_seed = [], write_sizes = [], pins_default = [''pins'']\<rparr>"

definition demo_host :: host where
  "demo_host = \<lparr>sys_platform = ''plan9'', is_frozen = True, executable = ''mdp2p'', user_name = ''ann'', uid = 1, home_dir = [''h''],
     run_cmd = (\<lambda>c. Inl (OSError ''no such command'')), plist_dump = (\<lambda>j. [])\<rparr>"

definition demo_desk :: "unit desk" where
  "demo_desk = \<lparr>desk_machine = demo_machine, desk_host = demo_host, screen = demo_screen, locate = (\<lambda>s. Inr [s]), resolved = (\<lambda>s. [s]),
     chown_works = False, is_tty = True, home_path = [''h''], cwd_path = [], desk_pid = 7, completion = id, listen_addrs = [],
     clock = (\<lambda>w. 100)\<rparr>"

text \<open>Without a configuration and without pins, listing the pins succeeds.\<close>

lemma pins_listed: "main demo_env demo_desk 1 CmdPins (demo_console []) = (Inr (Some 0), demo_console [])"
proof -
  have "at_path seeds_disk [''h'', ''.mdp2p'', f] = None" for f by (simp add: seeds_disk_def at_path_def)
  then show ?thesis
    by (simp add: main_def cli_pins_def demo_desk_def demo_console_def config_load_def load_pinstore_def default_config_file_def get_pinstore_path_def
        fexists_def io_bind_def io_ret_def io_lift_def in_session_def on_disk_def shown_def print_pins_table_def Let_def)
qed

text \<open>A user who refreshes the menu and leaves.\<close>

lemma menu_left:
  "fst (menu_loop demo_env demo_desk 3 seeds_config ''fr'' (demo_console [''r'', ''q''])) = Inr (Some ())"
proof -
  have p: "strip ''r'' = ''r''" "strip ''q'' = ''q''" "lower ''r'' = ''r''" "lower ''q'' = ''q''"
    by (simp_all add: strip_id is_space_def lower_def lower_char_def)
  show ?thesis
    by (simp add: numeral_3_eq_3 menu_loop_def menu_turn_def with_sites_def demo_desk_def seeds_dir seeds_found demo_console_def
        io_bind_def io_lift_def in_session_def on_disk_def io_ret_def next_line_def p Let_def)
qed

text \<open>The publishing dialogue of a reader that has just been opened.\<close>

definition demo_viewer :: "unit viewer" where
  "demo_viewer = \<lparr>v_machine = demo_machine, v_host = demo_host, v_home = [''h''], v_cwd = [], v_child = (\<lambda>c n p. (Inl Timeout, p)),
     list_accepts = (\<lambda>ids name. name \<notin> set ids), expanded = id, v_clock = (\<lambda>r. 100)\<rparr>"

definition demo_reader :: "unit reader" where
  "demo_reader = \<lparr>r_session = session (demo_console []), r_config = seeds_config, r_views = [], r_query = [], r_listed = [],
     r_shown = None, r_screens = [PublishModal], r_jobs = [], r_notes = []\<rparr>"

text \<open>The conformance vectors under the sample signature scheme.\<close>

lemma demo_tells_apart: "tells_apart demo_env"
proof -
  obtain m s where m: "default_manifest demo_env vector_site alice_seed month_ttl = (m, s)" by fastforce
  have s: "s = b64_encode (seed_key alice_seed @ canonical_json demo_env (JDict m))"
    using m by (auto simp: default_manifest_def make_manifest_def sign_manifest_def Let_def)
  have k: "seed_key alice_seed = CHR 0x01 # replicate 31 (CHR 0x01)"
    by (simp add: seed_key_def alice_seed_def numeral_eq_Suc char_of_def bit_0)
  have v: "ed_verify demo_env pk sg x \<longleftrightarrow> sg = pk @ x" for pk sg x by (simp add: demo_env_def)
  have flip: "char_of (flip_bit 0 (Suc 0)) = CHR 0x00" by code_simp
  have "verify_manifest demo_env (JDict m) (JStr f) (pub_of demo_env (seed_key alice_seed)) = Inr False" if "flip_sig s = Inr f" for f
  proof -
    have key: "get_or m ''public_key'' (JStr []) = JStr (public_key_to_b64 (seed_key alice_seed))"
      using m by (auto simp: default_manifest_def make_manifest_def sign_manifest_def Let_def get_or_def)
    have "f = b64_encode (CHR 0x00 # replicate 31 (CHR 0x01) @ canonical_json demo_env (JDict m))"
      using that by (simp add: s k flip_sig_def byte_def flip)
    then have "b64decode (JStr f) = Inr (CHR 0x00 # replicate 31 (CHR 0x01) @ canonical_json demo_env (JDict m))" by simp
    moreover have "CHR 0x00 # xs \<noteq> seed_key alice_seed @ ys" for xs ys by (simp add: k)
    ultimately show ?thesis unfolding verify_manifest_def py_get.simps key demo_env_simps by (simp only: bindE.simps v) simp
  qed
  moreover have "compute_manifest_ref demo_env (JDict m) \<noteq> replicate 64 CHR ''0''"
  proof -
    obtain r where "canonical_json demo_env (JDict m) = CHR ''{'' # r" by (fastforce simp: canonical_json_def)
    then have "hd (compute_manifest_ref demo_env (JDict m)) = CHR ''7''" by (simp add: compute_manifest_ref_def hexdigest_def hex_char_def char_of_iff)
    moreover have "hd (replicate 64 (CHR ''0'')) = CHR ''0''" by simp
    ultimately show ?thesis by fastforce
  qed
  moreover have "hexdigest demo_env ''# Pwned'' \<noteq> hexdigest demo_env (snd (hd vector_site))"
    by (simp add: hexdigest_def vector_site_def hex_char_def)
  ultimately show ?thesis
    using demo_env_ok m by (simp add: tells_apart_def seed_key_def)
qed

lemma demo_regenerated: "\<exists>fs'. gen_vectors demo_env [''v''] False empty_disk = (Inr 0, fs')"
proof (rule regenerating_works)
  show "mkdir_p [''v''] empty_disk = (Inr (), put [''v''] Dir (tick empty_disk))"
    by (simp add: mkdir_p_def prefixes_def mkdir_step_def mkdir_def is_directory_def fexists_def next_fault_def io_bind_def io_ret_def)
  show "\<not> is_directory (put [''v''] Dir (tick empty_disk)) (vector_path [''v''] name)" for name
    by (simp add: is_directory_def at_put vector_path_def)
  show "faults (put [''v''] Dir (tick empty_disk)) = []" by (simp add: put_def tick_def)
  show "\<exists>cs. gen_bundle_checks demo_env = Inr cs" using bundle_verdicts(2) [OF demo_tells_apart] by blast
  show "ed_sign demo_env (seed_key seed) m \<noteq> []" for seed m by (simp add: seed_key_def)
qed

end
