(* ===== verification/Scripts.thy ===== *)
theory Scripts
  imports Interactive
begin

text \<open>
  The scripts at the root of the repository: publish.py, fetch.py and peer_zero.py over the peer's lifecycle,
  and the periodic announcement of serve_flow.py.  A script that stays online is modelled to the point where
  it waits; \<open>connect\<close> also parses the address of the naming server.
\<close>

section \<open>publish.py\<close>

definition author_key :: "env \<Rightarrow> 's machine \<Rightarrow> path \<Rightarrow> string \<Rightarrow> unit io" where
  "author_key E K keys key_name =
     io_bind (mkdir_p keys) (\<lambda>_ fs.
       if fexists fs (resolve_in keys (key_name @ ''.key'')) then (Inr (), fs)
       else io_bind (generate_keypair E (codec (network K)) (fresh_key K) (write_sizes K) keys key_name None) (\<lambda>_. io_ret ()) fs)"

definition publish_script ::
  "env \<Rightarrow> 's machine \<Rightarrow> path \<Rightarrow> int \<Rightarrow> string \<Rightarrow> string \<Rightarrow> string \<Rightarrow> string \<Rightarrow> string \<Rightarrow> ('s peer, unit) op" where
  "publish_script E K cwd now uri author site_dir keys_dir naming =
     (let keys = resolve_in cwd keys_dir; key_name = make_key_name author uri in
      io_bind (on_disk (author_key E K keys key_name)) (\<lambda>_.
      io_bind (io_lift (connect K naming)) (\<lambda>far.
      run_peer E K ((network K)\<lparr>naming_end := Some far, data_dir := resolve_in cwd (''./peer_data_'' @ key_name),
                                pins_path := pins_default K\<rparr>) None ''none''
        (\<lambda>C. io_bind (publish E C now uri author (resolve_in cwd site_dir) (resolve_in keys (key_name @ ''.key'')) []
                        default_review_count default_review_deadline_days None) (\<lambda>_. io_ret ())))))"

section \<open>fetch.py\<close>

text \<open>\<open>f"{v:<n}"\<close>: a value without such a format raises.\<close>

fun aligned :: "env \<Rightarrow> nat \<Rightarrow> json \<Rightarrow> string res" where
  "aligned E n (JStr s) = Inr (ljust s n)"
| "aligned E n (JInt i) = Inr (ljust (str_of_int i) n)"
| "aligned E n (JBool b) = Inr (ljust (if b then ''1'' else ''0'') n)"
| "aligned E n (JFloat f) = Inr (ljust (py_str E (JFloat f)) n)"
| "aligned E n v = Inl TypeError"

definition listing_line :: "env \<Rightarrow> json \<Rightarrow> string res" where
  "listing_line E r =
     bindE (bindE (py_get r ''public_key'' (JStr [])) (slice_to 16)) (\<lambda>pub.
     bindE (bindE (py_get r ''uri'' JNull) (aligned E 24)) (\<lambda>uri.
     bindE (bindE (py_get r ''author'' JNull) (aligned E 16)) (\<lambda>author.
     bindE (bindE (py_get r ''manifest_ref'' (JStr [])) (slice_to 12)) (\<lambda>ref.
     Inr (''  md://'' @ uri @ '' author='' @ author @ '' pubkey='' @ py_str E pub @ ''... manifest='' @ py_str E ref @ ''...'')))))"

definition site_listing :: "env \<Rightarrow> json \<Rightarrow> string list res" where
  "site_listing E records =
     (if \<not> truthy records then Inr [''(no sites registered)'']
      else bindE (py_size records) (\<lambda>n.
        bindE (bindE (py_iter records) (mapE (listing_line E))) (\<lambda>lines.
        Inr ((str_of_nat n @ '' site(s) registered:'') # lines))))"

text \<open>\<open>with tempfile.TemporaryDirectory() as tmp\<close>: removed however the body ends.\<close>

definition in_temporary :: "path \<Rightarrow> ('s peer, 'a) op \<Rightarrow> ('s peer, 'a) op" where
  "in_temporary tmp body =
     io_bind (on_disk (mkdir tmp)) (\<lambda>_ p. case body p of (r, q) \<Rightarrow> (r, snd (on_disk (rmtree_quiet tmp) q)))"

definition list_sites :: "env \<Rightarrow> 's machine \<Rightarrow> path \<Rightarrow> string \<Rightarrow> ('s peer, int) op" where
  "list_sites E K tmp naming =
     io_bind (io_lift (connect K naming)) (\<lambda>far.
     in_temporary tmp
       (run_peer E K ((network K)\<lparr>naming_end := Some far, dht_provide := None, data_dir := tmp, pins_path := pins_default K\<rparr>)
          None ''none''
          (\<lambda>C. io_bind (on_naming (client_list E far)) (\<lambda>response.
           io_bind (get_field response ''type'' JNull) (\<lambda>ty.
           if ty \<noteq> JStr ''names'' then io_ret 1
           else io_bind (get_field response ''records'' (JList [])) (\<lambda>records.
             io_bind (shown (site_listing E records)) (\<lambda>_. io_ret 0)))))))"

definition fetch_and_show :: "env \<Rightarrow> int \<Rightarrow> (string list \<Rightarrow> string list) \<Rightarrow> string \<Rightarrow> bool \<Rightarrow> bool \<Rightarrow> 's pconf \<Rightarrow> ('s peer, int) op" where
  "fetch_and_show E now order uri render seed_forever C =
     io_bind (fetch_site E C now order uri [] seed_forever) (\<lambda>ok.
     if \<not> ok then io_ret 1
     else (\<lambda>p. if map_of (psites p) uri = None then (Inl (KeyError uri), p)
                else io_bind (if render then io_bind (render_site E uri) (\<lambda>_. io_ret ()) else io_ret ()) (\<lambda>_. io_ret 0) p))"

definition fetch_script ::
  "env \<Rightarrow> 's machine \<Rightarrow> int \<Rightarrow> (string list \<Rightarrow> string list) \<Rightarrow> string \<Rightarrow> string \<Rightarrow> path \<Rightarrow> path \<Rightarrow> bool \<Rightarrow> bool \<Rightarrow> ('s peer, int) op" where
  "fetch_script E K now order naming uri data pins render seed_forever =
     io_bind (io_lift (connect K naming)) (\<lambda>far.
     run_peer E K ((network K)\<lparr>naming_end := Some far, data_dir := data, pins_path := pins\<rparr>) None ''none''
       (fetch_and_show E now order uri render seed_forever))"

text \<open>\<open>parser.error\<close> ends the process with status two.\<close>

definition fetch_main ::
  "env \<Rightarrow> 's machine \<Rightarrow> path \<Rightarrow> path \<Rightarrow> int \<Rightarrow> (string list \<Rightarrow> string list) \<Rightarrow> string \<Rightarrow> string option \<Rightarrow> bool \<Rightarrow> string \<Rightarrow> string
     \<Rightarrow> bool \<Rightarrow> bool \<Rightarrow> ('s peer, int) op" where
  "fetch_main E K cwd tmp now order naming uri listing dir pinstore render seed =
     (if listing then list_sites E K tmp naming
      else case uri of
        Some u \<Rightarrow>
          if u = [] then io_ret 2
          else fetch_script E K now order naming u (resolve_in cwd dir) (resolve_in cwd pinstore) render seed
      | None \<Rightarrow> io_ret 2)"

section \<open>peer_zero.py\<close>

text \<open>The naming server of peer-zero, over the stores of its data directory.\<close>

definition peer_zero :: "env \<Rightarrow> 's machine \<Rightarrow> path \<Rightarrow> string \<Rightarrow> ('s peer, server) op" where
  "peer_zero E K cwd dir =
     (let d = resolve_in cwd dir in
      io_bind (on_disk (mkdir_p d)) (\<lambda>_.
      run_peer E K ((network K)\<lparr>naming_end := None, data_dir := d, pins_path := pins_default K\<rparr>) (Some (d @ [''peer.key''])) ''hop''
        (\<lambda>C p. (Inr (start_server E (d @ [''naming_records.json'']) (d @ [''reviewers.json'']) (d @ [''assignments.json''])
                      (d @ [''attachments.json'']) (pdisk p)), p))))"

section \<open>Announcing again\<close>

text \<open>What the seeder does in its first \<open>n\<close> periods of twelve hours.\<close>

fun periodic_reannounce :: "env \<Rightarrow> 's pconf \<Rightarrow> nat \<Rightarrow> ('s peer, unit) op" where
  "periodic_reannounce E C 0 = io_ret ()"
| "periodic_reannounce E C (Suc n) =
     io_bind (\<lambda>p. announce_all E C (map fst (psites p)) p) (\<lambda>_. periodic_reannounce E C n)"

section \<open>Properties of the scripts\<close>

lemma announce_all_quiet: "\<exists>p'. announce_all E C uris p = (Inr (), p')"
  unfolding announce_all_def
proof (induction uris arbitrary: p)
  case (Cons u uris)
  obtain r p1 where "io_bind (io_opt (announce E C u)) (\<lambda>_. io_ret ()) p = (r, p1)" by fastforce
  moreover then have "r = Inr ()"
    by (auto simp: io_bind_def io_opt_def io_try_def io_ret_def split: prod.split_asm sum.split_asm)
  ultimately show ?case using Cons.IH by (simp add: io_bind_def)
qed simp

text \<open>No failed announcement stops the loop.\<close>

lemma reannounce_goes_on: "\<exists>p'. periodic_reannounce E C n p = (Inr (), p')"
proof (induction n arbitrary: p)
  case (Suc n)
  obtain p1 where "announce_all E C (map fst (psites p)) p = (Inr (), p1)" using announce_all_quiet by blast
  then show ?case using Suc by (simp add: io_bind_def)
qed simp

text \<open>A fetch that ends with status zero installed a genuine copy.\<close>

lemma fetch_script_genuine:
  fixes K :: "'s machine"
  assumes "fetch_script E K now order naming uri data pins render stay p = (Inr 0, p')" and "fs_wf (pdisk p)"
    and "\<And>u. apart (data @ [u]) pins"
    and "\<And>u. apart (data @ [u]) (butlast pins @ [last pins @ ''.tmp-'' @ str_of_nat (process_id (network K))])"
  shows "\<exists>(C :: 's pconf) p1 p2. data_dir C = data \<and> pins_path C = pins \<and> genuine_fetch E C now uri p1 p2"
proof -
  let ?C = "\<lambda>far seed. (network K)\<lparr>naming_end := Some far, data_dir := data, pins_path := pins, own_id := host_id K seed\<rparr>"
  obtain far where r: "run_peer E K ((network K)\<lparr>naming_end := Some far, data_dir := data, pins_path := pins\<rparr>) None ''none''
       (fetch_and_show E now order uri render stay) p = (Inr 0, p')"
    using assms(1) unfolding fetch_script_def by (auto elim!: io_bind_InrE)
  have t: "tree_peer p" using assms(2) by (simp add: tree_peer_def)
  obtain sd p1 ok p2 where p1: "tree_peer p1" and f: "fetch_site E (?C far sd) now order uri [] stay p1 = (Inr ok, p2)" and ok: "ok"
    by (rule run_peer_body [OF r t]) (auto simp: fetch_and_show_def elim!: io_bind_InrE split: if_split_asm)
  have "genuine_fetch E (?C far sd) now uri p1 p2"
    by (rule fetch_site_genuine [where order = order and given = "[]" and ann = stay])
      (use f ok p1 assms(3,4) in \<open>simp_all add: tree_peer_def\<close>)
  then show ?thesis by (intro exI [of _ "?C far sd"] exI [of _ p1] exI [of _ p2] conjI) simp_all
qed

end
