(* ===== verification/Spec2Isabelle.thy ===== *)
theory Spec2Isabelle
  imports NetworkSamples Reseed Answers ClientSamples Scripts
begin

text \<open>
  A verification of mdp2p, a peer-to-peer network for signed Markdown sites.


  THE PROGRAM AND ITS PARTS

  An author signs a manifest of the pages of a site, registers a signed record for the site's URI at a naming
  server, and serves the pages.  A reader resolves the URI there, checks the record against the keys it has
  pinned, finds seeders through a DHT, downloads the bundle from the first of them that sends one it can
  accept, installs it, and becomes a seeder itself.  Reviewers register at the naming server, poll it for
  assignments and attach signed reviews, from which a reader computes a score.

  Theory by theory, in the order they build on each other (files under src/):

  \<^item> Prelude, PyStr, PyValue: exceptions and results, strings, JSON values and the operations of Python on them,
    and the record \<open>env\<close> of the primitives that are not code of the repository.
  \<^item> JsonText, Base64: the standard library's json and base64 as the program uses them; bundle/_canonical.py.
  \<^item> FileSys, AtomicFile: the disk with a schedule of faults; saving through a temporary file.
  \<^item> Paths, Crypto, Keys, Manifest, NameRecords, Serialization: the package bundle (paths.py, crypto.py,
    manifest.py, name_records.py, serialization.py).
  \<^item> Taxonomy, ReviewRecords, Selection: the package review (taxonomy.py, record.py, selection.py).
  \<^item> Trust: the package trust (signal.py, policy.py, store.py, scorer.py).
  \<^item> PinStore: pinstore.py.  Wire: wire.py.
  \<^item> NamingStores, NamingServer, NamingClient, Answers: naming.py, its four stores, one definition for each message
    handler, the stream handler, the client's calls, and the types of the answers.
  \<^item> BundleProtocol: peer/bundle_protocol.py, with the race between seeders as a step relation.
  \<^item> PeerChecks, Peer, PeerFetch, Reseed: peer/peer.py; what it judges, its methods, what a fetch guarantees, and
    that what was installed is what is served again.
  \<^item> ReviewerDaemon: peer/reviewer_daemon.py.
  \<^item> ClientConfig: mdp2p_client/config.py, scoring.py.  ClientFlows: publish_flow.py, fetch_flow.py,
    review_flow.py, serve_flow.py there, and \<open>run_peer\<close> of peer/lifecycle.py.  Service: service.py.
  \<^item> Tables, Console, Commands, Interactive, App: mdp2p_client/formatting.py, ui.py, i18n.py, permissions.py,
    commands.py, interactive.py, app.py.  Reader: tui.py without its widgets.
  \<^item> Scripts: publish.py, fetch.py, peer_zero.py.  Vectors: scripts/gen_vectors.py.
  \<^item> DiskTree: the disk stays a tree whatever the program does.
  \<^item> Samples, NetworkSamples, ClientSamples: concrete values at which the properties are applied.

  The interfaces between components are locales, each interpreted on the model's own definitions:
  \<open>mapping_store\<close> (Prelude; a dictionary, by association lists), \<open>record_verifier\<close> (Crypto; what building, signing
  and verifying a record have in common, by naming records, opt-ins, assignments and reviews),
  \<open>versioned_store\<close> and its extension \<open>owned_store\<close> (NamingStores; entries replaced by newer ones only, and an
  owner that never changes, by the stores of names, reviewers and reviews).


  HOW CODE IS TRANSLATED

  \<^item> A \<open>str\<close> is its UTF-8 encoding, a list of bytes, and \<open>bytes\<close> is the same type.  A message keeps the fixed part
    of its text.  A key object is its raw bytes.
  \<^item> A JSON value is a \<open>json\<close>; an operation on a value of the wrong type raises where it raises in the source.  A
    dictionary is an association list in insertion order.  Python's integers are \<open>int\<close>.
  \<^item> A call that may raise gives \<open>exn + 'a\<close>.  Code with effects is a function of the state, \<open>('s, 'a) op\<close>: for the
    disk, the naming server, the peer, the user's console and the reader's session; \<open>on_disk\<close>, \<open>on_naming\<close>,
    \<open>in_session\<close> and \<open>in_reader\<close> lift it along a component of the state.  \<open>None\<close> in the result of such code marks a
    run that leaves the model (below).
  \<^item> Every call that changes the disk takes an entry of a schedule: it works, fails, or stops part-way.  A
    statement about every disk is thus one about a failure at every point.
  \<^item> Time is an argument.  So is everything else that is not code of the repository: the Ed25519 primitives and
    SHA-256 (\<open>env\<close>, relied on through \<open>ed25519_ok\<close> and, for the vectors, \<open>tells_apart\<close>), the PEM encoding (\<open>pem\<close>,
    \<open>pem_ok\<close>), the far end of a stream, the DHT's answers, the transport to seeders and the order in which
    downloads end, the results of commands and of child processes, the user's lines, the local calendar and
    the translations, the identifiers the widget toolkit accepts.
  \<^item> Concurrent code is a relation over its turns: the seeders' race (\<open>race_step\<close>, at most four running, the first
    good bundle cancels the rest), the daemon's two loops (\<open>daemon_run\<close>), the server among its clients (\<open>serves\<close>),
    the reader with its events and jobs (\<open>session_of\<close>; a job ends at any later moment).

  Bounds and fuel.  The JSON parser's fuel is twice the length of the text, which is enough for every text
  (\<open>parse_fuel_enough\<close>).  The paging loop of the naming client has the code's own limit on pages.  The menu takes
  a number of turns; one more than the lines there are to read is enough, and what would happen after them is
  never reached (\<open>menu_rounds_agree\<close>).  The other loops are structural or have a measure.


  WHAT THE LEMMAS SHOW

  Text and disk.  JSON, Base64, UTF-8 and frames are read back as they were written, and malformed frames are
  refused; the canonical text determines the value.  A save of the pin store, of a store of the naming server or
  of the daemon's list leaves the old or the new file, and the installation of a bundle leaves the old or the
  new directory, at every fault; the trust store, the policy and the configuration are written in place, by the
  code and by the model.  The disk stays a tree.

  Records and bundles.  What the program builds and signs verifies, what verifies is signed by the key it names
  and has the shape it should have; a bundle that is accepted is the one that was asked for, its pages lie
  inside the site and carry the hashes of a manifest signed by the right key; each conformance bundle gets the
  verdict it is named for.

  The naming server.  A name keeps its key; the entries of the four stores stay and only move forward in time; what
  the stores hold is genuine after every run with every client; in strict mode a review was assigned; a record
  that is newer is accepted, is on the disk and is resolved as it was; an assignment reaches every reviewer it
  names; a listing is the records in order up to the client's page limit, or an error when a page does not fit;
  every answer has the type of its request; a restart keeps records, assignments and reviews.

  Peers.  A fetch installs what the registered author signed and respects the pins; an update of a pin never lowers
  its mark and leaves the others; what was fetched is served and accepted again when the answer fits the frame,
  and is not served otherwise; the race ends under every order; the signals of a
  score are signed reviews of the content, from distinct sources; scores are bounded.  The reviewers asked are
  the first of a fixed ranking of fresh opt-ins.  The daemon decides an assignment once.

  The client.  The configuration survives a restart; publishing copies every page; commands that show something
  write no file; a site is removed only after a confirmation, and nothing outside it; the menu ends for every
  input; what is picked in the publishing dialogue is what the publishing command gets.  Further lemmas of the
  component theories, without a claim of their own: the exit status is 0 or 1, table columns line up, sizes are
  rounded to the nearest digit, the reader's filter shows the sites that match, every job of the reader carries
  what a dialogue accepted, the announcing loop survives failures, regenerated vectors are not stale, the values of the
  conformance files under spec/vectors are the ones the model computes.


  NOT MODELLED

  \<^item> host_factory.py and the rest of lifecycle.py (the libp2p host, DHT bootstrapping, relays), debug_dial.py and the
    prototypes: calls into a third-party library.
  \<^item> Declarations of command-line arguments: data of \<open>argparse\<close>.  A value of \<open>command\<close> is what they parse to.
  \<^item> Widgets, layout and the welcome text of tui.py, colours, banners and printed progress.  Of what is printed, the
    tables are kept, and what printing a malformed value raises.  The translations are data.
  \<^item> demo.py (a run of the parts above in one process), log settings, packaging, tests, and the Rust port.
  \<^item> Lone surrogates in strings, the interpreter's limits on integer conversion and recursion, symbolic links,
    file modes and owners, rounding of floating-point arithmetic in scores (they are computed over the reals),
    case and digits beyond ASCII, a tilde in a configured directory, keyboard interrupts, the equality of Python
    that takes 1, 1.0 and True for the same public key, and other processes on the same disk.
    Directories are listed in sorted order.
  \<^item> Runs that leave the model give \<open>None\<close>: a policy with an infinite number, a local site whose URI is not a string,
    settings of types the dataclass does not declare, a cached content key that is not a string, spent fuel, and
    the start of the terminal interface from \<open>main\<close> (Reader models it on its own).
\<close>

section \<open>The naming server\<close>

text \<open>
  C1: Over every sequence of requests, well-formed or not, a registered URI stays registered to the public
  key that registered it first, and its record never goes back in time.
\<close>

theorem name_never_taken_over:
  assumes "server_run E srv0 srv" and "map_of (name_recs srv0) uri = Some old"
  shows "\<exists>new. map_of (name_recs srv) uri = Some new \<and>
    field_of ''public_key'' new = field_of ''public_key'' old \<and> stamp_of old \<le> stamp_of new"
  using run_name_kept [OF assms] .

theorem name_never_taken_over_witness:
  "\<exists>new. map_of (name_recs demo_server) (JStr ''site'') = Some new \<and>
    field_of ''public_key'' new = JStr (public_key_to_b64 ''k'') \<and> 100 \<le> stamp_of new"
  using name_never_taken_over [OF silent_run, of demo_server "JStr ''site''" demo_entry]
  by (simp add: demo_server_facts demo_entry_facts)

text \<open>
  C2: Every sequence of requests keeps the invariant of the server: each stored record carries a valid
  signature of the key it names and sits under the key it is about; with strict reviews, inboxes
  belong to registered reviewers and attached reviews to assigned ones.
\<close>

theorem server_stays_genuine:
  assumes "server_run E srv0 srv" and "server_inv E srv0"
  shows "server_inv E srv"
  using inv_run [OF assms] .

theorem server_stays_genuine_witness: "server_inv demo_env demo_server"
  by (rule server_stays_genuine [OF demo_server_run empty_server_inv])

text \<open>
  C3: On a server with strict reviews, an attached review is signed by its reviewer, who is registered and
  holds an assignment of this very content signed by the publisher the content key is derived from.
\<close>

theorem strict_reviews_are_assigned:
  assumes "server_run E srv0 srv" and "server_inv E srv0" and "strict_reviews srv"
    and "attachments srv = Some att" and "entry_at att ck reviewer = Some e"
  shows "good_review E ck reviewer e \<and>
    (\<exists>ib a. assignments srv = Some ib \<and> entry_at ib reviewer ck = Some a \<and> good_assignment E reviewer ck a) \<and>
    (\<forall>recs. reviewer_recs srv = Some recs \<longrightarrow> map_of recs reviewer \<noteq> None)"
proof -
  note inv = inv_run [OF assms(1,2)]
  have n: "entry_at att ck reviewer \<noteq> None" using assms(5) by simp
  obtain ib where ib: "assignments srv = Some ib" "entry_at ib reviewer ck \<noteq> None"
    using server_invD(6) [OF inv assms(3,4) n] by blast
  then obtain a where a: "entry_at ib reviewer ck = Some a" by blast
  show ?thesis
    using server_invD(4) [OF inv assms(4,5)] server_invD(3) [OF inv ib(1) a] ib(1) a
      server_invD(5) [OF inv assms(3) ib(1) _ ib(2)] by blast
qed

theorem strict_reviews_are_assigned_witness:
  "\<exists>ib a. assignments demo_strict = Some ib \<and> entry_at ib (JStr (public_key_to_b64 ''r'')) (JStr demo_ck) = Some a \<and>
     good_assignment demo_env (JStr (public_key_to_b64 ''r'')) (JStr demo_ck) a"
  using strict_reviews_are_assigned [OF silent_run demo_strict_inv, of _ "JStr demo_ck"
      "JStr (public_key_to_b64 ''r'')" "(JDict demo_review, demo_signature ''r'' demo_review)"]
  by (simp add: demo_strict_def empty_server_def entry_at_def slot_of_def)

text \<open>
  C4: A record built and signed by the program, whose timestamp is within the drift the server allows and
  whose request fits the server's limit, is accepted when the server holds nothing for the URI, or a
  record of the same key with an older timestamp, and its disk has room for the file: the record is
  then the store's entry for the URI and nothing else changed in the store, the file on the disk is
  the text of the new store, resolving the URI returns the record with its signature, and a server
  restarted on that file holds it (the latter for a store without floats).
\<close>

theorem registration_then_resolution:
  assumes "ed25519_ok E" and "uri_ok u" "utf8 author" "utf8 ref" and "\<bar>now' - now\<bar> \<le> 300"
    and "r = JDict (build_name_record now u author (public_key_to_b64 (pub_of E sk)) ref None)"
    and "sign_name_record E r sk = Inr sg" "sg \<noteq> []"
    and "jsize (JDict (signed_request ''register'' r (JStr sg))) \<le> 65536"
    and "server_inv E srv" and "can_save ''.tmp'' (names_path srv) (disk srv)"
    and "\<forall>old. map_of (name_recs srv) (JStr u) = Some old \<longrightarrow>
      field_of ''public_key'' old = JStr (public_key_to_b64 (pub_of E sk)) \<and> (\<exists>t. ts_of (fst old) = Inr t \<and> t < now)"
  shows "\<exists>srv'. client_register E (server_end E now') r (JStr sg) srv =
      (Inr (JDict [(''type'', JStr ''ok''), (''uri'', JStr u)]), srv') \<and>
    map_of (name_recs srv') = (map_of (name_recs srv))(JStr u \<mapsto> (sort_keys r, JStr sg)) \<and>
    at_path (disk srv') (names_path srv) = Some (File (dumps_indent_sorted E (entries_json E (name_recs srv')))) \<and>
    client_resolve E (server_end E now'') u srv' =
      (Inr (JDict [(''record'', sort_keys r), (''signature'', JStr sg), (''type'', JStr ''record'')]), srv') \<and>
    (saveable (name_recs srv) \<longrightarrow>
      map_of (name_recs (start_server E (names_path srv) rp ap tp (disk srv'))) (JStr u) = Some (sort_keys r, JStr sg))"
  using registration_kept [OF assms] .

theorem registration_then_resolution_witness:
  "\<exists>srv'. client_register demo_env (server_end demo_env 110) demo_name (JStr demo_sig) empty_server =
      (Inr (JDict [(''type'', JStr ''ok''), (''uri'', JStr ''site'')]), srv') \<and>
    at_path (disk srv') [''n''] = Some (File (dumps_indent_sorted demo_env (entries_json demo_env (name_recs srv')))) \<and>
    client_resolve demo_env (server_end demo_env 120) ''site'' srv' =
      (Inr (JDict [(''record'', sort_keys demo_name), (''signature'', JStr demo_sig), (''type'', JStr ''record'')]), srv') \<and>
    map_of (name_recs (start_server demo_env [''n''] [''r''] [''a''] [''t''] (disk srv'))) (JStr ''site'') = Some demo_entry"
proof -
  have u: "uri_ok ''site''" by (simp add: uri_ok_def uri_char_def is_alnum_def is_digit_def contains_sub_def)
  have n: "demo_name = JDict (build_name_record 100 ''site'' ''ann'' (public_key_to_b64 (pub_of demo_env ''k'')) ''ref'' None)"
    by (simp add: demo_name_def)
  have e: "names_path empty_server = [''n'']" "name_recs empty_server = []" "disk empty_server = empty_disk" "saveable []"
    by (simp_all add: empty_server_def saveable_def dict_ok_def)
  show ?thesis
    using registration_then_resolution [OF demo_env_ok u _ _ _ n demo_signed demo_request_small empty_server_inv,
        where now' = 110 and now'' = 120 and rp = "[''r'']" and ap = "[''a'']" and tp = "[''t'']"]
    by (auto simp: e demo_room utf8_ascii demo_entry_def)
qed

text \<open>
  C5: What listing the names of a server gives, for stored records without floats: when every page the
  client asks for (500 records each, a thousand pages at most) fits the server's message limit, the
  first 500000 records in the server's order, with a next offset of null even when there are more;
  when one of these pages does not fit, the server's internal error and no record.
\<close>

theorem listing_is_complete:
  assumes "items = map (fst \<circ> snd) (name_recs srv)" and "\<forall>r \<in> set items. jwf r \<and> no_float r"
  shows "\<exists>r. client_list E (server_end E now) srv = (Inr (JDict r), srv) \<and>
    (if \<forall>off \<in> page_starts items. frameable E max_msg_size (listing_page items off)
     then map_of r ''records'' = Some (JList (map sort_keys (take 500000 items))) \<and> map_of r ''next_offset'' = Some JNull
     else JDict r = sort_keys (err_resp ''internal error''))"
  using client_list_answer [OF assms] unfolding too_large_def .

theorem listing_is_complete_witness:
  "\<exists>r. client_list demo_env (server_end demo_env 120) demo_server = (Inr (JDict r), demo_server) \<and>
    map_of r ''records'' = Some (JList [sort_keys demo_name]) \<and> map_of r ''next_offset'' = Some JNull"
proof -
  have items: "[sort_keys demo_name] = map (fst \<circ> snd) (name_recs demo_server)"
    by (simp add: demo_server_facts demo_entry_def)
  have wf: "\<forall>r \<in> set [sort_keys demo_name]. jwf r \<and> no_float r"
    using sort_keys_wf(1) [OF demo_name_json(1)] sort_keys_no_float(1) [OF demo_name_json(2)] by simp
  have "jsize demo_name \<le> 2000" using demo_name_json(3) by simp
  then have "\<forall>off \<in> page_starts [sort_keys demo_name]. frameable demo_env max_msg_size (listing_page [sort_keys demo_name] off)"
    using small_page_fits [of "[sort_keys demo_name]"] wf by (simp add: jsize_sort_keys page_starts_def)
  then show ?thesis
    using listing_is_complete [OF items wf, of demo_env 120] by (simp add: sort_keys_idem)
qed

text \<open>
  C6: Whatever arrives on a stream, the server answers with a message that can be framed: an error with
  its text, or, to a request it could read, the answer of the kind that belongs to the request's type,
  a listing carrying a list of records and a resolution the record and its signature.
\<close>

theorem answers_are_typed:
  "case handle_stream E now chunks srv of (resp, srv') \<Rightarrow>
     (\<exists>ws. send_framed_json E resp max_msg_size = Inr ws) \<and>
     (is_error_answer resp \<or>
      (\<exists>cs msg kind. chunks = Some cs \<and> fst (recv_framed_json E cs max_request_size) = Inr (JDict msg) \<and>
         map_of msg ''type'' = Some (JStr kind) \<and> fits_request kind resp))"
  using handle_stream_typed [of E now chunks srv] by fastforce

section \<open>The peer\<close>

text \<open>
  C7: A fetch that succeeds has installed the author's site: the name record is signed and for this URI,
  the pin store allowed its key and timestamp, the manifest is the one the record commits to, signed
  by that key and not expired, and the files on the disk are exactly the ones that manifest lists,
  with their hashes.
\<close>

theorem fetch_is_genuine:
  assumes "fetch_site E C now order uri given ann p = (Inr True, p')" and "fs_wf (pdisk p)"
    and "apart (data_dir C @ [uri]) (pins_path C)"
    and "apart (data_dir C @ [uri]) (butlast (pins_path C) @ [last (pins_path C) @ ''.tmp-'' @ str_of_nat (process_id C)])"
  shows "genuine_fetch E C now uri p p'"
  using fetch_site_genuine [OF assms] .

theorem fetch_is_genuine_witness:
  "\<exists>p'. fetch_site demo_env fetch_conf 110 (\<lambda>as. as) ''site'' [''s''] False fetch_start = (Inr True, p') \<and>
    genuine_fetch demo_env fetch_conf 110 ''site'' fetch_start p'"
  using fetch_succeeds fetch_is_genuine [OF _ fetch_apart(3,1,2)] by blast

text \<open>
  C8: What a reader downloaded (a value without floats), checked and installed it can seed exactly when
  the answer fits the frame of 100 MiB: another reader that asks it for the site, under a name of at
  most a thousand bytes, then receives a bundle that passes the same checks, for the same key and
  manifest reference. An answer that does not fit, which an accepted bundle can lead to because the
  pages are escaped when they are sent, is replaced by an error and the other reader gets no bundle; a
  bundle whose size, counted at six bytes a character, is at most 100000000 always fits.
\<close>

theorem readers_become_seeders:
  assumes "check_downloaded_bundle E now data uri key ref out = Inr None"
    and "jwf data" "no_float data"
    and "dict_to_bundle E pid data out fs = (Inr p, fs')" "out \<noteq> []" "fs_wf fs"
    and "map_of ss uri = Some out" "utf8 uri" "length uri \<le> 1000"
  shows "\<exists>answer. bundle_to_dict E out fs' = (Inr answer, fs') \<and>
    (jsize data \<le> 100000000 \<longrightarrow> frameable E max_bundle_msg_size (JDict (AList.update ''type'' (JStr ''bundle'') answer))) \<and>
    (if frameable E max_bundle_msg_size (JDict (AList.update ''type'' (JStr ''bundle'') answer))
     then \<exists>data'. download_one E (\<lambda>addr. seeder_end E ss fs') uri addr = Inr (Some data') \<and>
       check_downloaded_bundle E now data' uri key ref out' = Inr None
     else download_one E (\<lambda>addr. seeder_end E ss fs') uri addr = Inr None)"
  using reader_becomes_seeder [OF assms] .

theorem readers_become_seeders_witness:
  "\<exists>fs' data'. dict_to_bundle demo_env 0 fetch_bundle [''d'', ''site''] empty_disk = (Inr [''d'', ''site''], fs') \<and>
    download_one demo_env (\<lambda>addr. seeder_end demo_env [(''site'', [''d'', ''site''])] fs') ''site'' ''a'' = Inr (Some data')"
proof -
  obtain fs' where d: "dict_to_bundle demo_env 0 fetch_bundle [''d'', ''site''] empty_disk = (Inr [''d'', ''site''], fs')"
    using fetch_written by blast
  have "jsize fetch_bundle \<le> 100000000" using fetch_bundle_json(4) by simp
  then show ?thesis
    using readers_become_seeders [OF fetch_checked fetch_bundle_json(1,2) d, where ss = "[(''site'', [''d'', ''site''])]" and addr = "''a''" and out' = "[]"] d
    by (auto simp: utf8_ascii)
qed

text \<open>
  C9: The race between seeders never has more than four downloads going, has no infinite run, and from any
  state can be brought to its end; then it has a winner exactly when some seeder offered an acceptable
  bundle, and the winner is a bundle a seeder sent and the check accepted.
\<close>

theorem downloads_end:
  assumes "race_run validate outcome (race_start addrs) s"
  shows "wfp (\<lambda>b a. race_step validate outcome a b) \<and> length (running s) \<le> 4 \<and>
    (\<exists>s'. race_run validate outcome s s' \<and> race_over s') \<and>
    (race_over s \<longrightarrow> (winner s \<noteq> None \<longleftrightarrow> (\<exists>a \<in> set addrs. try_one validate (outcome a) None \<noteq> None))) \<and>
    (\<forall>r. winner s = Some r \<longrightarrow> (\<exists>a \<in> set addrs. outcome a = Ended (Inr (Some r)) \<and>
       (\<forall>check. validate = Some check \<longrightarrow> check r = Inr None)))"
proof (intro conjI impI allI)
  show "length (running s) \<le> 4" using race_run_inv [OF assms] by (simp add: max_parallel_seeders_def)
  assume "race_over s"
  from race_over_winner [OF assms this]
  show "winner s \<noteq> None \<longleftrightarrow> (\<exists>a \<in> set addrs. try_one validate (outcome a) None \<noteq> None)"
    by (simp del: not_None_eq)
qed (use race_step_wfp race_ends race_winner_sound [OF assms] in blast)+

theorem downloads_end_witness:
  "\<exists>s. race_run None (\<lambda>a. if a = ''x'' then TimedOut else Ended (Inr (Some JNull))) (race_start [''x'', ''y'']) s \<and> winner s = Some JNull"
proof -
  let ?o = "\<lambda>a. if a = ''x'' then TimedOut else Ended (Inr (Some JNull))"
  have "race_run None ?o (race_start [''x'', ''y'']) (race_start [''x'', ''y''])" by (rule race_run.here)
  from downloads_end [OF this] obtain s where s: "race_run None ?o (race_start [''x'', ''y'']) s" "race_over s" by blast
  from downloads_end [OF s(1)] s(2) have "winner s \<noteq> None" by (auto simp: try_one_def)
  with downloads_end [OF s(1)] s(1) show ?thesis by (auto split: if_split_asm)
qed

text \<open>
  C10: Every signal that enters the score of a content stands for a review of this very content, in the
  form a review record must have, that the signal's source has signed.
\<close>

theorem signals_are_signed_reviews:
  assumes "attachments_to_signals E entries ck = Inr ss" and "s \<in> set ss"
  shows "\<exists>d r. JDict d \<in> set entries \<and> map_of d ''record'' = Some (JDict r) \<and> review_wf r \<and>
    sig_valid E ''reviewer_public_key'' (JDict r) (get_or d ''signature'' (JStr [])) \<and>
    map_of r ''content_key'' = Some (JStr ck) \<and> map_of r ''reviewer_public_key'' = Some (JStr (source_pubkey s)) \<and>
    map_of r ''verdict'' = Some (JStr (sig_verdict s))"
proof -
  obtain d r where d: "JDict d \<in> set entries" "get_or d ''record'' JNull = JDict r" "review_wf r"
      "sig_valid E ''reviewer_public_key'' (JDict r) (get_or d ''signature'' (JStr []))"
      "map_of r ''content_key'' = Some (JStr ck)" "map_of r ''reviewer_public_key'' = Some (JStr (source_pubkey s))"
      "map_of r ''verdict'' = Some (JStr (sig_verdict s))"
    using attachments_to_signals_backed [OF assms] unfolding backed_def by blast
  have "map_of d ''record'' = Some (JDict r)" using d(2) by (auto simp: get_or_def split: option.split_asm)
  with d show ?thesis by blast
qed

theorem signals_are_signed_reviews_witness:
  "\<exists>s. attachments_to_signals demo_env [review_entry] demo_ck = Inr [s] \<and> source_pubkey s = public_key_to_b64 ''r''"
proof -
  obtain s where s: "attachments_to_signals demo_env [review_entry] demo_ck = Inr [s]" using one_signal by blast
  from signals_are_signed_reviews [OF this, of s] s show ?thesis
    by (auto simp: review_entry_def demo_review_def)
qed

text \<open>
  C11: Every key in the pool that reviewers are drawn from belongs to an opt-in of the listing that its
  owner signed, that is fresh enough when freshness is asked for, and that declares no category or one
  of the content's.
\<close>

theorem reviewer_pool_is_genuine:
  assumes "extract_fresh_reviewer_pool E now entries freshness cats = Inr pool" and "pk \<in> set pool"
  shows "\<exists>d r. JDict d \<in> set entries \<and> get_or d ''record'' JNull = JDict r \<and> opt_in_wf r \<and>
    sig_valid E ''public_key'' (JDict r) (get_or d ''signature'' (JStr [])) \<and> map_of r ''public_key'' = Some pk \<and>
    (\<forall>f. freshness = Some f \<longrightarrow> (\<exists>t. ts_of (JDict r) = Inr t \<and> now - t \<le> f)) \<and>
    (\<forall>cs. cats = Some cs \<longrightarrow> (\<exists>mine. map_of r ''categories'' = Some (JList mine) \<and> (mine = [] \<or> set mine \<inter> set cs \<noteq> {})))"
proof -
  obtain e pks where e: "e \<in> set entries" "reviewer_of_entry E now freshness cats e = Inr pks" "pk \<in> set pks"
    using extract_fresh_reviewer_pool_sound [OF assms] by blast
  then show ?thesis using reviewer_of_entry_sound [OF e(2,3)] by blast
qed

theorem reviewer_pool_is_genuine_witness:
  "extract_fresh_reviewer_pool demo_env 100 [opt_in_entry] (Some 50) (Some [JStr ''other'']) = Inr [JStr (public_key_to_b64 ''r'')] \<and>
   (\<exists>r. opt_in_wf r \<and> map_of r ''public_key'' = Some (JStr (public_key_to_b64 ''r'')))"
  using one_reviewer reviewer_pool_is_genuine [OF one_reviewer, of "JStr (public_key_to_b64 ''r'')"] by auto

text \<open>
  C12: As long as no pass over the inbox is cut short by an exception, a reviewer's daemon answers for no
  content twice, whatever the server lists and whatever else the peer does, and its cache file
  remembers all it answered for; a pass that raises leaves the cache file as it was.
\<close>

theorem decided_at_most_once:
  assumes "observes trail D" and "cache_path D \<noteq> []" and "cache_holds E (cache_path D) [] (pdisk p0)" and "trail p0 = []"
  shows "(steady_run E D trail p0 p \<longrightarrow>
      (\<exists>ks. cache_holds E (cache_path D) ks (pdisk p) \<and> distinct (trail p) \<and> set (trail p) \<subseteq> set ks)) \<and>
    (steady_run E D trail p0 p \<longrightarrow> poll_once E D now p = (Inl e, p') \<longrightarrow>
      at_path (pdisk p') (cache_path D) = at_path (pdisk p) (cache_path D))"
  using steady_run_once [OF _ assms] poll_once_result [OF assms(1,2)] by blast

theorem decided_at_most_once_witness:
  "\<exists>p'. poll_once demo_env (demo_daemon [inbox_entry]) 110 daemon_start = (Inr (), p') \<and> far_state p' = [demo_ck] \<and>
    (\<exists>ks. cache_holds demo_env [''n''] ks (pdisk p') \<and> demo_ck \<in> set ks)"
proof -
  obtain p' where p': "poll_once demo_env (demo_daemon [inbox_entry]) 110 daemon_start = (Inr (), p')" "far_state p' = [demo_ck]"
    using demo_pass by blast
  have run: "steady_run demo_env (demo_daemon [inbox_entry]) far_state daemon_start p'"
    by (rule steady_run.pass [OF steady_run.start p'(1)])
  have "cache_holds demo_env (cache_path (demo_daemon [inbox_entry])) [] (pdisk daemon_start)"
    by (simp add: cache_holds_def daemon_start_def)
  from decided_at_most_once [OF demo_daemon_observed _ this, of p'] run p' show ?thesis
    by (auto simp: daemon_start_def)
qed

section \<open>The client\<close>

text \<open>
  C13: When the pages of a source directory have been copied into the published directory, every page of
  the source is there with its content at the same relative path; a page of the published directory
  that the source no longer has is still there.
\<close>

theorem published_copy_is_complete:
  assumes "copy_pages source target fs = (Inr u, fs')" and "apart source target"
    and "\<forall>md \<in> set (md_under fs source). \<not> is_directory fs' (page_target source target md)"
  shows "(r \<noteq> [] \<and> at_path fs (source @ r) = Some (File c) \<and> is_md (last r) \<longrightarrow> at_path fs' (target @ r) = Some (File c)) \<and>
    (at_path fs (source @ r) = None \<and> at_path fs (target @ r) = Some (File c) \<longrightarrow> at_path fs' (target @ r) = Some (File c))"
  using copied_pages [OF assms] stale_pages [OF assms] by blast

theorem published_copy_is_complete_witness:
  "\<exists>fs'. copy_pages [''site''] [''out''] demo_disk = (Inr (), fs') \<and> at_path fs' [''out'', ''a.md''] = Some (File ''# a'')"
proof -
  obtain fs' where c: "copy_pages [''site''] [''out''] demo_disk = (Inr (), fs')" and nd: "at_path fs' [''out'', ''a.md''] \<noteq> Some Dir"
    using demo_copied by blast
  have "apart [''site''] [''out'']" by (simp add: apart_def)
  from published_copy_is_complete [OF c this, of "[''a.md'']" "''# a''"] nd c show ?thesis
    by (auto simp: demo_md page_target_def is_directory_def demo_disk_at demo_paths)
qed

text \<open>
  C14: A configuration that was saved is the one the client starts with next time, whatever its settings
  are; only a missing naming address is replaced by the default one.
\<close>

theorem configuration_survives_a_restart:
  assumes "config_wf c" and "config_save E c p fs = (Inr u, fs')"
  shows "config_load E home p fs' = (Inr (Some c), fs') \<and>
    (\<exists>fs''. load_or_create_config E home cwd user p fs' =
       (Inr (if truthy (cfg_naming c) then c else c\<lparr>cfg_naming := JStr default_naming_multiaddr\<rparr>), fs'') \<and>
       (truthy (cfg_naming c) \<longrightarrow> fs'' = fs'))"
  using saved_config_loads [OF assms] restarted_config [OF assms] by blast

theorem configuration_survives_a_restart_witness:
  "\<exists>fs'. config_save demo_env (new_config [''h''] (JStr ''ann'')) [''n''] empty_disk = (Inr (), fs') \<and>
    config_load demo_env [''h''] [''n''] fs' = (Inr (Some (new_config [''h''] (JStr ''ann''))), fs')"
proof -
  obtain fs' where s: "config_save demo_env (new_config [''h''] (JStr ''ann'')) [''n''] empty_disk = (Inr (), fs')"
    using demo_config_saved by blast
  from configuration_survives_a_restart [OF demo_config_wf s] s show ?thesis by blast
qed

section \<open>The client\<close>

text \<open>
  C15: When the removal dialogue of the menu has changed anything on the disk, one of the user's lines was
  the word that confirms in the language in use, and what changed lies in the directory of one of the
  sites that were listed.
\<close>

theorem removals_are_confirmed:
  assumes "action_remove E V cwd lang c w = (r, w')" and "at_path (pdisk (session w')) x \<noteq> at_path (pdisk (session w)) x"
  shows "(\<exists>s. Some s \<in> set (entered w) \<and> lower (strip s) = confirm_yes lang) \<and>
    (\<exists>data_path sites site. dir_of cwd (cfg_data_dir c) = Inr data_path \<and>
      get_seeded_sites E data_path (pdisk (session w)) = (Inr (Some sites), pdisk (session w)) \<and>
      site \<in> set sites \<and> prefix (seed_dir site) x)"
proof (intro conjI removed_inside [OF assms])
  show "\<exists>s. Some s \<in> set (entered w) \<and> lower (strip s) = confirm_yes lang"
  proof (rule ccontr)
    assume "\<not> ?thesis"
    then have "unconfirmed (pdisk (session w)) lang w" by (auto simp: unconfirmed_def)
    then have "unconfirmed (pdisk (session w)) lang w'" using keepsD [OF unconfirmed_actions(1) assms(1)] by blast
    then show False using assms(2) by (simp add: unconfirmed_def)
  qed
qed

theorem removals_are_confirmed_witness:
  "(\<exists>s. Some s \<in> set (entered (demo_console [''1'', ''oui''])) \<and> lower (strip s) = confirm_yes ''fr'') \<and>
    (\<exists>sites site. get_seeded_sites demo_env [''d''] seeds_disk = (Inr (Some sites), seeds_disk) \<and>
      site \<in> set sites \<and> prefix (seed_dir site) [''d'', ''s''])"
proof -
  obtain r w' where run: "action_remove demo_env demo_screen [] ''fr'' seeds_config (demo_console [''1'', ''oui'']) = (r, w')"
      and gone: "at_path (pdisk (session w')) [''d'', ''s''] = None"
    using seed_removed by blast
  have there: "pdisk (session (demo_console [''1'', ''oui''])) = seeds_disk" by (simp add: demo_console_def)
  have "at_path (pdisk (session w')) [''d'', ''s''] \<noteq> at_path (pdisk (session (demo_console [''1'', ''oui'']))) [''d'', ''s'']"
    using gone by (simp add: there seeds_disk_at)
  from removals_are_confirmed [OF run this] show ?thesis by (simp only: there seeds_dir sum.inject) blast
qed

text \<open>
  C16: The commands that show something (list, status, browse, pins and the reviewer's status) leave every
  file on the disk as it is, whatever the configuration, the naming server's answers and the files
  hold, and also when they fail.
\<close>

theorem listing_commands_write_no_file:
  assumes "listing cmd" and "main E T n cmd w = (r, w')"
  shows "file_at (pdisk (session w')) = file_at (pdisk (session w))"
  using keepsD [OF same_main [OF assms(1)] assms(2), of "pdisk (session w)"] by (simp add: same_disk_def same_files_def)

theorem listing_commands_write_no_file_witness:
  "fst (main demo_env demo_desk 1 CmdPins (demo_console [])) = Inr (Some 0) \<and>
   file_at (pdisk (session (snd (main demo_env demo_desk 1 CmdPins (demo_console []))))) = file_at seeds_disk"
  using listing_commands_write_no_file [of CmdPins demo_env demo_desk 1 "demo_console []"] pins_listed
  by (simp add: listing_def demo_console_def)

text \<open>
  C17: The menu ends for every input: each turn takes a line and no action gives one back, so within one
  turn more than there are lines the loop has left by itself; whatever stands for going on after the
  allowed turns is never reached.
\<close>

theorem menu_always_ends:
  assumes "length (entered w) < n"
  shows "menu_rounds E T out n c lang w = menu_loop E T (Suc (length (entered w))) c lang w"
  unfolding menu_loop_def by (rule menu_rounds_agree) (use assms in simp_all)

theorem menu_always_ends_witness:
  "fst (menu_rounds demo_env demo_desk (\<lambda>c lang. io_raise (ValueError ''out of turns'')) 100 seeds_config ''fr'' (demo_console [''r'', ''q''])) = Inr (Some ())"
  using menu_always_ends [of "demo_console [''r'', ''q'']" 100 demo_env demo_desk "\<lambda>c lang. io_raise (ValueError ''out of turns'')" seeds_config "''fr''"] menu_left
  by (simp add: demo_console_def numeral_3_eq_3)

text \<open>
  C18: What a user enters in the reader's publishing dialogue becomes the arguments of the publishing
  command: the stripped URI and folder, and a list of categories that the command splits into exactly
  those picked, all of which it accepts.
\<close>

theorem picked_categories_are_published:
  assumes "top_screen r = Some PublishModal" and "strip uri \<noteq> []" "strip site \<noteq> []"
    and "cats \<noteq> []" "set cats \<subseteq> set category_slugs"
  shows "\<exists>r' j picked. handle E T (SubmitPublish uri site cats) r = (Inr (Some ()), r') \<and> r_jobs r' = r_jobs r @ [j] \<and>
    fst (job_command T j) = [''publish'', ''--uri'', strip uri, ''--site'', expanded T (strip site), ''--categories'', picked] \<and>
    given_categories (Some picked) = Some cats \<and> \<not> bad_cats (Some cats)"
proof -
  have "\<not> bad_cats (Some cats)"
    using assms(5) by (auto simp: bad_cats_def split: sum.split dest: validate_categories_iff [THEN iffD2])
  then show ?thesis
    using slugs_arrive [OF assms(4,5)] assms(1-4)
    by (intro exI [of _ "snd (handle E T (SubmitPublish uri site cats) r)"] exI [of _ "JobPublish (strip uri) (strip site) cats"]
        exI [of _ "join '','' cats"])
      (simp add: submit_publish_def ask_def settled_def pop_screen_def notify_def start_job_def change_def io_bind_def io_ret_def)
qed

theorem picked_categories_are_published_witness:
  "\<exists>r' j picked. handle demo_env demo_viewer (SubmitPublish ''site'' '' notes '' [''math'', ''law'']) demo_reader = (Inr (Some ()), r') \<and>
    r_jobs r' = [j] \<and> fst (job_command demo_viewer j) = [''publish'', ''--uri'', ''site'', ''--site'', ''notes'', ''--categories'', picked] \<and>
    given_categories (Some picked) = Some [''math'', ''law'']"
proof -
  have s: "strip ''site'' = ''site''" by (rule strip_id) (simp add: is_space_def)
  have n: "strip '' notes '' = ''notes''" by (simp add: strip_ascii is_space_def)
  have top: "top_screen demo_reader = Some PublishModal" by (simp add: top_screen_def demo_reader_def)
  have idle: "r_jobs demo_reader = []" by (simp add: demo_reader_def)
  have e: "expanded demo_viewer x = x" for x by (simp add: demo_viewer_def)
  have "set [''math'', ''law''] \<subseteq> set category_slugs" by (simp add: category_slugs_def)
  from picked_categories_are_published [where uri = "''site''" and site = "'' notes ''", OF top _ _ _ this, of demo_env demo_viewer]
  show ?thesis unfolding s n idle e by fastforce
qed

section \<open>Bundles on disk\<close>

text \<open>
  C19: Whatever disk operations fail and wherever, installing a downloaded bundle either succeeds, and the
  directory then holds exactly the validated files with the manifest and its signature, or raises and
  leaves the previous directory as it was (after two failures it may be left, intact, under its backup
  name).
\<close>

theorem bundle_install_is_atomic:
  assumes "out \<noteq> []" and "fs_wf fs" and "dict_to_bundle E pid data out fs = (res, fs')"
  shows "(\<forall>p. res = Inr p \<longrightarrow> p = out \<and>
      (\<exists>vs. validate_bundle_payload E data out = Inr vs \<and> installed E data vs fs' out)) \<and>
    (\<forall>e. res = Inl e \<longrightarrow> kept out (backup_of pid out) fs fs')"
  using dict_to_bundle_result [OF assms] .

theorem bundle_install_is_atomic_witness:
  "\<exists>res fs'. dict_to_bundle demo_env 7 demo_payload [''site''] demo_disk = (res, fs') \<and>
    (\<forall>p. res = Inr p \<longrightarrow> p = [''site''] \<and> (\<exists>vs. installed demo_env demo_payload vs fs' [''site''])) \<and>
    (\<forall>e. res = Inl e \<longrightarrow> kept [''site''] (backup_of 7 [''site'']) demo_disk fs')"
proof -
  obtain res fs' where d: "dict_to_bundle demo_env 7 demo_payload [''site''] demo_disk = (res, fs')" by fastforce
  show ?thesis using bundle_install_is_atomic [OF _ demo_disk_wf d] d by blast
qed

text \<open>
  C20: A bundle payload that validation accepts has within the limits at most 1000 Markdown files of at
  most 50 MB together, each at a relative path that stays inside the target, exactly the files its
  manifest lists, each with the hash the manifest gives.
\<close>

theorem accepted_payload_is_sound:
  assumes "validate_bundle_payload E data out = Inr vs"
  shows "\<exists>md phs. accepted E data vs md phs"
  using validate_bundle_payload_accepted [OF assms] .

theorem accepted_payload_is_sound_witness: "\<exists>md phs. accepted demo_env demo_payload [(''a.md'', ''# a'')] md phs"
  by (rule accepted_payload_is_sound [OF demo_payload_accepted [of "[''out'']"]])

text \<open>
  C21: The check of a downloaded bundle gives each of the eleven conformance cases the verdict the case is
  named for, wherever the site would be installed, and never raises: the signed bundle is accepted;
  one for another URI, with another reference, with a flipped signature bit, a changed, an extra or a
  missing page, no file table, an expired manifest, a path that leaves the site or a file that is not
  Markdown is refused.
\<close>

theorem bundle_verdicts_are_the_named_ones:
  assumes "tells_apart E"
  shows "\<exists>cases. bundle_cases E = Inr cases \<and> map (\<lambda>(name, b, uri, ref, reason). reason = []) cases = True # replicate 10 False \<and>
    (\<forall>(name, b, uri, ref, reason) \<in> set cases. \<forall>site. \<exists>v.
      check_downloaded_bundle E vectors_now b uri (pub_of E (seed_key alice_seed)) (JStr ref) site = Inr v \<and> (v = None \<longleftrightarrow> reason = []))"
  by (rule bundle_verdicts(1) [OF assms])

theorem bundle_verdicts_are_the_named_ones_witness:
  "\<exists>cases. bundle_cases demo_env = Inr cases \<and> map (\<lambda>(name, b, uri, ref, reason). reason = []) cases = True # replicate 10 False"
  using bundle_verdicts_are_the_named_ones [OF demo_tells_apart] by (elim exE conjE) (intro exI conjI)

text \<open>
  C22: Verifying a site against its manifest reports no error exactly when every listed file is inside the
  site and has the listed hash, and every Markdown file of the site is listed.
\<close>

theorem site_verification_is_exact:
  "verify_files E m site fs = (Inr [], fs') \<longleftrightarrow>
     fs' = fs \<and> (\<exists>entries paths. bindE (py_item m ''files'') py_iter = Inr entries \<and>
       list_all2 (listed E site fs) entries paths \<and>
       (\<forall>p \<in> set (md_under fs site). JStr (rel_posix site p) \<in> set paths))"
  by (rule verify_files_ok)

theorem site_verification_is_exact_witness:
  "verify_files demo_env (JDict [(''files'', JList [])]) [''site''] demo_disk \<noteq> (Inr [], demo_disk)"
  by (simp add: site_verification_is_exact demo_md)

text \<open>
  C23: The manifest created from a site within the limits verifies against that site as long as the files
  stay as they are.
\<close>

theorem created_manifest_describes_the_site:
  assumes "create_manifest E now site uri author version ttl cats fs = (Inr m, fs')"
    and "\<forall>p \<in> set (md_under fs site). rel_ok (rel_posix site p) \<and> site @ split_on (CHR ''/'') (rel_posix site p) = p"
  shows "verify_files E m site fs = (Inr [], fs)"
  using created_manifest_verifies [OF assms] .

theorem created_manifest_describes_the_site_witness:
  "verify_files demo_env demo_manifest [''site''] demo_disk = (Inr [], demo_disk)"
  by (rule created_manifest_describes_the_site [OF demo_manifest_created]) (simp add: demo_md demo_paths)

section \<open>Messages and text\<close>

text \<open>
  C24: A framed message is received as it was sent (its keys sorted), with what follows it left on the
  stream, however the transport cuts the bytes into chunks.
\<close>

theorem frames_round_trip:
  assumes "jwf obj" "no_float obj"
    and "send_framed_json E obj m = Inr ws" and "m \<le> m'"
    and "concat cs = concat ws @ rest" and "[] \<notin> set cs"
  shows "\<exists>cs'. recv_framed_json E cs m' = (Inr (sort_keys obj), cs') \<and> concat cs' = rest"
  using frame_roundtrip [OF assms] .

theorem frames_round_trip_witness:
  "\<exists>ws cs'. send_framed_json demo_env demo_name 65536 = Inr ws \<and>
    recv_framed_json demo_env (map (\<lambda>c. [c]) (concat ws @ ''xy'')) 65536 = (Inr (sort_keys demo_name), cs') \<and> concat cs' = ''xy''"
proof -
  obtain ws where ws: "send_framed_json demo_env demo_name 65536 = Inr ws"
    using send_small [OF demo_name_json(1,2), of 65536 demo_env] demo_name_json(3) by auto
  have "concat (map (\<lambda>c. [c]) xs) = xs" for xs :: string by (induction xs) auto
  then show ?thesis
    using frames_round_trip [OF demo_name_json(1,2) ws, of 65536 "map (\<lambda>c. [c]) (concat ws @ ''xy'')" "''xy''"] ws by auto
qed

text \<open>
  C25: A frame that announces more than the reader allows, or whose stream ends before the announced
  length, yields no message.
\<close>

theorem bad_frames_are_refused:
  assumes "concat cs = be32 n @ rest" and "n < 2 ^ 32" and "m < n \<or> length rest < n" and "[] \<notin> set cs"
  shows "fst (recv_framed_json E cs m) = Inr JNull"
  using frame_too_large [OF assms(1,2) _ assms(4)] frame_truncated [OF assms(1,2) _ assms(4)] assms(3) by blast

theorem bad_frames_are_refused_witness: "fst (recv_framed_json demo_env [be32 70000, ''{}''] 65536) = Inr JNull"
  by (rule bad_frames_are_refused [of _ 70000 "''{}''"]) (simp_all add: be32_def)

text \<open>
  C26: Two JSON values without floats have the same canonical encoding exactly when they are equal up to
  the order of keys: a signature over the encoding commits to the value.
\<close>

theorem canonical_json_is_injective:
  assumes "jwf a" "no_float a" "jwf b" "no_float b"
  shows "canonical_json E a = canonical_json E b \<longleftrightarrow> sort_keys a = sort_keys b"
  using canonical_json_eq [OF assms] .

theorem canonical_json_is_injective_witness:
  "canonical_json demo_env (JDict [(''b'', JInt 1), (''a'', JInt 2)]) = canonical_json demo_env (JDict [(''a'', JInt 2), (''b'', JInt 1)])"
  by (subst canonical_json_is_injective) (simp_all add: utf8_ascii)

section \<open>What is read back\<close>

text \<open>
  C27: A naming server started on the files an earlier one saved holds, for every reviewer and content, the
  same assignment, and for every content and reviewer the same review, up to the order of their
  fields, or none where there was none; and what verified still verifies. (For stores keyed by strings
  whose records carry no floats.)
\<close>

theorem restart_keeps_inboxes:
  assumes "p \<noteq> []" and "saveable_inbox ib" and "save_inbox E p ib fs = (Inr u, fs')"
  shows "(\<exists>ib'. assignments (start_server E np rp p tp fs') = Some ib' \<and>
      (\<forall>r ck. entry_at ib' r ck = map_option sorted_entry (entry_at ib r ck))) \<and>
    (\<exists>att'. attachments (start_server E np rp ap p fs') = Some att' \<and>
      (\<forall>ck r. entry_at att' ck r = map_option sorted_entry (entry_at ib ck r))) \<and>
    (\<forall>x y e. entry_at ib x y = Some e \<longrightarrow> sig_valid E kf (fst e) (snd e) \<longrightarrow> sig_valid E kf (fst (sorted_entry e)) (snd (sorted_entry e)))"
  using load_saved_inbox [OF assms] sig_valid_sorted [OF saveable_inbox_record [OF assms(2)]]
  by (simp add: start_server_def attachment_store_load_def sorted_entry_def)

theorem restart_keeps_inboxes_witness:
  "\<exists>fs' ib'. save_inbox demo_env [''a''] [(JStr ''r'', [(JStr ''c'', demo_entry)])] empty_disk = (Inr (), fs') \<and>
    assignments (start_server demo_env [''n''] [''r''] [''a''] [''t''] fs') = Some ib' \<and>
    entry_at ib' (JStr ''r'') (JStr ''c'') = Some (sorted_entry demo_entry)"
proof -
  let ?ib = "[(JStr ''r'', [(JStr ''c'', demo_entry)])]"
  obtain fs' where s: "save_inbox demo_env [''a''] ?ib empty_disk = (Inr (), fs')"
    using save_inbox_ok [OF demo_room, of ?ib] by (auto simp: keys_sortable_def)
  have "saveable_inbox ?ib"
    using sort_keys_wf(1) [OF demo_name_json(1)] sort_keys_no_float(1) [OF demo_name_json(2)]
    by (simp add: saveable_inbox_def saveable_def dict_ok_def demo_entry_def demo_sig_def utf8_ascii)
  from restart_keeps_inboxes [OF _ this s, where np = "[''n'']" and rp = "[''r'']" and tp = "[''t'']" and ap = "[''a'']" and kf = "[]"] s
  show ?thesis by (auto simp: entry_at_def slot_of_def)
qed

text \<open>
  C28: Parsing the canonical encoding of a value without floats gives the value back with its keys sorted,
  and the parser needs no more fuel than the text's length gives.
\<close>

theorem written_json_is_read_back:
  assumes "jwf j" "no_float j"
  shows "loads E (canonical_json E j) = Inr (sort_keys j) \<and>
    (\<forall>n \<ge> 2 * length (canonical_json E j) + 2. loads E (canonical_json E j) =
      (case parse_val E n (skip (canonical_json E j)) of
         Some (v, r) \<Rightarrow> if skip r = [] then Inr v else Inl JSONDecodeError | None \<Rightarrow> Inl JSONDecodeError))"
  using loads_canonical [OF assms] loads_fuel by blast

theorem written_json_is_read_back_witness: "loads demo_env (canonical_json demo_env demo_name) = Inr (sort_keys demo_name)"
  using written_json_is_read_back [OF demo_name_json(1,2)] by blast

section \<open>Paths\<close>

text \<open>
  C29: Path validation accepts exactly the relative paths without empty, dot or dot-dot segments, backslash
  or NUL, at most ten deep; what it returns is the base followed by the segments of the path, so a
  path can neither leave the base nor name another path's file.
\<close>

theorem paths_stay_inside:
  "(validate_path base v = Inr p \<longleftrightarrow>
      (\<exists>rel. v = JStr rel \<and> rel_ok rel \<and> p = base @ split_on (CHR ''/'') rel)) \<and>
   (split_on (CHR ''/'') a = split_on (CHR ''/'') b \<longleftrightarrow> a = b)"
  using validate_path_iff rel_path_inj by auto

section \<open>Signed records\<close>

text \<open>
  C30: A naming record, opt-in, assignment or review that the program builds and signs is accepted by its
  verifier while it is fresh.
\<close>

theorem signed_records_verify:
  assumes "ed25519_ok E" and "\<bar>now' - t\<bar> \<le> md"
  shows "(sign_name_record E (JDict (build_name_record now u author pk ref (Some t))) sk = Inr s \<longrightarrow>
      verify_name_record E now' (Some md) (JDict (build_name_record now u author pk ref (Some t))) (JStr s) = Inr (True, [])) \<and>
    (build_reviewer_opt_in now pk pid addrs cats (Some t) = Inr d1 \<longrightarrow> pid \<noteq> [] \<longrightarrow>
      sign_reviewer_opt_in E (JDict d1) sk = Inr s \<longrightarrow>
      verify_reviewer_opt_in E now' (Some md) (JDict d1) (JStr s) = Inr (True, [])) \<and>
    (build_review_assignment E now u pk revs dl (Some t) = Inr d2 \<longrightarrow> sign_review_assignment E (JDict d2) sk = Inr s \<longrightarrow>
      verify_review_assignment E now' (Some md) (JDict d2) (JStr s) = Inr (True, [])) \<and>
    (build_review_record now ck pk verdict comment (Some t) = Inr d3 \<longrightarrow> sign_review_record E (JDict d3) sk = Inr s \<longrightarrow>
      verify_review_record E now' (Some md) (JDict d3) (JStr s) = Inr (True, []))"
proof (intro conjI impI)
  have stamped: "fresh now' (Some md) (JDict d)" if "map_of d ''timestamp'' = Some (JInt t)" for d
    using that assms(2) by (simp add: fresh_Some)
  show "verify_name_record E now' (Some md) (JDict (build_name_record now u author pk ref (Some t))) (JStr s) = Inr (True, [])"
    if "sign_name_record E (JDict (build_name_record now u author pk ref (Some t))) sk = Inr s"
    using name_rec.sign_then_verify [OF assms(1) that] stamped by (simp add: build_name_record_def name_record_wf_def name_record_fields_def)
  show "verify_reviewer_opt_in E now' (Some md) (JDict d1) (JStr s) = Inr (True, [])"
    if b: "build_reviewer_opt_in now pk pid addrs cats (Some t) = Inr d1" "pid \<noteq> []" and sg: "sign_reviewer_opt_in E (JDict d1) sk = Inr s"
    by (rule opt_in.sign_then_verify [OF assms(1) sg build_reviewer_opt_in_wf [OF b] stamped])
      (use b(1) in \<open>auto simp: build_reviewer_opt_in_def bindE_Inr_iff or_now_def\<close>)
  show "verify_review_assignment E now' (Some md) (JDict d2) (JStr s) = Inr (True, [])"
    if b: "build_review_assignment E now u pk revs dl (Some t) = Inr d2" and sg: "sign_review_assignment E (JDict d2) sk = Inr s"
    by (rule assignment.sign_then_verify [OF assms(1) sg build_review_assignment_wf [OF b] stamped])
      (use b in \<open>auto simp: build_review_assignment_def or_now_def split: if_split_asm\<close>)
  show "verify_review_record E now' (Some md) (JDict d3) (JStr s) = Inr (True, [])"
    if b: "build_review_record now ck pk verdict comment (Some t) = Inr d3" and sg: "sign_review_record E (JDict d3) sk = Inr s"
    by (rule review.sign_then_verify [OF assms(1) sg build_review_record_wf [OF b] stamped])
      (use b in \<open>auto simp: build_review_record_def or_now_def split: if_split_asm\<close>)
qed

theorem signed_records_verify_witness:
  "\<exists>s. verify_name_record demo_env 110 (Some 300) (JDict (build_name_record 7 ''site'' ''ann'' (public_key_to_b64 ''k'') ''ref'' (Some 100))) (JStr s)
    = Inr (True, [])"
proof -
  have "sign_name_record demo_env (JDict (build_name_record 7 ''site'' ''ann'' (public_key_to_b64 ''k'') ''ref'' (Some 100))) ''k'' = Inr demo_sig"
    using demo_signed(1) by (simp add: demo_name_def build_name_record_def)
  then show ?thesis
    using signed_records_verify [OF demo_env_ok, of 110 100 300] by simp blast
qed

text \<open>
  C31: A record any of the four verifiers accepts is complete and carries a valid signature of the very key
  it names, and it is accepted again later when the drift check is skipped.
\<close>

theorem verification_is_sound:
  "(verify_name_record E now md r s = Inr (True, m) \<longrightarrow>
      sig_valid E ''public_key'' r s \<and> (\<exists>d. r = JDict d \<and> name_record_wf d) \<and> verify_name_record E now' None r s = Inr (True, [])) \<and>
   (verify_reviewer_opt_in E now md r s = Inr (True, m) \<longrightarrow>
      sig_valid E ''public_key'' r s \<and> (\<exists>d. r = JDict d \<and> opt_in_wf d) \<and> verify_reviewer_opt_in E now' None r s = Inr (True, [])) \<and>
   (verify_review_assignment E now md r s = Inr (True, m) \<longrightarrow>
      sig_valid E ''publisher_public_key'' r s \<and> (\<exists>d. r = JDict d \<and> assignment_wf E d) \<and>
      verify_review_assignment E now' None r s = Inr (True, [])) \<and>
   (verify_review_record E now md r s = Inr (True, m) \<longrightarrow>
      sig_valid E ''reviewer_public_key'' r s \<and> (\<exists>d. r = JDict d \<and> review_wf d) \<and>
      verify_review_record E now' None r s = Inr (True, []))"
  by (intro conjI impI)
    (blast intro: name_rec.reverify opt_in.reverify assignment.reverify review.reverify
      dest: name_rec.accepted_valid name_rec.accepted_wf opt_in.accepted_valid opt_in.accepted_wf
        assignment.accepted_valid assignment.accepted_wf review.accepted_valid review.accepted_wf)+

theorem verification_is_sound_witness:
  "verify_name_record demo_env 1000000 None demo_name (JStr demo_sig) = Inr (True, [])"
proof -
  have n: "demo_name = JDict (build_name_record 100 ''site'' ''ann'' (public_key_to_b64 ''k'') ''ref'' None)"
    by (simp add: demo_name_def)
  have "verify_name_record demo_env 100 (Some 300) demo_name (JStr demo_sig) = Inr (True, [])"
    unfolding n by (rule name_rec.sign_then_verify [OF demo_env_ok _ build_name_record_wf])
      (use demo_signed(1) in \<open>simp_all add: fresh_Some build_name_record_def demo_name_def\<close>)
  then show ?thesis using verification_is_sound [of demo_env 100 "Some 300" demo_name "JStr demo_sig" "[]" 1000000] by blast
qed

section \<open>Reviewers and trust\<close>

text \<open>
  C32: Reviewer selection returns distinct pool members, as many as asked for and available, none outranked
  by one left out; it does not depend on the order or repetition of the pool, and asking for more only
  appends.
\<close>

theorem reviewer_selection:
  assumes "set pool = set pool'" and "m \<le> n"
  shows "select_reviewers E ck pool n = select_reviewers E ck pool' n \<and>
    set (select_reviewers E ck pool n) \<subseteq> set pool \<and> distinct (select_reviewers E ck pool n) \<and>
    length (select_reviewers E ck pool n) = min (nat n) (card (set pool)) \<and>
    (\<forall>x \<in> set (select_reviewers E ck pool n). \<forall>y \<in> set pool - set (select_reviewers E ck pool n). rank E ck x \<le> rank E ck y) \<and>
    prefix (select_reviewers E ck pool m) (select_reviewers E ck pool n)"
proof (intro conjI ballI)
  show "select_reviewers E ck pool n = select_reviewers E ck pool' n"
    using assms(1) by (simp add: select_reviewers_ranking)
qed (use select_reviewers_facts select_reviewers_best select_reviewers_prefix [OF assms(2)] in auto)

theorem reviewer_selection_witness: "select_reviewers demo_env ''c'' [''a'', ''b''] 1 = select_reviewers demo_env ''c'' [''b'', ''a'', ''a''] 1"
  using reviewer_selection [of "[''a'', ''b'']" "[''b'', ''a'', ''a'']" 0 1] by auto

text \<open>
  C33: A source cannot raise its influence by repeating itself: a further signal of the same source that is
  no more severe than one already counted changes nothing, whatever the store and the policy.
\<close>

theorem no_amplification:
  assumes "x \<in> set xs" and "source_pubkey s = source_pubkey x" and "severity_of pol s \<le> severity_of pol x"
  shows "score_content E (xs @ [s]) store pol now = score_content E xs store pol now"
  using score_absorbs [OF assms] .

theorem no_amplification_witness:
  "let s = \<lparr>sig_kind = ''review'', sig_content_key = ''c'', source_pubkey = ''r'', sig_verdict = ''warn'', sig_reason = JNull, sig_timestamp = 5\<rparr>
   in score_content demo_env ([s] @ [s]) (JDict []) default_policy 9 = score_content demo_env [s] (JDict []) default_policy 9"
  unfolding Let_def by (rule no_amplification, rule list.set_intros(1)) (rule refl, rule order_refl)

text \<open>
  C34: Under a sane policy a score is at least zero and at most the number of distinct sources times the
  largest contribution a single peer may make; the breakdown names each source once.
\<close>

theorem score_is_bounded:
  assumes "policy_ok pol smax" and "score_content E xs store pol now = Inr r"
  shows "0 \<le> score r \<and> score r \<le> real (card (source_pubkey ` set xs)) * (max_weight_per_peer pol * smax) \<and>
    distinct (map c_source (breakdown r)) \<and> decision r = decide (score r) pol"
  using score_bounds [OF assms] breakdown_sources [OF assms(2)] dedupe_facts(2) assms(2)
  by (auto simp: score_content_Inr)

theorem score_is_bounded_witness: "\<exists>r. score_content demo_env [] (JDict []) default_policy 9 = Inr r \<and> score r \<le> 0"
proof -
  obtain r where r: "score_content demo_env [] (JDict []) default_policy 9 = Inr r"
    by (simp add: score_content_Inr dedupe_by_source_def)
  have "policy_ok default_policy 3" by (simp add: policy_ok_def default_policy_def)
  from score_is_bounded [OF this r] r show ?thesis by simp
qed

section \<open>Stores on disk\<close>

text \<open>
  C35: Once a URI is pinned to a key at a record timestamp, the pin store read back from the disk answers
  mismatch for every other key, rollback for an older record of the same key, and match otherwise.
\<close>

theorem pinned_keys_are_enforced:
  assumes "p \<noteq> []" and "load_pinstore E p fs = (Inr (JDict d), fs)" and "jwf (JDict d)" "no_float (JDict d)"
    and "utf8 uri" "utf8 k" "utf8 a" and "pin_key E pid now uri (JStr k) (JStr a) p (Some n) fs = (Inr u, fs')"
  shows "\<exists>pins. load_pinstore E p fs' = (Inr pins, fs') \<and>
    (\<forall>pk t. check_pin pins uri pk (Some t) =
      Inr (if pk \<noteq> JStr k then Mismatch else if t < n then Rollback else Match))"
  using pin_then_check [OF assms] .

theorem pinned_keys_are_enforced_witness:
  "\<exists>u fs' pins. pin_key demo_env 7 100 ''site'' (JStr ''k'') (JStr ''ann'') [''n''] (Some 90) empty_disk = (Inr u, fs') \<and>
    load_pinstore demo_env [''n''] fs' = (Inr pins, fs') \<and> check_pin pins ''site'' (JStr ''x'') (Some 95) = Inr Mismatch \<and>
    check_pin pins ''site'' (JStr ''k'') (Some 80) = Inr Rollback"
proof -
  have l: "load_pinstore demo_env [''n''] empty_disk = (Inr (JDict []), empty_disk)"
    by (simp add: load_pinstore_def fexists_def)
  obtain u fs' where p: "pin_key demo_env 7 100 ''site'' (JStr ''k'') (JStr ''ann'') [''n''] (Some 90) empty_disk = (Inr u, fs')"
    using save_empty_disk
    by (fastforce simp: pin_key_def io_bind_def l io_lift_def pin_entry_def get_or_def save_pinstore_def)
  show ?thesis
    using pinned_keys_are_enforced [OF _ l _ _ _ _ _ p] p by (fastforce simp: utf8_ascii)
qed

text \<open>
  C36: What an update of a pin leaves on the disk: the pin store read back has every other pin as it was,
  and this one with its key, the time it was first seen and every other field as before, the time of
  the update, and as mark the greater of the old mark and the timestamp of the record (the old mark
  when there is no record); updating a URI that is not pinned changes nothing. Re-pinning leaves every
  other pin and the time the URI was first seen, and sets the key and the mark it was given.
\<close>

theorem pin_marks_never_fall:
  assumes "p \<noteq> []" and "load_pinstore E p fs = (Inr (JDict d), fs)" and "jwf (JDict d)" "no_float (JDict d)" "utf8 k" "utf8 a" "utf8 uri"
  shows "(update_pin_last_seen E pid now uri p ts fs = (Inr u, fs') \<longrightarrow>
      (case map_of d uri of
         None \<Rightarrow> fs' = fs
       | Some w \<Rightarrow> \<exists>e d' e'. w = JDict e \<and> load_pinstore E p fs' = (Inr (JDict d'), fs') \<and> only_pin_changed uri d d' \<and>
           map_of d' uri = Some (JDict e') \<and> map_of e' ''last_seen'' = Some (JInt now) \<and>
           (\<forall>f. f \<noteq> ''last_seen'' \<longrightarrow> f \<noteq> ''record_timestamp'' \<longrightarrow> map_of e' f = map_option sort_keys (map_of e f)) \<and>
           (case ts of
              None \<Rightarrow> map_of e' ''record_timestamp'' = map_option sort_keys (map_of e ''record_timestamp'')
            | Some t \<Rightarrow> \<exists>n. py_int (get_or e ''record_timestamp'' (JInt 0)) = Inr n \<and>
                map_of e' ''record_timestamp'' = Some (JInt (max t n))))) \<and>
    (pin_key E pid now uri (JStr k) (JStr a) p ts fs = (Inr u, fs') \<longrightarrow>
      (\<exists>d' e'. load_pinstore E p fs' = (Inr (JDict d'), fs') \<and> only_pin_changed uri d d' \<and> map_of d' uri = Some (JDict e') \<and>
         map_of e' ''public_key'' = Some (JStr k) \<and> map_of e' ''record_timestamp'' = map_option JInt ts \<and>
         (\<forall>e f. map_of d uri = Some (JDict e) \<longrightarrow> map_of e ''first_seen'' = Some f \<longrightarrow> map_of e' ''first_seen'' = Some (sort_keys f))))"
proof (intro conjI impI, goal_cases)
  case 1
  show ?case
  proof (cases "map_of d uri")
    case None
    then show ?thesis using update_unpinned [OF assms(2) None 1] by simp
  next
    case (Some w)
    show ?thesis unfolding Some option.case
      by (rule update_pin_saved [OF assms(1-4) 1 Some]) (intro exI conjI allI impI; assumption?; simp)
  qed
next
  case 2
  show ?case by (rule pin_key_saved [OF assms(1-4,7,5,6) 2]) blast
qed

theorem pin_marks_never_fall_witness:
  "\<exists>fs' d e. update_pin_last_seen demo_env 7 200 ''site'' [''n''] (Some 80) demo_pin_disk = (Inr (), fs') \<and>
    load_pinstore demo_env [''n''] fs' = (Inr (JDict d), fs') \<and> map_of d ''site'' = Some (JDict e) \<and>
    map_of e ''record_timestamp'' = Some (JInt 90) \<and> map_of e ''public_key'' = Some (JStr ''k'')"
proof -
  obtain fs' where u: "update_pin_last_seen demo_env 7 200 ''site'' [''n''] (Some 80) demo_pin_disk = (Inr (), fs')"
    using demo_pin_update by blast
  then show ?thesis
    using pin_marks_never_fall [OF _ demo_pinned(1), of "''k''" "''k''" "''site''" 7 200 "Some 80" "()" fs']
    by (auto simp: demo_pin_def get_or_def utf8_ascii dest!: spec [where x = "''public_key''"])
qed

text \<open>
  C37: Saving the pin store, any of the four stores of the naming server or the reviewer daemon's list of
  settled assignments replaces its file atomically: whatever disk call fails, after a success the file
  is exactly the text of the store, and after a failure, be it of the disk or of the keys that do not
  sort, the file is what it was. (The trust store, the policy and the configuration are written in
  place and are not covered.)
\<close>

theorem saves_are_atomic:
  assumes "p \<noteq> []"
  shows "store_replaced p (dumps_indent_sorted E pins) (save_pinstore E pid pins p) \<and>
    store_replaced p (dumps_indent_sorted E (entries_json E names)) (save_entries E p names) \<and>
    store_replaced p (dumps_indent_sorted E (entries_json E reviewers)) (reviewer_store_save E p reviewers) \<and>
    store_replaced p (dumps_indent_sorted E (inbox_json E ib)) (save_inbox E p ib) \<and>
    store_replaced p (dumps_indent_sorted E (inbox_json E att)) (attachment_store_save E p att) \<and>
    store_replaced p (dumps_indent_sorted E (JDict cache)) (save_cache E cache p)"
  by (simp add: save_pinstore_def save_entries_def reviewer_store_save_def save_inbox_def attachment_store_save_def save_cache_def
      replaced_checked [OF assms] replaced_atomic [OF assms])

theorem saves_are_atomic_witness:
  "\<exists>e fs'. save_entries demo_env [''site'', ''a.md''] [(JStr ''site'', demo_entry)] (demo_disk\<lparr>faults := [Short 1]\<rparr>) = (Inl e, fs') \<and>
    at_path fs' [''site'', ''a.md''] = Some (File ''# a'')"
proof -
  obtain e fs' where s: "save_entries demo_env [''site'', ''a.md''] [(JStr ''site'', demo_entry)] (demo_disk\<lparr>faults := [Short 1]\<rparr>) = (Inl e, fs')"
    by (simp add: save_entries_def save_checked_def keys_sortable_def save_atomic_def mkdir_p_def mkdir_step_def io_bind_def io_ret_def
        write_bytes_def next_fault_def is_directory_def at_path_def demo_disk_def)
  have "at_path (demo_disk\<lparr>faults := [Short 1]\<rparr>) [''site'', ''a.md''] = Some (File ''# a'')"
    by (simp add: demo_disk_def at_path_def)
  with saves_are_atomic [of "[''site'', ''a.md'']" demo_env JNull 0 "[(JStr ''site'', demo_entry)]" "[]" "[]" "[]" "[]"] s
  show ?thesis unfolding store_replaced_def by fastforce
qed

text \<open>
  C38: A naming server started on the file an earlier one saved holds the same records under the same keys,
  up to the order of their fields, and their signatures still verify.
\<close>

theorem restart_keeps_records:
  assumes "p \<noteq> []" and "saveable es" and "save_entries E p es fs = (Inr u, fs')"
  shows "map_of (name_recs (start_server E p rp ap tp fs')) k = map_option sorted_entry (map_of es k) \<and>
    (\<forall>e. map_of es k = Some e \<longrightarrow> sig_valid E kf (fst e) (snd e) \<longrightarrow> sig_valid E kf (fst (sorted_entry e)) (snd (sorted_entry e)))"
proof (intro conjI allI impI)
  show "map_of (name_recs (start_server E p rp ap tp fs')) k = map_option sorted_entry (map_of es k)"
    using load_saved_entries [OF assms] by (simp add: start_server_def)
  fix e
  assume e: "map_of es k = Some e" and v: "sig_valid E kf (fst e) (snd e)"
  have "jwf (fst e)" using map_of_SomeD [OF e] assms(2) by (auto simp: saveable_def)
  from sig_valid_sorted [OF this v] show "sig_valid E kf (fst (sorted_entry e)) (snd (sorted_entry e))"
    by (simp add: sorted_entry_def)
qed

theorem restart_keeps_records_witness:
  "\<exists>fs'. save_entries demo_env [''n''] [(JStr ''site'', demo_entry)] empty_disk = (Inr (), fs') \<and>
    map_of (name_recs (start_server demo_env [''n''] [''r''] [''a''] [''t''] fs')) (JStr ''site'') = Some (sorted_entry demo_entry)"
proof -
  obtain fs' where s: "save_entries demo_env [''n''] [(JStr ''site'', demo_entry)] empty_disk = (Inr (), fs')"
    using save_empty_disk by (fastforce simp: save_entries_def save_checked_def keys_sortable_def)
  have "saveable [(JStr ''site'', demo_entry)]"
    using sort_keys_wf(1) [OF demo_name_json(1)] sort_keys_no_float(1) [OF demo_name_json(2)]
    by (simp add: saveable_def dict_ok_def demo_entry_def demo_sig_def utf8_ascii)
  from restart_keeps_records [OF _ this s] s show ?thesis by auto
qed

text \<open>
  C39: When the server answers the posting of an assignment by ok, every reviewer the record names has in
  the inbox, under the record's content key, this record with its signature, or the one that was there
  and is at least as new; the listing of the reviewer's assignments contains it; no other reviewer's
  inbox and no other content changed; and the file on the disk is the text of the new inboxes.
\<close>

theorem assignments_are_delivered:
  assumes "handle_post_assignment E now msg srv = (Inr (JDict answer), srv')" and "map_of answer ''type'' = Some (JStr ''ok'')"
    and "assignments_path srv \<noteq> []"
  shows "\<exists>d ck revs ib ib'. msg_record msg = JDict d \<and> map_of d ''content_key'' = Some (JStr ck) \<and>
    map_of d ''reviewer_public_keys'' = Some (JList (map JStr revs)) \<and> assignments srv = Some ib \<and> assignments srv' = Some ib' \<and>
    (\<forall>r \<in> set revs. \<exists>e. entry_at ib' (JStr r) (JStr ck) = Some e \<and>
       (e = (msg_record msg, msg_signature msg) \<or>
        entry_at ib (JStr r) (JStr ck) = Some e \<and> stamp_of (msg_record msg, msg_signature msg) \<le> stamp_of e) \<and>
       (r \<noteq> [] \<longrightarrow> (\<exists>es. e \<in> set es \<and>
          handle_list_assignments [(''type'', JStr ''list_assignments''), (''reviewer_public_key'', JStr r)] srv' =
            (Inr (records_resp ''assignments'' es), srv')))) \<and>
    (\<forall>x y. x \<notin> JStr ` set revs \<or> y \<noteq> JStr ck \<longrightarrow> entry_at ib' x y = entry_at ib x y) \<and>
    at_path (disk srv') (assignments_path srv) = Some (File (dumps_indent_sorted E (inbox_json E ib')))"
proof -
  let ?e = "(msg_record msg, msg_signature msg)"
  obtain d ck revs ib ib' where p: "msg_record msg = JDict d" "map_of d ''content_key'' = Some (JStr ck)"
      "map_of d ''reviewer_public_keys'' = Some (JList (map JStr revs))" "assignments srv = Some ib" "assignments srv' = Some ib'"
      "assign_loop (JStr ck) (stamp_of ?e) ?e ib (map JStr revs) = (Inr (), ib')"
      "at_path (disk srv') (assignments_path srv) = Some (File (dumps_indent_sorted E (inbox_json E ib')))"
    by (rule post_assignment_delivers [OF assms])
  have "\<exists>e. entry_at ib' (JStr r) (JStr ck) = Some e \<and> (e = ?e \<or> entry_at ib (JStr r) (JStr ck) = Some e \<and> stamp_of ?e \<le> stamp_of e) \<and>
      (r \<noteq> [] \<longrightarrow> (\<exists>es. e \<in> set es \<and>
        handle_list_assignments [(''type'', JStr ''list_assignments''), (''reviewer_public_key'', JStr r)] srv' =
          (Inr (records_resp ''assignments'' es), srv')))" if "r \<in> set revs" for r
  proof -
    have "JStr r \<in> set (map JStr revs)" using that by simp
    from assign_loop_each [OF p(6) this] obtain e where "entry_at ib' (JStr r) (JStr ck) = Some e" "e = ?e \<or> entry_at ib (JStr r) (JStr ck) = Some e \<and> stamp_of ?e \<le> stamp_of e" by blast
    then show ?thesis using list_assignments_answer [OF p(5), of r "JStr ck" e] by blast
  qed
  moreover have "\<forall>x y. x \<notin> JStr ` set revs \<or> y \<noteq> JStr ck \<longrightarrow> entry_at ib' x y = entry_at ib x y"
    using assign_loop_any [OF p(6)] by auto
  ultimately show ?thesis using p by blast
qed

theorem assignments_are_delivered_witness:
  "\<exists>srv' ib' e. handle_post_assignment demo_env 110 demo_posting demo_reviewers =
      (Inr (JDict [(''type'', JStr ''ok''), (''content_key'', JStr demo_ck)]), srv') \<and> assignments srv' = Some ib' \<and>
    entry_at ib' (JStr (public_key_to_b64 ''r'')) (JStr demo_ck) = Some e"
proof -
  obtain srv' where h: "handle_post_assignment demo_env 110 demo_posting demo_reviewers =
      (Inr (JDict [(''type'', JStr ''ok''), (''content_key'', JStr demo_ck)]), srv')"
    using demo_posted by blast
  have "msg_record demo_posting = JDict demo_assignment" "assignments_path demo_reviewers \<noteq> []"
    by (simp_all add: demo_posting_record demo_reviewers_def demo_strict_def empty_server_def)
  with assignments_are_delivered [OF h] h show ?thesis by (fastforce simp: demo_assignment_def)
qed

text \<open>
  C40: Over every sequence of requests, accepted or not, none of the server's four stores loses an entry or
  goes back in time: a name, a reviewer's opt-in, an assignment of a content to a reviewer and a
  review of a content by a reviewer stay, each the same as before or replaced by one with a strictly
  greater timestamp; and no store is switched on or off.
\<close>

theorem stores_only_move_forward:
  assumes "server_run E srv0 srv"
  shows "(\<forall>uri. newer_or_same (map_of (name_recs srv0) uri) (map_of (name_recs srv) uri)) \<and>
    rel_option (\<lambda>old new. \<forall>key. newer_or_same (map_of old key) (map_of new key)) (reviewer_recs srv0) (reviewer_recs srv) \<and>
    rel_option (\<lambda>old new. \<forall>r ck. newer_or_same (entry_at old r ck) (entry_at new r ck)) (assignments srv0) (assignments srv) \<and>
    rel_option (\<lambda>old new. \<forall>ck r. newer_or_same (entry_at old ck r) (entry_at new ck r)) (attachments srv0) (attachments srv)"
  using run_advances [OF assms] unfolding stores_advance_def .

theorem stores_only_move_forward_witness:
  "\<exists>e. map_of (name_recs demo_server) (JStr ''site'') = Some e \<and> 100 \<le> stamp_of e"
proof -
  have "newer_or_same (map_of (name_recs demo_server) (JStr ''site'')) (map_of (name_recs demo_server) (JStr ''site''))"
    using stores_only_move_forward [OF silent_run [of demo_env demo_server]] by blast
  then show ?thesis by (simp add: demo_server_facts demo_entry_facts)
qed

section \<open>Further facts\<close>

text \<open>Every language's table labels exactly the category slugs, in their order and without repetition; an unknown slug is its own label and an unknown language falls back to English.\<close>

theorem labels_are_complete:
  "distinct category_slugs \<and> map fst (labeled_categories lang) = category_slugs \<and>
   (\<forall>t \<in> {labels_fr, labels_en, labels_zh, labels_ar, labels_hi}. map fst t = category_slugs) \<and>
   (slug \<notin> set category_slugs \<longrightarrow> label slug lang = slug) \<and>
   (lang \<notin> {''fr'', ''en'', ''zh'', ''ar'', ''hi''} \<longrightarrow> label slug lang = label slug ''en'')"
  using category_slugs_distinct label_tables_keys label_unknown_slug label_unknown_lang by auto

text \<open>A registration proof verifies under the signer's key while it is within the drift allowed, and stops verifying once it is not.\<close>

theorem registration_proofs_verify:
  assumes "ed25519_ok E" and "create_register_proof E now uri author sk timestamp = (proof64, t)"
  shows "fst (verify_register_proof E now' uri author (JStr (public_key_to_b64 (pub_of E sk))) (JStr proof64) t (Some m))
    \<longleftrightarrow> \<bar>now' - t\<bar> \<le> m"
proof (cases "\<bar>now' - t\<bar> \<le> m")
  case True
  then show ?thesis using register_proof_verifies [OF assms, where md = "Some m"] by simp
qed (simp add: verify_register_proof_def)

text \<open>URI validation accepts exactly the strings of at most 255 characters that start with a letter or digit, go on with letters, digits, dots, dashes and underscores, and contain no double dot.\<close>

theorem valid_uris: "validate_uri v = Inr u \<longleftrightarrow> v = JStr u \<and> uri_ok u"
  by (rule validate_uri_iff)

text \<open>A higher score never gets a milder decision; the weight of a signal decays from one towards zero, never grows with time and halves after the half-life; trust set by the user is what counts, clamped to the policy's range.\<close>

theorem decisions_and_decay:
  assumes "s \<le> s'" and "now \<le> now'" and "0 < days" and "0 < ts"
    and "is_subscribed_moderator pol pk = None" and "set_explicit_trust store pk (Some f) = Inr store'"
  shows "decide s pol \<le> decide s' pol \<and>
    0 < time_decay ts now hl \<and> time_decay ts now' hl \<le> time_decay ts now hl \<and> time_decay ts now hl \<le> 1 \<and>
    time_decay ts (ts + 86400 * int days) (real days) = 1 / 2 \<and>
    weight_for E pk (JDict store') pol = Inr (clamp f 0 (max_weight_per_peer pol))"
  using decide_mono [OF assms(1)] time_decay_bounds time_decay_antitone [OF assms(2)] time_decay_half_life [OF assms(3,4)]
    weight_for_explicit [OF assms(5,6)] by auto

text \<open>A manifest signed with a key verifies under that key, the signed manifest naming the key itself.\<close>

theorem manifest_signature_round_trip:
  assumes "ed25519_ok E" and "sign_manifest E m sk = (signed, sig)"
  shows "verify_manifest E (JDict signed) (JStr sig) (pub_of E sk) = Inr True \<and>
    map_of signed ''public_key'' = Some (JStr (public_key_to_b64 (pub_of E sk)))"
  using sign_manifest_verifies [OF assms] assms(2) by (auto simp: sign_manifest_def Let_def)

text \<open>However many bytes each write of the operating system takes, a generated key pair is written whole and is what loading the two files under the same passphrase gives back; and a public key survives its Base64 form.\<close>

theorem secrets_are_written_whole:
  assumes "pem_ok P" and "generate_keypair E P sk ks key_dir name pw fs = (Inr (priv, pub), fs')" and "priv \<noteq> pub"
  shows "load_private_key P priv pw fs' = (Inr sk, fs') \<and> load_public_key P pub fs' = (Inr (pub_of E sk), fs') \<and>
   write_private_file ks p data = write_bytes p data \<and>
   (pk_accepts E pk \<longrightarrow> b64_to_public_key E (JStr (public_key_to_b64 pk)) = Inr pk) \<and>
   (public_key_to_b64 a = public_key_to_b64 b \<longleftrightarrow> a = b)"
  using generate_then_load [OF assms] by (simp add: write_private_file_complete public_key_to_b64_inj)

text \<open>
  The files that the vectors script writes are not stale at the next check, which writes nothing: from a disk
  where the directory can be made the script runs through, and checking what it wrote succeeds.
\<close>

theorem regenerated_vectors_are_not_stale:
  assumes "tells_apart E" and "mkdir_p dir fs = (Inr (), fs1)" "faults fs1 = []" and "\<And>name. \<not> is_directory fs1 (vector_path dir name)"
  shows "\<exists>fs'. gen_vectors E dir False fs = (Inr 0, fs') \<and> gen_vectors E dir True fs' = (Inr 0, fs')"
proof -
  have "\<And>seed m. ed_sign E (seed_key seed) m \<noteq> []" using assms(1) by (simp add: tells_apart_def)
  moreover have "\<exists>cs. gen_bundle_checks E = Inr cs" using bundle_verdicts(2) [OF assms(1)] by blast
  ultimately obtain fs' where "gen_vectors E dir False fs = (Inr 0, fs')" using regenerating_works [OF _ _ assms(2-4)] by blast
  then show ?thesis using vectors_regenerated by blast
qed

text \<open>
  The model computes the values of the conformance files checked in under spec/vectors: the canonical text of every
  input and the verdict on every URI and every bundle path.  A backquote stands for the double quote, a bar for the
  backslash.
\<close>

theorem reference_values_are_reproduced:
  "map (\<lambda>(name, v). canonical_json E v) canonical_inputs = map dq
     [''{`a`:2,`b`:1,`c`:{`y`:null,`z`:true}}'', ''{`files`:[{`path`:`b.md`},{`path`:`a.md`}],`n`:0}'',
      ''{`s`:`quote |` backslash || nl |n tab |t cr |r`}'', ''{`s`:`|u0000|u0001|u001f|u007f`}'',
      ''{`s`:`caf|u00e9 |u2014 |u4e2d|u6587 |u0627|u0644|u0639|u0631|u0628|u064a|u0629`}'',
      ''{`s`:`emoji |ud83d|ude42 math |ud835|udd38`}'', ''{`e`:2,`z`:3,`|u00e9`:1}'',
      ''{`a`:-5,`b`:9007199254740993}'', ''{`a`:{},`b`:[],`c`:``}'', ''{`uri`:`/mdp2p/abc`}''] \<and>
   gen_uris = Inr (map2 (\<lambda>u ok. JDict [(''uri'', JStr u), (''valid'', JBool ok)]) uri_candidates
     [True, True, True, True, False, False, False, False, False, False, False, False, False, True, False, False, False, False]) \<and>
   gen_paths = Inr (map2 (\<lambda>p ok. JDict [(''path'', JStr p), (''valid'', JBool ok)]) path_candidates
     [True, True, False, False, False, False, False, True, False, False, False, False, False, False, False, False, False])"
  by (simp only: canonical_texts gen_uris_all gen_paths_all uri_verdicts [symmetric] path_verdicts [symmetric] zip_map2 zip_same_conv_map map_map)
    simp

end
